(* ===== verification/Prelude.thy ===== *)
theory Prelude
  imports Main "HOL-Library.Finite_Map" "HOL-Library.Char_ord" "HOL-Library.List_Lexorder"
    "HOL-Library.Word"
begin

text \<open>
  What the components of pgbastion share: the part of the Go language and of its standard
  library that the sources use.

  \<^item> Instants and durations (package time). An instant is the number of nanoseconds since
    the zero time, so the zero time is \<open>0\<close>; a duration is a number of nanoseconds.
    Differences of instants saturate at the 64-bit bounds, as \<open>Time.Sub\<close> does.
  \<^item> Signed 32- and 64-bit wrap-around.
  \<^item> Maps. A Go map is a finite map; a map variable that may be nil is an option of one.
    The order in which \<open>range\<close> visits the keys is unspecified in Go, so every operation
    that loops over a map takes a function that picks the order as an argument, and
    \<open>is_ranger\<close> says what such a function may do: list every key once.
  \<^item> Decimal formatting (\<open>%d\<close>).
\<close>

named_theorems go_simps \<open>definitions of the Go runtime that unfold in component proofs\<close>

section \<open>Time\<close>

type_synonym time = int
type_synonym duration = int

abbreviation Millisecond :: duration where "Millisecond \<equiv> 1000000"
abbreviation Second :: duration where "Second \<equiv> 1000000000"
abbreviation Minute :: duration where "Minute \<equiv> 60000000000"
abbreviation Hour :: duration where "Hour \<equiv> 3600000000000"

definition max_duration :: duration where "max_duration = 9223372036854775807"
definition min_duration :: duration where "min_duration = - 9223372036854775808"

definition zero_time :: time where [go_simps]: "zero_time = 0"

definition IsZero :: "time \<Rightarrow> bool" where [go_simps]: "IsZero t \<longleftrightarrow> t = 0"

definition time_sub :: "time \<Rightarrow> time \<Rightarrow> duration" where
  "time_sub t u = max min_duration (min max_duration (t - u))"

abbreviation Since :: "time \<Rightarrow> time \<Rightarrow> duration" where
  "Since now t \<equiv> time_sub now t"

lemma time_sub_exact:
  "min_duration \<le> t - u \<Longrightarrow> t - u \<le> max_duration \<Longrightarrow> time_sub t u = t - u"
  by (simp add: time_sub_def)

lemma time_sub_less_iff:
  "min_duration < d \<Longrightarrow> d \<le> max_duration \<Longrightarrow> time_sub t u < d \<longleftrightarrow> t - u < d"
  by (auto simp: time_sub_def)

lemma time_sub_greater_iff:
  "min_duration \<le> d \<Longrightarrow> d < max_duration \<Longrightarrow> d < time_sub t u \<longleftrightarrow> d < t - u"
  by (auto simp: time_sub_def)

lemma time_sub_mono: "t \<le> t' \<Longrightarrow> time_sub t u \<le> time_sub t' u"
  by (auto simp: time_sub_def)

section \<open>Fixed-width integers\<close>

definition wrap64 :: "int \<Rightarrow> int" where
  "wrap64 x = (x + 2 ^ 63) mod 2 ^ 64 - 2 ^ 63"

definition wrap32 :: "int \<Rightarrow> int" where
  "wrap32 x = (x + 2 ^ 31) mod 2 ^ 32 - 2 ^ 31"

definition in_int64 :: "int \<Rightarrow> bool" where
  "in_int64 x \<longleftrightarrow> - (2 ^ 63) \<le> x \<and> x < 2 ^ 63"

lemma wrap64_range: "in_int64 (wrap64 x)"
proof -
  have "(x + 2 ^ 63) mod 2 ^ 64 < (2 ^ 64 :: int)" and "(0::int) \<le> (x + 2 ^ 63) mod 2 ^ 64"
    by (simp_all)
  then show ?thesis by (simp add: in_int64_def wrap64_def)
qed

lemma wrap64_id: "in_int64 x \<Longrightarrow> wrap64 x = x"
  by (simp add: in_int64_def wrap64_def)

lemma wrap32_id: "- (2 ^ 31) \<le> x \<Longrightarrow> x < 2 ^ 31 \<Longrightarrow> wrap32 x = x"
  by (simp add: wrap32_def)

section \<open>Maps and their iteration orders\<close>

type_synonym 'v gomap = "(string, 'v) fmap option"

definition mget :: "'v gomap \<Rightarrow> string \<Rightarrow> 'v option" where
  "mget m k = (case m of None \<Rightarrow> None | Some f \<Rightarrow> fmlookup f k)"

lemma mget_simps [simp]:
  "mget None k = None" "mget (Some f) k = fmlookup f k"
  by (simp_all add: mget_def)

text \<open>A ranger picks, for the keys of a map, the order of one loop over it.\<close>

type_synonym 'k ranger = "'k fset \<Rightarrow> 'k list"

definition is_ranger :: "'k ranger \<Rightarrow> bool" where
  "is_ranger r \<longleftrightarrow> (\<forall>A. distinct (r A) \<and> fset_of_list (r A) = A)"

definition range_keys :: "string ranger \<Rightarrow> 'v gomap \<Rightarrow> string list" where
  "range_keys r m = (case m of None \<Rightarrow> [] | Some f \<Rightarrow> r (fmdom f))"

definition range_vals :: "string ranger \<Rightarrow> 'v gomap \<Rightarrow> 'v list" where
  "range_vals r m = List.map_filter (mget m) (range_keys r m)"

definition maplen :: "('k, 'v) fmap \<Rightarrow> nat" where
  "maplen m = fcard (fmdom m)"

lemma ranger_set: "is_ranger r \<Longrightarrow> set (r A) = fset A"
  by (metis fset_of_list.rep_eq is_ranger_def)

lemma ranger_distinct: "is_ranger r \<Longrightarrow> distinct (r A)"
  by (simp add: is_ranger_def)

lemma ranger_length: "is_ranger r \<Longrightarrow> length (r A) = fcard A"
  by (metis distinct_card fcard.rep_eq ranger_distinct ranger_set)

lemma ranger_sorted: "is_ranger sorted_list_of_fset"
proof -
  have "distinct (sorted_list_of_fset A)" for A :: "'a fset"
    by (simp add: sorted_list_of_fset.rep_eq)
  then show ?thesis by (simp add: is_ranger_def)
qed

lemma ranger_fempty [simp]: "is_ranger r \<Longrightarrow> r {||} = []"
  using ranger_set [of r "{||}"] by simp

lemma sorted_list_of_fset_fempty [simp]: "sorted_list_of_fset {||} = []"
  by (simp add: sorted_list_of_fset.rep_eq)

lemma sorted_list_of_fset_finsert [simp]:
  "sorted_list_of_fset (finsert x A) = insort x (sorted_list_of_fset (A |-| {|x|}))"
  by (simp add: sorted_list_of_fset.rep_eq sorted_list_of_set_insert_remove)

lemma range_keys_set:
  "is_ranger r \<Longrightarrow> k \<in> set (range_keys r m) \<longleftrightarrow> mget m k \<noteq> None"
  by (cases m) (auto simp: range_keys_def ranger_set fmlookup_dom_iff)

lemma range_keys_distinct: "is_ranger r \<Longrightarrow> distinct (range_keys r m)"
  by (simp add: range_keys_def ranger_distinct split: option.split)

lemma range_vals_set:
  assumes "is_ranger r"
  shows "v \<in> set (range_vals r m) \<longleftrightarrow> (\<exists>k. mget m k = Some v)"
proof -
  have "v \<in> set (range_vals r m) \<longleftrightarrow> (\<exists>k \<in> set (range_keys r m). mget m k = Some v)"
    by (force simp: range_vals_def List.map_filter_def)
  then show ?thesis using range_keys_set [OF assms] by auto
qed

lemma maplen_upd_new: "fmlookup m k = None \<Longrightarrow> maplen (fmupd k v m) = Suc (maplen m)"
  by (simp add: maplen_def fcard_finsert_if fmlookup_dom_iff)

lemma maplen_upd_old: "fmlookup m k \<noteq> None \<Longrightarrow> maplen (fmupd k v m) = maplen m"
  by (auto simp: maplen_def fcard_finsert_if fmlookup_dom_iff)

lemma maplen_card: "maplen m = card (fmdom' m)"
  by (simp add: maplen_def fcard.rep_eq fmdom'_alt_def)

lemma maplen_drop: "fmlookup m k \<noteq> None \<Longrightarrow> maplen (fmdrop k m) = maplen m - 1"
  by (auto simp: maplen_card fmdom'I card_Diff_singleton)

lemma maplen_pos: "fmlookup m k \<noteq> None \<Longrightarrow> 0 < maplen m"
  by (auto simp: maplen_card card_gt_0_iff dest: fmdom'I)

lemma maplen_empty [simp]: "maplen fmempty = 0"
  by (simp add: maplen_def)

lemmas maplen_simps = maplen_upd_new maplen_upd_old maplen_drop

section \<open>Decimal formatting\<close>

definition digit :: "int \<Rightarrow> char" where
  "digit n = char_of (48 + n mod 10)"

function show_abs :: "int \<Rightarrow> string" where
  "show_abs n = (if n < 10 then [digit n] else show_abs (n div 10) @ [digit n])"
  by pat_completeness auto
termination by (relation "measure nat") auto

declare show_abs.simps [simp del]

definition show_int :: "int \<Rightarrow> string" where
  "show_int i = (if i < 0 then CHR ''-'' # show_abs (- i) else show_abs i)"

definition digit_val :: "char \<Rightarrow> int" where
  "digit_val c = of_char c - 48"

definition read_abs :: "string \<Rightarrow> int" where
  "read_abs s = foldl (\<lambda>a c. 10 * a + digit_val c) 0 s"

lemma digit_val_digit [simp]: "digit_val (digit n) = n mod 10"
proof -
  have "0 \<le> n mod 10" "n mod 10 < 10" by simp_all
  then have "(48 + n mod 10) mod 256 = 48 + n mod 10" by (intro mod_pos_pos_trivial) linarith+
  then show ?thesis by (simp add: digit_val_def digit_def)
qed

lemma digit_not_minus: "digit n \<noteq> CHR ''-''"
proof
  assume "digit n = CHR ''-''"
  then have "digit_val (digit n) = digit_val (CHR ''-'')" by simp
  then have "n mod 10 = - 3" by (simp only: digit_val_digit) (simp add: digit_val_def)
  moreover have "0 \<le> n mod 10" by simp
  ultimately show False by linarith
qed

lemma read_show_abs [simp]: "0 \<le> n \<Longrightarrow> read_abs (show_abs n) = n"
proof (induction n rule: show_abs.induct)
  case (1 n)
  then show ?case
    by (subst show_abs.simps) (auto simp: read_abs_def)
qed

lemma show_abs_ne: "show_abs n \<noteq> []"
  by (subst show_abs.simps) simp

lemma show_abs_hd: "hd (show_abs n) \<noteq> CHR ''-''"
proof (induction n rule: show_abs.induct)
  case (1 n)
  then show ?case by (subst show_abs.simps) (auto simp: show_abs_ne digit_not_minus)
qed

lemma show_abs_inj: "0 \<le> m \<Longrightarrow> 0 \<le> n \<Longrightarrow> show_abs m = show_abs n \<Longrightarrow> m = n"
  by (metis read_show_abs)

lemma show_abs_neq_minus [simp]:
  "show_abs n \<noteq> CHR ''-'' # s" "CHR ''-'' # s \<noteq> show_abs n"
  by (metis list.sel(1) show_abs_hd)+

lemma show_int_inj: "show_int i = show_int j \<Longrightarrow> i = j"
  by (auto simp: show_int_def split: if_splits dest!: show_abs_inj [rotated 2])

lemma show_int_ne [simp]: "show_int i \<noteq> []"
  by (simp add: show_int_def show_abs_ne)

end
