(* ===== verification/Json.thy ===== *)
theory Json
  imports Prelude
begin

text \<open>
  JSON documents as encoding/json reads and writes them, down to the level the sources
  depend on: struct tags, omitted empty fields, null, type mismatches, duplicate and
  case-folded keys, key order of maps.

  A document is a tree. A string that holds an RFC 3339 instant is the leaf \<open>JTime\<close>; a
  number with a fraction or an exponent is \<open>JFrac\<close> (no field of the program accepts one).
  Text that is no document at all is \<open>None\<close> where bytes are decoded.
  Strings are valid UTF-8 (encoding/json replaces other bytes), and keys fold over ASCII. A
  text field that happens to hold an instant is read as a mismatch, where Go accepts any string.

  Decoders take the value already stored in the target, as \<open>Unmarshal\<close> does: null leaves
  it, except that it sets a map to nil. They stop at the first mismatch; \<open>Unmarshal\<close>
  goes on but returns the first error, and no caller uses the target then.
\<close>

datatype json =
    JNull
  | JBool bool
  | JInt int
  | JFrac
  | JStr string
  | JTime time
  | JArr "json list"
  | JObj "(string \<times> json) list"

datatype json_error = SyntaxError | UnmarshalTypeError | MarshalTimeError

type_synonym 'a decoder = "json \<Rightarrow> 'a \<Rightarrow> json_error + 'a"

section \<open>Decoding\<close>

fun dec_str :: "string decoder" where
  "dec_str JNull s = Inr s"
| "dec_str (JStr t) s = Inr t"
| "dec_str _ s = Inl UnmarshalTypeError"

fun dec_bool :: "bool decoder" where
  "dec_bool JNull b = Inr b"
| "dec_bool (JBool c) b = Inr c"
| "dec_bool _ b = Inl UnmarshalTypeError"

text \<open>The Go types int and int64 are both 64 bits wide on the platforms the build targets.\<close>

fun dec_int64 :: "int decoder" where
  "dec_int64 JNull i = Inr i"
| "dec_int64 (JInt j) i = (if in_int64 j then Inr j else Inl UnmarshalTypeError)"
| "dec_int64 _ i = Inl UnmarshalTypeError"

fun dec_time :: "time decoder" where
  "dec_time JNull t = Inr t"
| "dec_time (JTime u) t = Inr u"
| "dec_time _ t = Inl UnmarshalTypeError"

definition fold_char :: "char \<Rightarrow> char" where
  "fold_char c = (if CHR ''A'' \<le> c \<and> c \<le> CHR ''Z'' then char_of (of_char c + 32 :: nat) else c)"

definition key_matches :: "string \<Rightarrow> string \<Rightarrow> bool" where
  "key_matches k name \<longleftrightarrow> map fold_char k = map fold_char name"

type_synonym 's fields = "(string \<times> 's decoder) list"

definition dec_field :: "('s \<Rightarrow> 'a) \<Rightarrow> (('a \<Rightarrow> 'a) \<Rightarrow> 's \<Rightarrow> 's) \<Rightarrow> 'a decoder \<Rightarrow> 's decoder" where
  "dec_field get upd d j s =
     (case d j (get s) of Inl e \<Rightarrow> Inl e | Inr v \<Rightarrow> Inr (upd (\<lambda>_. v) s))"

fun dec_members :: "'s fields \<Rightarrow> (string \<times> json) list \<Rightarrow> 's \<Rightarrow> json_error + 's" where
  "dec_members fs [] s = Inr s"
| "dec_members fs ((k, v) # kvs) s =
     (case find (\<lambda>f. key_matches k (fst f)) fs of
        None \<Rightarrow> dec_members fs kvs s
      | Some f \<Rightarrow> (case snd f v s of Inl e \<Rightarrow> Inl e | Inr s' \<Rightarrow> dec_members fs kvs s'))"

fun dec_struct :: "'s fields \<Rightarrow> 's decoder" where
  "dec_struct fs JNull s = Inr s"
| "dec_struct fs (JObj kvs) s = dec_members fs kvs s"
| "dec_struct fs _ s = Inl UnmarshalTypeError"

text \<open>
  A map decoder: every element starts from the zero value of the element type, which null
  leaves as it is. In the maps of pointers null would be a nil pointer; no encoder of the
  program writes one, and the model rejects it.
\<close>

definition dec_ptr :: "'v decoder \<Rightarrow> 'v decoder" where
  "dec_ptr d j z = (if j = JNull then Inl UnmarshalTypeError else d j z)"

lemma dec_ptr_not_null [simp]: "j \<noteq> JNull \<Longrightarrow> dec_ptr d j z = d j z"
  by (simp add: dec_ptr_def)

fun dec_elems :: "'v decoder \<Rightarrow> 'v \<Rightarrow> (string \<times> json) list \<Rightarrow> (string, 'v) fmap
    \<Rightarrow> json_error + (string, 'v) fmap" where
  "dec_elems d z [] m = Inr m"
| "dec_elems d z ((k, v) # kvs) m =
     (case d v z of Inl e \<Rightarrow> Inl e | Inr x \<Rightarrow> dec_elems d z kvs (fmupd k x m))"

fun dec_map :: "'v decoder \<Rightarrow> 'v \<Rightarrow> 'v gomap decoder" where
  "dec_map d z JNull m = Inr None"
| "dec_map d z (JObj kvs) m =
     (case dec_elems d z kvs (case m of None \<Rightarrow> fmempty | Some f \<Rightarrow> f) of
        Inl e \<Rightarrow> Inl e | Inr f \<Rightarrow> Inr (Some f))"
| "dec_map d z _ m = Inl UnmarshalTypeError"

text \<open>The top level: bytes that are no document fail before anything is stored.\<close>

definition Unmarshal :: "'a decoder \<Rightarrow> json option \<Rightarrow> 'a \<Rightarrow> json_error + 'a" where
  "Unmarshal d data z = (case data of None \<Rightarrow> Inl SyntaxError | Some j \<Rightarrow> d j z)"

section \<open>Encoding\<close>

text \<open>Instants outside the years 0 to 9999 have no RFC 3339 form, and encoding one fails.\<close>

definition time_marshalable :: "time \<Rightarrow> bool" where
  "time_marshalable t \<longleftrightarrow> - (31622400 * Second) \<le> t \<and> t < 315537897600 * Second"

definition enc_time :: "time \<Rightarrow> json_error + json" where
  "enc_time t = (if time_marshalable t then Inr (JTime t) else Inl MarshalTimeError)"

fun enc_members :: "(string \<times> (json_error + json)) list \<Rightarrow> json_error + (string \<times> json) list" where
  "enc_members [] = Inr []"
| "enc_members ((k, r) # rs) =
     (case r of Inl e \<Rightarrow> Inl e
      | Inr j \<Rightarrow> (case enc_members rs of Inl e \<Rightarrow> Inl e | Inr kvs \<Rightarrow> Inr ((k, j) # kvs)))"

definition enc_struct :: "(string \<times> (json_error + json)) list \<Rightarrow> json_error + json" where
  "enc_struct rs = (case enc_members rs of Inl e \<Rightarrow> Inl e | Inr kvs \<Rightarrow> Inr (JObj kvs))"

definition enc_map :: "('v \<Rightarrow> json_error + json) \<Rightarrow> 'v gomap \<Rightarrow> json_error + json" where
  "enc_map e m =
     (case m of None \<Rightarrow> Inr JNull
      | Some f \<Rightarrow> enc_struct (map (\<lambda>(k, v). (k, e v)) (sorted_list_of_fmap f)))"

definition omitempty :: "bool \<Rightarrow> string \<Rightarrow> (json_error + json) \<Rightarrow> (string \<times> (json_error + json)) list" where
  "omitempty is_empty k r = (if is_empty then [] else [(k, r)])"

definition map_is_empty :: "'v gomap \<Rightarrow> bool" where
  "map_is_empty m \<longleftrightarrow> (case m of None \<Rightarrow> True | Some f \<Rightarrow> fmdom f = {||})"

section \<open>Round trip of maps\<close>

lemma enc_members_append:
  "enc_members (xs @ ys) =
     (case enc_members xs of Inl e \<Rightarrow> Inl e
      | Inr a \<Rightarrow> (case enc_members ys of Inl e \<Rightarrow> Inl e | Inr b \<Rightarrow> Inr (a @ b)))"
  by (induction xs rule: enc_members.induct) (auto split: sum.splits)

lemma dec_elems_encoded:
  assumes rt: "\<And>v j. e v = Inr j \<Longrightarrow> j \<noteq> JNull \<and> d j z = Inr (norm v)"
    and "enc_members (map (\<lambda>(k, v). (k, e v)) kvs) = Inr js"
  shows "dec_elems d z js m = Inr (m ++\<^sub>f fmap_of_list (rev (map (\<lambda>(k, v). (k, norm v)) kvs)))"
  using assms(2)
proof (induction kvs arbitrary: js m)
  case Nil
  then show ?case by simp
next
  case (Cons kv kvs)
  obtain k v where kv: "kv = (k, v)" by (cases kv)
  from Cons.prems obtain j js' where j: "e v = Inr j" and js: "js = (k, j) # js'"
    and js': "enc_members (map (\<lambda>(k, v). (k, e v)) kvs) = Inr js'"
    by (auto simp: kv split: sum.splits)
  from rt [OF j] have "dec_elems d z js m = dec_elems d z js' (fmupd k (norm v) m)"
    by (simp add: js)
  also have "\<dots> = Inr (fmupd k (norm v) m ++\<^sub>f fmap_of_list (rev (map (\<lambda>(k, v). (k, norm v)) kvs)))"
    by (rule Cons.IH [OF js'])
  moreover have "fmupd k (norm v) m ++\<^sub>f fmap_of_list (rev (map (\<lambda>(k, v). (k, norm v)) kvs))
      = m ++\<^sub>f fmap_of_list (rev (map (\<lambda>(k, v). (k, norm v)) (kv # kvs)))"
    by (rule fmap_ext) (simp add: kv)
  ultimately show ?case by (simp only:)
qed

lemma fmap_of_sorted_list: "fmap_of_list (map (\<lambda>(k, v). (k, f v)) (sorted_list_of_fmap m)) = fmmap f m"
proof (rule fmap_ext)
  fix k
  have "map_of (map (\<lambda>(k, v). (k, f v)) (sorted_list_of_fmap m)) k
      = map_option f (map_of (sorted_list_of_fmap m) k)"
    by (simp add: map_of_map)
  then show "fmlookup (fmap_of_list (map (\<lambda>(k, v). (k, f v)) (sorted_list_of_fmap m))) k
      = fmlookup (fmmap f m) k"
    by (simp add: fmlookup_of_list)
qed

lemma distinct_sorted_list_of_fmap: "distinct (map fst (sorted_list_of_fmap m))"
  by (simp add: sorted_list_of_fmap_def comp_def sorted_list_of_fset.rep_eq)

lemma fmap_of_list_rev: "distinct (map fst kvs) \<Longrightarrow> fmap_of_list (rev kvs) = fmap_of_list kvs"
proof (rule fmap_ext)
  fix k
  assume d: "distinct (map fst kvs)"
  have "map_of (rev kvs) = map_of kvs"
    by (rule iffD2 [OF map_of_inject_set]) (use d in \<open>simp_all add: rev_map [symmetric]\<close>)
  then show "fmlookup (fmap_of_list (rev kvs)) k = fmlookup (fmap_of_list kvs) k"
    by (simp add: fmlookup_of_list)
qed

lemma dec_map_enc_map:
  assumes rt: "\<And>v j. e v = Inr j \<Longrightarrow> j \<noteq> JNull \<and> d j z = Inr (norm v)"
    and enc: "enc_map e m = Inr j"
  shows "dec_map d z j None = Inr (map_option (fmmap norm) m)"
proof (cases m)
  case None
  with enc show ?thesis by (auto simp: enc_map_def)
next
  case (Some f)
  let ?kvs = "sorted_list_of_fmap f"
  from enc Some obtain js where j: "j = JObj js"
    and js: "enc_members (map (\<lambda>(k, v). (k, e v)) ?kvs) = Inr js"
    by (auto simp: enc_map_def enc_struct_def split: sum.splits)
  have "distinct (map fst (map (\<lambda>(k, v). (k, norm v)) ?kvs))"
    using distinct_sorted_list_of_fmap [of f] by (simp add: comp_def case_prod_beta)
  then have "fmap_of_list (rev (map (\<lambda>(k, v). (k, norm v)) ?kvs)) = fmmap norm f"
    by (simp only: fmap_of_list_rev fmap_of_sorted_list)
  moreover have "dec_elems d z js fmempty
      = Inr (fmempty ++\<^sub>f fmap_of_list (rev (map (\<lambda>(k, v). (k, norm v)) ?kvs)))"
    by (rule dec_elems_encoded [where e = e, OF _ js]) (rule rt)
  ultimately show ?thesis by (simp add: j Some)
qed

end
