(* ===== verification/Fsm.thy ===== *)
theory Fsm
  imports Json
begin

text \<open>
  The replicated cluster state machine, src/internal/consensus/fsm.go.

  Nodes and directives are stored as pointers to values that only the state machine
  holds: \<open>Apply\<close> stores freshly decoded values, the getters return copies, and the two
  commands that update in place run under the write lock. The model stores the values.
  \<open>Apply\<close> takes the local clock reading of the replica that applies the entry and the
  order of the loop it may run.
\<close>

section \<open>Data\<close>

abbreviation CmdSetPrimary :: string where "CmdSetPrimary \<equiv> ''SET_PRIMARY''"
abbreviation CmdSetReplica :: string where "CmdSetReplica \<equiv> ''SET_REPLICA''"
abbreviation CmdAddNode :: string where "CmdAddNode \<equiv> ''ADD_NODE''"
abbreviation CmdRemoveNode :: string where "CmdRemoveNode \<equiv> ''REMOVE_NODE''"
abbreviation CmdUpdateNodeHealth :: string where "CmdUpdateNodeHealth \<equiv> ''UPDATE_NODE_HEALTH''"
abbreviation CmdSetClusterConfig :: string where "CmdSetClusterConfig \<equiv> ''SET_CLUSTER_CONFIG''"
abbreviation CmdPublishDirective :: string where "CmdPublishDirective \<equiv> ''PUBLISH_DIRECTIVE''"
abbreviation CmdCompleteDirective :: string where "CmdCompleteDirective \<equiv> ''COMPLETE_DIRECTIVE''"
abbreviation CmdCleanupDirectives :: string where "CmdCleanupDirectives \<equiv> ''CLEANUP_DIRECTIVES''"
abbreviation CmdSetPostgreSQLConfig :: string where "CmdSetPostgreSQLConfig \<equiv> ''SET_POSTGRESQL_CONFIG''"
abbreviation CmdPatchPostgreSQLConfig :: string where "CmdPatchPostgreSQLConfig \<equiv> ''PATCH_POSTGRESQL_CONFIG''"

definition DirectiveMaxAge :: duration where "DirectiveMaxAge = 24 * Hour"

abbreviation DirectiveFence :: string where "DirectiveFence \<equiv> ''FENCE''"
abbreviation DirectivePromote :: string where "DirectivePromote \<equiv> ''PROMOTE''"
abbreviation DirectiveDemote :: string where "DirectiveDemote \<equiv> ''DEMOTE''"
abbreviation DirectiveCheckpoint :: string where "DirectiveCheckpoint \<equiv> ''CHECKPOINT''"
abbreviation DirectiveRewind :: string where "DirectiveRewind \<equiv> ''REWIND''"
abbreviation DirectiveBasebackup :: string where "DirectiveBasebackup \<equiv> ''BASEBACKUP''"

abbreviation DirectiveStatusPending :: string where "DirectiveStatusPending \<equiv> ''pending''"
abbreviation DirectiveStatusCompleted :: string where "DirectiveStatusCompleted \<equiv> ''completed''"
abbreviation DirectiveStatusFailed :: string where "DirectiveStatusFailed \<equiv> ''failed''"

record Directive =
  d_ID :: string
  d_Type :: string
  d_TargetNode :: string
  d_Params :: "string gomap"
  d_Status :: string
  d_CreatedAt :: time
  d_CompletedAt :: time
  d_Error :: string

record FSMCommand =
  cmd_Type :: string
  cmd_Data :: "json option"

record NodeInfo =
  ni_Name :: string
  ni_Host :: string
  ni_Port :: int
  ni_Role :: string
  ni_State :: string
  ni_Lag :: int
  ni_Timeline :: int
  ni_LastSeen :: time

record ClusterConfig =
  cc_SplitBrain :: bool

record PostgreSQLConfig =
  pc_Parameters :: "string gomap"
  pc_Version :: int
  pc_UpdatedAt :: time
  pc_UpdatedBy :: string

record FSMState =
  Nodes :: "NodeInfo gomap"
  PrimaryName :: string
  ClusterConf :: ClusterConfig
  PgConfig :: PostgreSQLConfig
  Directives :: "Directive gomap"

definition zero_NodeInfo :: NodeInfo where
  "zero_NodeInfo = \<lparr>ni_Name = '''', ni_Host = '''', ni_Port = 0, ni_Role = '''', ni_State = '''',
     ni_Lag = 0, ni_Timeline = 0, ni_LastSeen = 0\<rparr>"

definition zero_Directive :: Directive where
  "zero_Directive = \<lparr>d_ID = '''', d_Type = '''', d_TargetNode = '''', d_Params = None,
     d_Status = '''', d_CreatedAt = 0, d_CompletedAt = 0, d_Error = ''''\<rparr>"

definition zero_ClusterConfig :: ClusterConfig where
  "zero_ClusterConfig = \<lparr>cc_SplitBrain = False\<rparr>"

definition zero_PostgreSQLConfig :: PostgreSQLConfig where
  "zero_PostgreSQLConfig = \<lparr>pc_Parameters = None, pc_Version = 0, pc_UpdatedAt = 0, pc_UpdatedBy = ''''\<rparr>"

definition zero_FSMState :: FSMState where
  "zero_FSMState = \<lparr>Nodes = None, PrimaryName = '''', ClusterConf = zero_ClusterConfig,
     PgConfig = zero_PostgreSQLConfig, Directives = None\<rparr>"

definition NewClusterFSM :: FSMState where
  "NewClusterFSM = zero_FSMState\<lparr>Nodes := Some fmempty, Directives := Some fmempty\<rparr>"

section \<open>Wire format: the struct tags\<close>

definition node_fields :: "NodeInfo fields" where
  "node_fields =
    [(''name'', dec_field ni_Name ni_Name_update dec_str),
     (''host'', dec_field ni_Host ni_Host_update dec_str),
     (''port'', dec_field ni_Port ni_Port_update dec_int64),
     (''role'', dec_field ni_Role ni_Role_update dec_str),
     (''state'', dec_field ni_State ni_State_update dec_str),
     (''lag'', dec_field ni_Lag ni_Lag_update dec_int64),
     (''timeline'', dec_field ni_Timeline ni_Timeline_update dec_int64),
     (''last_seen'', dec_field ni_LastSeen ni_LastSeen_update dec_time)]"

definition dec_NodeInfo :: "NodeInfo decoder" where
  "dec_NodeInfo = dec_struct node_fields"

definition enc_NodeInfo :: "NodeInfo \<Rightarrow> json_error + json" where
  "enc_NodeInfo n = enc_struct
    [(''name'', Inr (JStr (ni_Name n))), (''host'', Inr (JStr (ni_Host n))),
     (''port'', Inr (JInt (ni_Port n))), (''role'', Inr (JStr (ni_Role n))),
     (''state'', Inr (JStr (ni_State n))), (''lag'', Inr (JInt (ni_Lag n))),
     (''timeline'', Inr (JInt (ni_Timeline n))), (''last_seen'', enc_time (ni_LastSeen n))]"

definition dec_Params :: "string gomap decoder" where
  "dec_Params = dec_map dec_str ''''"

definition enc_Params :: "string gomap \<Rightarrow> json_error + json" where
  "enc_Params = enc_map (\<lambda>s. Inr (JStr s))"

definition directive_fields :: "Directive fields" where
  "directive_fields =
    [(''id'', dec_field d_ID d_ID_update dec_str),
     (''type'', dec_field d_Type d_Type_update dec_str),
     (''target_node'', dec_field d_TargetNode d_TargetNode_update dec_str),
     (''params'', dec_field d_Params d_Params_update dec_Params),
     (''status'', dec_field d_Status d_Status_update dec_str),
     (''created_at'', dec_field d_CreatedAt d_CreatedAt_update dec_time),
     (''completed_at'', dec_field d_CompletedAt d_CompletedAt_update dec_time),
     (''error'', dec_field d_Error d_Error_update dec_str)]"

definition dec_Directive :: "Directive decoder" where
  "dec_Directive = dec_struct directive_fields"

text \<open>The omitempty option has no effect on completed_at: a struct is never empty.\<close>

definition enc_Directive :: "Directive \<Rightarrow> json_error + json" where
  "enc_Directive d = enc_struct
    ([(''id'', Inr (JStr (d_ID d))), (''type'', Inr (JStr (d_Type d))),
      (''target_node'', Inr (JStr (d_TargetNode d)))]
     @ omitempty (map_is_empty (d_Params d)) ''params'' (enc_Params (d_Params d))
     @ [(''status'', Inr (JStr (d_Status d))), (''created_at'', enc_time (d_CreatedAt d)),
        (''completed_at'', enc_time (d_CompletedAt d))]
     @ omitempty (d_Error d = '''') ''error'' (Inr (JStr (d_Error d))))"

definition dec_ClusterConfig :: "ClusterConfig decoder" where
  "dec_ClusterConfig = dec_struct
    [(''split_brain'', dec_field cc_SplitBrain cc_SplitBrain_update dec_bool)]"

definition enc_ClusterConfig :: "ClusterConfig \<Rightarrow> json_error + json" where
  "enc_ClusterConfig c = enc_struct [(''split_brain'', Inr (JBool (cc_SplitBrain c)))]"

definition pgconfig_fields :: "PostgreSQLConfig fields" where
  "pgconfig_fields =
    [(''parameters'', dec_field pc_Parameters pc_Parameters_update dec_Params),
     (''version'', dec_field pc_Version pc_Version_update dec_int64),
     (''updated_at'', dec_field pc_UpdatedAt pc_UpdatedAt_update dec_time),
     (''updated_by'', dec_field pc_UpdatedBy pc_UpdatedBy_update dec_str)]"

definition dec_PostgreSQLConfig :: "PostgreSQLConfig decoder" where
  "dec_PostgreSQLConfig = dec_struct pgconfig_fields"

definition enc_PostgreSQLConfig :: "PostgreSQLConfig \<Rightarrow> json_error + json" where
  "enc_PostgreSQLConfig c = enc_struct
    ([(''parameters'', enc_Params (pc_Parameters c)), (''version'', Inr (JInt (pc_Version c))),
      (''updated_at'', enc_time (pc_UpdatedAt c))]
     @ omitempty (pc_UpdatedBy c = '''') ''updated_by'' (Inr (JStr (pc_UpdatedBy c))))"

definition fsmstate_fields :: "FSMState fields" where
  "fsmstate_fields =
    [(''nodes'', dec_field Nodes Nodes_update (dec_map (dec_ptr dec_NodeInfo) zero_NodeInfo)),
     (''primary_name'', dec_field PrimaryName PrimaryName_update dec_str),
     (''cluster_config'', dec_field ClusterConf ClusterConf_update dec_ClusterConfig),
     (''postgresql_config'', dec_field PgConfig PgConfig_update dec_PostgreSQLConfig),
     (''directives'', dec_field Directives Directives_update (dec_map (dec_ptr dec_Directive) zero_Directive))]"

definition dec_FSMState :: "FSMState decoder" where
  "dec_FSMState = dec_struct fsmstate_fields"

definition enc_FSMState :: "FSMState \<Rightarrow> json_error + json" where
  "enc_FSMState s = enc_struct
    ([(''nodes'', enc_map enc_NodeInfo (Nodes s)), (''primary_name'', Inr (JStr (PrimaryName s))),
      (''cluster_config'', enc_ClusterConfig (ClusterConf s)),
      (''postgresql_config'', enc_PostgreSQLConfig (PgConfig s))]
     @ omitempty (map_is_empty (Directives s)) ''directives'' (enc_map enc_Directive (Directives s)))"

text \<open>A raw message keeps the bytes of the member, null included.\<close>

definition dec_raw :: "json option decoder" where
  "dec_raw j r = Inr (Some j)"

definition dec_FSMCommand :: "FSMCommand decoder" where
  "dec_FSMCommand = dec_struct
    [(''type'', dec_field cmd_Type cmd_Type_update dec_str),
     (''data'', dec_field cmd_Data cmd_Data_update dec_raw)]"

definition enc_FSMCommand :: "FSMCommand \<Rightarrow> json_error + json" where
  "enc_FSMCommand c = enc_struct
    [(''type'', Inr (JStr (cmd_Type c))),
     (''data'', Inr (case cmd_Data c of None \<Rightarrow> JNull | Some j \<Rightarrow> j))]"

text \<open>The anonymous payload structs of the commands.\<close>

record NamePayload = np_Name :: string
record CompletePayload = cp_ID :: string  cp_Error :: string
record CleanupPayload = cl_MaxAge :: int
record PatchPayload = pp_Parameters :: "string gomap"  pp_UpdatedBy :: string

definition dec_NamePayload :: "NamePayload decoder" where
  "dec_NamePayload = dec_struct [(''name'', dec_field np_Name np_Name_update dec_str)]"

definition dec_CompletePayload :: "CompletePayload decoder" where
  "dec_CompletePayload = dec_struct
    [(''id'', dec_field cp_ID cp_ID_update dec_str), (''error'', dec_field cp_Error cp_Error_update dec_str)]"

definition dec_CleanupPayload :: "CleanupPayload decoder" where
  "dec_CleanupPayload = dec_struct [(''max_age'', dec_field cl_MaxAge cl_MaxAge_update dec_int64)]"

definition dec_PatchPayload :: "PatchPayload decoder" where
  "dec_PatchPayload = dec_struct
    [(''parameters'', dec_field pp_Parameters pp_Parameters_update dec_Params),
     (''updated_by'', dec_field pp_UpdatedBy pp_UpdatedBy_update dec_str)]"

section \<open>Apply\<close>

datatype fsm_error =
    UnmarshalCommand json_error
  | UnmarshalData string json_error
  | UnknownCommand string

text \<open>What \<open>Apply\<close> returns; \<open>RPanic\<close> is a write to a nil map, which ends the process.\<close>

datatype fsm_response = RNil | RInt int | RErr fsm_error | RPanic

type_synonym fsm_result = "fsm_response \<times> FSMState"

definition with_payload :: "string \<Rightarrow> 'a decoder \<Rightarrow> 'a \<Rightarrow> FSMCommand \<Rightarrow> FSMState
    \<Rightarrow> ('a \<Rightarrow> fsm_result) \<Rightarrow> fsm_result" where
  "with_payload name d z cmd s k =
     (case Unmarshal d (cmd_Data cmd) z of Inl e \<Rightarrow> (RErr (UnmarshalData name e), s) | Inr x \<Rightarrow> k x)"

definition store_node :: "NodeInfo \<Rightarrow> FSMState \<Rightarrow> fsm_result" where
  "store_node n s =
     (case Nodes s of None \<Rightarrow> (RPanic, s)
      | Some m \<Rightarrow> (RNil, s\<lparr>Nodes := Some (fmupd (ni_Name n) n m)\<rparr>))"

definition apply_SetPrimary :: "NodeInfo \<Rightarrow> FSMState \<Rightarrow> fsm_result" where
  "apply_SetPrimary n s =
     (case store_node (n\<lparr>ni_Role := ''primary''\<rparr>) s of
        (RNil, s') \<Rightarrow> (RNil, s'\<lparr>PrimaryName := ni_Name n\<rparr>)
      | r \<Rightarrow> r)"

definition apply_SetReplica :: "NodeInfo \<Rightarrow> FSMState \<Rightarrow> fsm_result" where
  "apply_SetReplica n s = store_node (n\<lparr>ni_Role := ''replica''\<rparr>) s"

definition apply_AddNode :: "NodeInfo \<Rightarrow> FSMState \<Rightarrow> fsm_result" where
  "apply_AddNode n s = store_node n s"

definition apply_RemoveNode :: "NamePayload \<Rightarrow> FSMState \<Rightarrow> fsm_result" where
  "apply_RemoveNode p s =
     (let s' = s\<lparr>Nodes := map_option (fmdrop (np_Name p)) (Nodes s)\<rparr>
      in (RNil, if PrimaryName s' = np_Name p then s'\<lparr>PrimaryName := ''''\<rparr> else s'))"

definition apply_UpdateNodeHealth :: "NodeInfo \<Rightarrow> FSMState \<Rightarrow> fsm_result" where
  "apply_UpdateNodeHealth n s =
     (case mget (Nodes s) (ni_Name n) of
        None \<Rightarrow> (RNil, s)
      | Some ex \<Rightarrow> (RNil, s\<lparr>Nodes := map_option (fmupd (ni_Name n)
          (ex\<lparr>ni_State := ni_State n, ni_Lag := ni_Lag n, ni_LastSeen := ni_LastSeen n\<rparr>)) (Nodes s)\<rparr>))"

definition apply_SetClusterConfig :: "ClusterConfig \<Rightarrow> FSMState \<Rightarrow> fsm_result" where
  "apply_SetClusterConfig cc s = (RNil, s\<lparr>ClusterConf := cc\<rparr>)"

definition apply_PublishDirective :: "Directive \<Rightarrow> FSMState \<Rightarrow> fsm_result" where
  "apply_PublishDirective d s =
     (let ds = (case Directives s of None \<Rightarrow> fmempty | Some m \<Rightarrow> m)
      in (RNil, s\<lparr>Directives := Some (fmupd (d_ID d) d ds)\<rparr>))"

definition complete_directive :: "time \<Rightarrow> string \<Rightarrow> Directive \<Rightarrow> Directive" where
  "complete_directive now err d =
     (let d' = d\<lparr>d_CompletedAt := now\<rparr>
      in if err \<noteq> '''' then d'\<lparr>d_Status := DirectiveStatusFailed, d_Error := err\<rparr>
         else d'\<lparr>d_Status := DirectiveStatusCompleted\<rparr>)"

definition apply_CompleteDirective :: "time \<Rightarrow> CompletePayload \<Rightarrow> FSMState \<Rightarrow> fsm_result" where
  "apply_CompleteDirective now p s =
     (case mget (Directives s) (cp_ID p) of
        None \<Rightarrow> (RNil, s)
      | Some d \<Rightarrow> (RNil, s\<lparr>Directives := map_option (fmupd (cp_ID p)
          (complete_directive now (cp_Error p) d)) (Directives s)\<rparr>))"

definition is_stale :: "time \<Rightarrow> Directive \<Rightarrow> bool" where
  "is_stale cutoff d \<longleftrightarrow>
     d_Status d \<noteq> DirectiveStatusPending \<and> \<not> IsZero (d_CompletedAt d) \<and> d_CompletedAt d < cutoff"

fun cleanup_loop :: "time \<Rightarrow> string list \<Rightarrow> Directive gomap \<Rightarrow> int \<Rightarrow> Directive gomap \<times> int" where
  "cleanup_loop cutoff [] ds cleaned = (ds, cleaned)"
| "cleanup_loop cutoff (k # ks) ds cleaned =
     (case mget ds k of
        None \<Rightarrow> cleanup_loop cutoff ks ds cleaned
      | Some d \<Rightarrow> if is_stale cutoff d
                  then cleanup_loop cutoff ks (map_option (fmdrop k) ds) (cleaned + 1)
                  else cleanup_loop cutoff ks ds cleaned)"

definition apply_CleanupDirectives :: "time \<Rightarrow> string ranger \<Rightarrow> CleanupPayload \<Rightarrow> FSMState \<Rightarrow> fsm_result" where
  "apply_CleanupDirectives now r p s =
     (let max_age = (if cl_MaxAge p = 0 then DirectiveMaxAge else cl_MaxAge p);
          cutoff = now + wrap64 (- max_age);
          (ds, cleaned) = cleanup_loop cutoff (range_keys r (Directives s)) (Directives s) 0
      in (RInt cleaned, s\<lparr>Directives := ds\<rparr>))"

definition apply_SetPostgreSQLConfig :: "PostgreSQLConfig \<Rightarrow> FSMState \<Rightarrow> fsm_result" where
  "apply_SetPostgreSQLConfig c s = (RNil, s\<lparr>PgConfig := c\<rparr>)"

fun patch_loop :: "(string, string) fmap \<Rightarrow> string list \<Rightarrow> (string, string) fmap \<Rightarrow> (string, string) fmap" where
  "patch_loop patch [] m = m"
| "patch_loop patch (k # ks) m =
     (case fmlookup patch k of
        None \<Rightarrow> patch_loop patch ks m
      | Some v \<Rightarrow> patch_loop patch ks (if v = '''' then fmdrop k m else fmupd k v m))"

definition apply_PatchPostgreSQLConfig :: "time \<Rightarrow> string ranger \<Rightarrow> PatchPayload \<Rightarrow> FSMState \<Rightarrow> fsm_result" where
  "apply_PatchPostgreSQLConfig now r p s =
     (let c = PgConfig s;
          m = (case pc_Parameters c of None \<Rightarrow> fmempty | Some m \<Rightarrow> m);
          patch = (case pp_Parameters p of None \<Rightarrow> fmempty | Some q \<Rightarrow> q);
          m' = patch_loop patch (range_keys r (pp_Parameters p)) m
      in (RNil, s\<lparr>PgConfig := c\<lparr>pc_Parameters := Some m', pc_Version := wrap64 (pc_Version c + 1),
            pc_UpdatedAt := now, pc_UpdatedBy := pp_UpdatedBy p\<rparr>\<rparr>))"

definition apply_command :: "time \<Rightarrow> string ranger \<Rightarrow> FSMCommand \<Rightarrow> FSMState \<Rightarrow> fsm_result" where
  "apply_command now r cmd s =
     (let t = cmd_Type cmd in
      if t = CmdSetPrimary then
        with_payload t dec_NodeInfo zero_NodeInfo cmd s (\<lambda>n. apply_SetPrimary n s)
      else if t = CmdSetReplica then
        with_payload t dec_NodeInfo zero_NodeInfo cmd s (\<lambda>n. apply_SetReplica n s)
      else if t = CmdAddNode then
        with_payload t dec_NodeInfo zero_NodeInfo cmd s (\<lambda>n. apply_AddNode n s)
      else if t = CmdRemoveNode then
        with_payload t dec_NamePayload \<lparr>np_Name = ''''\<rparr> cmd s (\<lambda>p. apply_RemoveNode p s)
      else if t = CmdUpdateNodeHealth then
        with_payload t dec_NodeInfo zero_NodeInfo cmd s (\<lambda>n. apply_UpdateNodeHealth n s)
      else if t = CmdSetClusterConfig then
        with_payload t dec_ClusterConfig zero_ClusterConfig cmd s (\<lambda>c. apply_SetClusterConfig c s)
      else if t = CmdPublishDirective then
        with_payload t dec_Directive zero_Directive cmd s (\<lambda>d. apply_PublishDirective d s)
      else if t = CmdCompleteDirective then
        with_payload t dec_CompletePayload \<lparr>cp_ID = '''', cp_Error = ''''\<rparr> cmd s
          (\<lambda>p. apply_CompleteDirective now p s)
      else if t = CmdCleanupDirectives then
        with_payload t dec_CleanupPayload \<lparr>cl_MaxAge = 0\<rparr> cmd s (\<lambda>p. apply_CleanupDirectives now r p s)
      else if t = CmdSetPostgreSQLConfig then
        with_payload t dec_PostgreSQLConfig zero_PostgreSQLConfig cmd s
          (\<lambda>c. apply_SetPostgreSQLConfig c s)
      else if t = CmdPatchPostgreSQLConfig then
        with_payload t dec_PatchPayload \<lparr>pp_Parameters = None, pp_UpdatedBy = ''''\<rparr> cmd s
          (\<lambda>p. apply_PatchPostgreSQLConfig now r p s)
      else (RErr (UnknownCommand t), s))"

definition Apply :: "time \<Rightarrow> string ranger \<Rightarrow> json option \<Rightarrow> FSMState \<Rightarrow> fsm_result" where
  "Apply now r log_Data s =
     (case Unmarshal dec_FSMCommand log_Data \<lparr>cmd_Type = '''', cmd_Data = None\<rparr> of
        Inl e \<Rightarrow> (RErr (UnmarshalCommand e), s)
      | Inr cmd \<Rightarrow> apply_command now r cmd s)"

section \<open>Snapshots\<close>

definition Snapshot :: "FSMState \<Rightarrow> json_error + json" where
  "Snapshot s = enc_FSMState s"

text \<open>
  Writing a snapshot to its sink: a failed write cancels the sink and returns the error,
  a complete one returns what closing the sink returns. The sink is Raft's.
\<close>

datatype sink_end = SinkCancelled | SinkClosed

definition Persist :: "(json \<Rightarrow> 'e option) \<Rightarrow> 'e option \<Rightarrow> json \<Rightarrow> sink_end \<times> 'e option" where
  "Persist sink_write sink_close data =
     (case sink_write data of Some e \<Rightarrow> (SinkCancelled, Some e) | None \<Rightarrow> (SinkClosed, sink_close))"

definition Restore :: "json option \<Rightarrow> FSMState \<Rightarrow> json_error option \<times> FSMState" where
  "Restore rc s =
     (case Unmarshal dec_FSMState rc zero_FSMState of
        Inl e \<Rightarrow> (Some e, s)
      | Inr st \<Rightarrow>
          (let st1 = (if Nodes st = None then st\<lparr>Nodes := Some fmempty\<rparr> else st);
               st2 = (if Directives st1 = None then st1\<lparr>Directives := Some fmempty\<rparr> else st1)
           in (None, st2)))"

section \<open>Reads\<close>

definition GetPrimary :: "FSMState \<Rightarrow> NodeInfo option" where
  "GetPrimary s = (if PrimaryName s = '''' then None else mget (Nodes s) (PrimaryName s))"

definition GetReplicas :: "string ranger \<Rightarrow> FSMState \<Rightarrow> NodeInfo list" where
  "GetReplicas r s = filter (\<lambda>n. ni_Role n = ''replica'') (range_vals r (Nodes s))"

definition IsSplitBrain :: "FSMState \<Rightarrow> bool" where
  "IsSplitBrain s = cc_SplitBrain (ClusterConf s)"

definition GetAllNodes :: "FSMState \<Rightarrow> (string, NodeInfo) fmap" where
  "GetAllNodes s = (case Nodes s of None \<Rightarrow> fmempty | Some m \<Rightarrow> m)"

definition GetDirectivesForNode :: "string ranger \<Rightarrow> string \<Rightarrow> FSMState \<Rightarrow> Directive list" where
  "GetDirectivesForNode r node s =
     filter (\<lambda>d. d_TargetNode d = node \<and> d_Status d = DirectiveStatusPending) (range_vals r (Directives s))"

definition GetDirective :: "string \<Rightarrow> FSMState \<Rightarrow> Directive option" where
  "GetDirective i s = mget (Directives s) i"

definition GetAllDirectives :: "FSMState \<Rightarrow> (string, Directive) fmap" where
  "GetAllDirectives s = (case Directives s of None \<Rightarrow> fmempty | Some m \<Rightarrow> m)"

definition GetStaleDirectiveIDs :: "time \<Rightarrow> string ranger \<Rightarrow> duration \<Rightarrow> FSMState \<Rightarrow> string list" where
  "GetStaleDirectiveIDs now r max_age s =
     (let cutoff = now + wrap64 (- max_age)
      in filter (\<lambda>i. case mget (Directives s) i of None \<Rightarrow> False | Some d \<Rightarrow> is_stale cutoff d)
           (range_keys r (Directives s)))"

definition DirectiveCount :: "FSMState \<Rightarrow> nat" where
  "DirectiveCount s = maplen (GetAllDirectives s)"

definition GetPostgreSQLConfig :: "FSMState \<Rightarrow> PostgreSQLConfig" where
  "GetPostgreSQLConfig s =
     (let c = PgConfig s
      in c\<lparr>pc_Parameters := Some (case pc_Parameters c of None \<Rightarrow> fmempty | Some m \<Rightarrow> m)\<rparr>)"

definition GetPostgreSQLConfigVersion :: "FSMState \<Rightarrow> int" where
  "GetPostgreSQLConfigVersion s = pc_Version (PgConfig s)"

end
