(* ===== verification/FsmWire.thy ===== *)
theory FsmWire
  imports Fsm
begin

text \<open>
  The wire format of the state machine: decoding what was encoded gives the value back,
  for every struct that crosses the Raft log or a snapshot, up to the one thing the
  format does not carry (an empty parameter map of a directive comes back as nil).
  Integers must be in the range of their Go type.
\<close>

section \<open>Member names\<close>

definition tags :: "string list" where
  "tags = [''name'', ''host'', ''port'', ''role'', ''state'', ''lag'', ''timeline'', ''last_seen'',
     ''id'', ''type'', ''target_node'', ''params'', ''status'', ''created_at'', ''completed_at'',
     ''error'', ''split_brain'', ''parameters'', ''version'', ''updated_at'', ''updated_by'',
     ''nodes'', ''primary_name'', ''cluster_config'', ''postgresql_config'', ''directives'', ''data'',
     ''max_age'']"

lemma key_matches_tags: "list_all (\<lambda>a. list_all (\<lambda>b. key_matches a b = (a = b)) tags) tags"
  by code_simp

definition is_tag :: "string \<Rightarrow> bool" where "is_tag a \<longleftrightarrow> a \<in> set tags"

lemma key_matches_tag [simp]: "is_tag a \<Longrightarrow> is_tag b \<Longrightarrow> key_matches a b \<longleftrightarrow> a = b"
  using key_matches_tags by (auto simp: list_all_iff is_tag_def)

lemma is_tag_simps [simp]:
  "is_tag ''name''" "is_tag ''host''" "is_tag ''port''" "is_tag ''role''" "is_tag ''state''"
  "is_tag ''lag''" "is_tag ''timeline''" "is_tag ''last_seen''" "is_tag ''id''" "is_tag ''type''"
  "is_tag ''target_node''" "is_tag ''params''" "is_tag ''status''" "is_tag ''created_at''"
  "is_tag ''completed_at''" "is_tag ''error''" "is_tag ''split_brain''" "is_tag ''parameters''"
  "is_tag ''version''" "is_tag ''updated_at''" "is_tag ''updated_by''" "is_tag ''nodes''"
  "is_tag ''primary_name''" "is_tag ''cluster_config''" "is_tag ''postgresql_config''"
  "is_tag ''directives''" "is_tag ''data''" "is_tag ''max_age''"
  by (simp_all add: is_tag_def tags_def)

lemmas wire_simps = dec_field_def enc_struct_def enc_time_def omitempty_def

section \<open>Encoding of maps\<close>

lemma set_sorted_list_of_fmap: "(k, v) \<in> set (sorted_list_of_fmap f) \<longleftrightarrow> fmlookup f k = Some v"
  by (metis distinct_sorted_list_of_fmap map_of_eq_Some_iff map_of_sorted_list)

lemma enc_map_ok:
  "(\<exists>j. enc_map e m = Inr j) \<longleftrightarrow> (\<forall>k v. mget m k = Some v \<longrightarrow> (\<exists>j. e v = Inr j))"
proof (cases m)
  case None
  then show ?thesis by (simp add: enc_map_def)
next
  case (Some f)
  have members: "(\<exists>js. enc_members (map (\<lambda>(k, v). (k, e v)) kvs) = Inr js)
      \<longleftrightarrow> (\<forall>(k, v) \<in> set kvs. \<exists>j. e v = Inr j)" for kvs
  proof (induction kvs)
    case Nil
    then show ?case by simp
  next
    case (Cons kv kvs)
    then show ?case by (cases kv; cases "e (snd kv)") (auto split: sum.splits)
  qed
  have "(\<exists>j. enc_map e m = Inr j)
      \<longleftrightarrow> (\<exists>js. enc_members (map (\<lambda>(k, v). (k, e v)) (sorted_list_of_fmap f)) = Inr js)"
    by (auto simp: Some enc_map_def enc_struct_def split: sum.splits)
  also have "\<dots> \<longleftrightarrow> (\<forall>k v. (k, v) \<in> set (sorted_list_of_fmap f) \<longrightarrow> (\<exists>j. e v = Inr j))"
    unfolding members by auto
  also have "\<dots> \<longleftrightarrow> (\<forall>k v. mget m k = Some v \<longrightarrow> (\<exists>j. e v = Inr j))"
    by (simp add: Some set_sorted_list_of_fmap)
  finally show ?thesis .
qed

section \<open>Ranges of the integer fields\<close>

definition node_typed :: "NodeInfo \<Rightarrow> bool" where
  "node_typed n \<longleftrightarrow> in_int64 (ni_Port n) \<and> in_int64 (ni_Lag n) \<and> in_int64 (ni_Timeline n)"

definition node_times :: "NodeInfo \<Rightarrow> bool" where
  "node_times n \<longleftrightarrow> time_marshalable (ni_LastSeen n)"

definition directive_times :: "Directive \<Rightarrow> bool" where
  "directive_times d \<longleftrightarrow> time_marshalable (d_CreatedAt d) \<and> time_marshalable (d_CompletedAt d)"

section \<open>Round trips of the structs\<close>

lemma enc_NodeInfo_ok: "(\<exists>j. enc_NodeInfo n = Inr j) \<longleftrightarrow> node_times n"
  by (simp add: enc_NodeInfo_def wire_simps node_times_def)

lemma dec_enc_NodeInfo:
  assumes "enc_NodeInfo n = Inr j" and "node_typed n"
  shows "j \<noteq> JNull \<and> dec_NodeInfo j z = Inr n"
proof -
  from assms(1) have "j = JObj [(''name'', JStr (ni_Name n)), (''host'', JStr (ni_Host n)),
      (''port'', JInt (ni_Port n)), (''role'', JStr (ni_Role n)), (''state'', JStr (ni_State n)),
      (''lag'', JInt (ni_Lag n)), (''timeline'', JInt (ni_Timeline n)),
      (''last_seen'', JTime (ni_LastSeen n))]"
    by (auto simp: enc_NodeInfo_def wire_simps split: if_splits)
  with assms(2) show ?thesis
    by (simp add: dec_NodeInfo_def node_fields_def dec_field_def node_typed_def)
qed

lemma enc_Params_ok: "\<exists>j. enc_Params m = Inr j"
  by (simp add: enc_Params_def enc_map_ok)

lemma dec_enc_Params: "enc_Params m = Inr j \<Longrightarrow> dec_Params j None = Inr m"
  using dec_map_enc_map [where e = "\<lambda>s. Inr (JStr s)" and d = dec_str and norm = id and z = "''''"
      and m = m and j = j]
  by (simp add: enc_Params_def dec_Params_def option.map_id0 fmap.map_id0)

definition norm_params :: "string gomap \<Rightarrow> string gomap" where
  "norm_params m = (if map_is_empty m then None else m)"

definition norm_directive :: "Directive \<Rightarrow> Directive" where
  "norm_directive d = d\<lparr>d_Params := norm_params (d_Params d)\<rparr>"

lemma enc_Directive_ok: "(\<exists>j. enc_Directive d = Inr j) \<longleftrightarrow> directive_times d"
  using enc_Params_ok [of "d_Params d"]
  by (auto simp: enc_Directive_def wire_simps directive_times_def enc_members_append
      split: sum.splits if_splits)

lemma dec_enc_Directive:
  assumes "enc_Directive d = Inr j"
  shows "j \<noteq> JNull \<and> dec_Directive j zero_Directive = Inr (norm_directive d)"
proof -
  obtain pj where pj: "enc_Params (d_Params d) = Inr pj" using enc_Params_ok by blast
  note dp = dec_enc_Params [OF pj]
  from assms pj have "j = JObj ([(''id'', JStr (d_ID d)), (''type'', JStr (d_Type d)),
      (''target_node'', JStr (d_TargetNode d))]
      @ (if map_is_empty (d_Params d) then [] else [(''params'', pj)])
      @ [(''status'', JStr (d_Status d)), (''created_at'', JTime (d_CreatedAt d)),
         (''completed_at'', JTime (d_CompletedAt d))]
      @ (if d_Error d = '''' then [] else [(''error'', JStr (d_Error d))]))"
    by (auto simp: enc_Directive_def wire_simps split: if_splits)
  with dp show ?thesis
    by (auto simp: dec_Directive_def directive_fields_def dec_field_def norm_directive_def
        norm_params_def zero_Directive_def split: if_splits)
qed

lemma dec_enc_ClusterConfig:
  "enc_ClusterConfig c = Inr j \<Longrightarrow> dec_ClusterConfig j z = Inr c"
  by (auto simp: enc_ClusterConfig_def dec_ClusterConfig_def wire_simps)

lemma dec_enc_PostgreSQLConfig:
  assumes "enc_PostgreSQLConfig c = Inr j" and "in_int64 (pc_Version c)"
  shows "dec_PostgreSQLConfig j zero_PostgreSQLConfig = Inr c"
proof -
  obtain pj where pj: "enc_Params (pc_Parameters c) = Inr pj" using enc_Params_ok by blast
  note dp = dec_enc_Params [OF pj]
  from assms pj have "j = JObj ([(''parameters'', pj), (''version'', JInt (pc_Version c)),
      (''updated_at'', JTime (pc_UpdatedAt c))]
      @ (if pc_UpdatedBy c = '''' then [] else [(''updated_by'', JStr (pc_UpdatedBy c))]))"
    by (auto simp: enc_PostgreSQLConfig_def wire_simps split: if_splits)
  with dp assms(2) show ?thesis
    by (auto simp: dec_PostgreSQLConfig_def pgconfig_fields_def dec_field_def
        zero_PostgreSQLConfig_def split: if_splits)
qed

lemma dec_enc_FSMCommand:
  "enc_FSMCommand c = Inr j \<Longrightarrow> cmd_Data c \<noteq> None \<Longrightarrow> dec_FSMCommand j z = Inr c"
  by (auto simp: enc_FSMCommand_def dec_FSMCommand_def wire_simps dec_raw_def)

lemma enc_FSMCommand_ok: "\<exists>j. enc_FSMCommand c = Inr j"
  by (simp add: enc_FSMCommand_def wire_simps)

end
