(* ===== verification/FsmProps.thy ===== *)
theory FsmProps
  imports FsmWire
begin

text \<open>
  Correctness of the cluster state machine: its invariant and the absence of panics over
  every log, snapshots, the effect of each command, and where replicas may differ.
\<close>

section \<open>Running a log\<close>

text \<open>
  One replica's run of the log: every entry comes with the clock reading and the loop
  order of that replica at that moment.
\<close>

type_synonym fsm_entry = "time \<times> string ranger \<times> json option"

definition apply_entry :: "fsm_entry \<Rightarrow> FSMState \<Rightarrow> fsm_result" where
  "apply_entry e s = (case e of (now, r, log) \<Rightarrow> Apply now r log s)"

fun apply_log :: "fsm_entry list \<Rightarrow> FSMState \<Rightarrow> FSMState" where
  "apply_log [] s = s"
| "apply_log (e # es) s = apply_log es (snd (apply_entry e s))"

text \<open>The contract of a machine that replays a log: what every entry keeps holds after any log.\<close>

locale log_machine =
  fixes step :: "'e \<Rightarrow> 's \<Rightarrow> 'r \<times> 's"
    and run :: "'e list \<Rightarrow> 's \<Rightarrow> 's"
    and start :: 's
    and inv :: "'s \<Rightarrow> bool"
    and crashed :: "'r \<Rightarrow> bool"
  assumes run_Nil: "run [] s = s"
    and run_Cons: "run (e # es) s = run es (snd (step e s))"
    and inv_start: "inv start"
    and inv_step: "inv s \<Longrightarrow> inv (snd (step e s))"
    and no_crash: "inv s \<Longrightarrow> \<not> crashed (fst (step e s))"
begin

lemma inv_run: "inv s \<Longrightarrow> inv (run es s)"
  by (induction es arbitrary: s) (simp_all add: run_Nil run_Cons inv_step)

lemma run_append: "run (es @ fs) s = run fs (run es s)"
  by (induction es arbitrary: s) (simp_all add: run_Nil run_Cons)

lemma safe_run: "inv (run es start) \<and> \<not> crashed (fst (step e (run es start)))"
  by (simp add: inv_run inv_start no_crash)

end

section \<open>The invariant\<close>

definition fsm_inv :: "FSMState \<Rightarrow> bool" where
  "fsm_inv s \<longleftrightarrow>
     Nodes s \<noteq> None \<and> Directives s \<noteq> None \<and>
     (\<forall>k n. mget (Nodes s) k = Some n \<longrightarrow> ni_Name n = k \<and> node_typed n) \<and>
     (\<forall>k d. mget (Directives s) k = Some d \<longrightarrow> d_ID d = k) \<and>
     (PrimaryName s \<noteq> '''' \<longrightarrow> mget (Nodes s) (PrimaryName s) \<noteq> None) \<and>
     in_int64 (pc_Version (PgConfig s))"

lemma fsm_invE:
  assumes "fsm_inv s"
  obtains m ds where "Nodes s = Some m" "Directives s = Some ds"
    "\<And>k n. fmlookup m k = Some n \<Longrightarrow> ni_Name n = k \<and> node_typed n"
    "\<And>k d. fmlookup ds k = Some d \<Longrightarrow> d_ID d = k"
    "PrimaryName s \<noteq> '''' \<Longrightarrow> fmlookup m (PrimaryName s) \<noteq> None"
    "in_int64 (pc_Version (PgConfig s))"
  using assms by (auto simp: fsm_inv_def)

lemma fsm_inv_NewClusterFSM: "fsm_inv NewClusterFSM"
  by (simp add: fsm_inv_def NewClusterFSM_def zero_FSMState_def zero_PostgreSQLConfig_def in_int64_def)

subsection \<open>Decoded integers are in range\<close>

lemma dec_members_preserves:
  assumes "\<And>f j s s'. f \<in> set fs \<Longrightarrow> P s \<Longrightarrow> snd f j s = Inr s' \<Longrightarrow> P s'"
  shows "P s \<Longrightarrow> dec_members fs kvs s = Inr s' \<Longrightarrow> P s'"
proof (induction kvs arbitrary: s)
  case Nil
  then show ?case by simp
next
  case (Cons kv kvs)
  obtain k v where kv: "kv = (k, v)" by (cases kv)
  show ?case
  proof (cases "find (\<lambda>f. key_matches k (fst f)) fs")
    case None
    with Cons kv show ?thesis by simp
  next
    case (Some f)
    then have "f \<in> set fs" by (auto simp: find_Some_iff)
    from Some Cons.prems(2) kv obtain s1 where s1: "snd f v s = Inr s1"
      and rest: "dec_members fs kvs s1 = Inr s'" by (auto split: sum.splits)
    from assms [OF \<open>f \<in> set fs\<close> Cons.prems(1) s1] rest show ?thesis by (rule Cons.IH)
  qed
qed

lemma dec_struct_preserves:
  assumes "\<And>f j s s'. f \<in> set fs \<Longrightarrow> P s \<Longrightarrow> snd f j s = Inr s' \<Longrightarrow> P s'"
    and "P s" and "dec_struct fs j s = Inr s'"
  shows "P s'"
proof (cases j)
  case (JObj kvs)
  with assms(3) have "dec_members fs kvs s = Inr s'" by simp
  with assms(2) show ?thesis by (rule dec_members_preserves [where P = P, rotated]) (rule assms(1))
qed (use assms(2,3) in auto)

lemma dec_int64_range: "dec_int64 j i = Inr k \<Longrightarrow> in_int64 i \<Longrightarrow> in_int64 k"
  by (cases j) (auto split: if_splits)

lemma node_typed_zero: "node_typed zero_NodeInfo"
  by (simp add: node_typed_def zero_NodeInfo_def in_int64_def)

lemma dec_NodeInfo_typed: "dec_NodeInfo j z = Inr n \<Longrightarrow> node_typed z \<Longrightarrow> node_typed n"
  unfolding dec_NodeInfo_def
  by (erule dec_struct_preserves [where P = node_typed, rotated 2])
    (auto simp: node_fields_def dec_field_def node_typed_def split: sum.splits,
      (erule dec_int64_range, assumption)+)

lemma dec_PostgreSQLConfig_typed:
  "dec_PostgreSQLConfig j z = Inr c \<Longrightarrow> in_int64 (pc_Version z) \<Longrightarrow> in_int64 (pc_Version c)"
  unfolding dec_PostgreSQLConfig_def
  by (erule dec_struct_preserves [where P = "\<lambda>c. in_int64 (pc_Version c)", rotated 2])
    (auto simp: pgconfig_fields_def dec_field_def split: sum.splits,
      erule dec_int64_range, assumption)

subsection \<open>Every command keeps the invariant\<close>

definition keeps :: "fsm_result \<Rightarrow> bool" where
  "keeps res \<longleftrightarrow> fsm_inv (snd res) \<and> fst res \<noteq> RPanic"

lemma store_node_keeps: "fsm_inv s \<Longrightarrow> node_typed n \<Longrightarrow> keeps (store_node n s)"
  by (elim fsm_invE) (auto simp: store_node_def keeps_def fsm_inv_def)

lemma apply_SetPrimary_keeps: "fsm_inv s \<Longrightarrow> node_typed n \<Longrightarrow> keeps (apply_SetPrimary n s)"
  by (elim fsm_invE)
    (auto simp: apply_SetPrimary_def store_node_def keeps_def fsm_inv_def node_typed_def)

lemma apply_SetReplica_keeps: "fsm_inv s \<Longrightarrow> node_typed n \<Longrightarrow> keeps (apply_SetReplica n s)"
  unfolding apply_SetReplica_def by (rule store_node_keeps) (simp_all add: node_typed_def)

lemma apply_AddNode_keeps: "fsm_inv s \<Longrightarrow> node_typed n \<Longrightarrow> keeps (apply_AddNode n s)"
  unfolding apply_AddNode_def by (rule store_node_keeps)

lemma apply_RemoveNode_keeps: "fsm_inv s \<Longrightarrow> keeps (apply_RemoveNode p s)"
  by (elim fsm_invE) (auto simp: apply_RemoveNode_def keeps_def fsm_inv_def Let_def split: if_splits)

lemma apply_UpdateNodeHealth_keeps:
  "fsm_inv s \<Longrightarrow> node_typed n \<Longrightarrow> keeps (apply_UpdateNodeHealth n s)"
  by (elim fsm_invE)
    (auto simp: apply_UpdateNodeHealth_def keeps_def fsm_inv_def node_typed_def split: option.splits)

lemma apply_SetClusterConfig_keeps: "fsm_inv s \<Longrightarrow> keeps (apply_SetClusterConfig c s)"
  by (simp add: apply_SetClusterConfig_def keeps_def fsm_inv_def)

lemma apply_PublishDirective_keeps: "fsm_inv s \<Longrightarrow> keeps (apply_PublishDirective d s)"
  by (elim fsm_invE) (auto simp: apply_PublishDirective_def keeps_def fsm_inv_def)

lemma complete_directive_ID [simp]: "d_ID (complete_directive now err d) = d_ID d"
  by (simp add: complete_directive_def Let_def)

lemma apply_CompleteDirective_keeps: "fsm_inv s \<Longrightarrow> keeps (apply_CompleteDirective now p s)"
  by (elim fsm_invE) (auto simp: apply_CompleteDirective_def keeps_def fsm_inv_def split: option.splits)

lemma cleanup_loop_Some:
  "\<exists>ds'. fst (cleanup_loop c ks (Some ds) n) = Some ds' \<and>
     (\<forall>k d. fmlookup ds' k = Some d \<longrightarrow> fmlookup ds k = Some d)"
proof (induction ks arbitrary: ds n)
  case Nil
  then show ?case by simp
next
  case (Cons k ks)
  show ?case
  proof (cases "fmlookup ds k")
    case None
    with Cons show ?thesis by simp
  next
    case (Some d)
    with Cons [of ds n] Cons [of "fmdrop k ds" "n + 1"] show ?thesis
      by (auto split: if_splits) (metis option.distinct(1))
  qed
qed

lemma apply_CleanupDirectives_keeps:
  assumes "fsm_inv s"
  shows "keeps (apply_CleanupDirectives now r p s)"
proof -
  obtain ds where ds: "Directives s = Some ds" using assms by (elim fsm_invE)
  let ?c = "now + wrap64 (- (if cl_MaxAge p = 0 then DirectiveMaxAge else cl_MaxAge p))"
  obtain ds' n where "cleanup_loop ?c (range_keys r (Some ds)) (Some ds) 0 = (Some ds', n)"
    and "\<And>k d. fmlookup ds' k = Some d \<Longrightarrow> fmlookup ds k = Some d"
    using cleanup_loop_Some by (metis prod.collapse)
  with assms ds show ?thesis
    by (auto simp: apply_CleanupDirectives_def keeps_def fsm_inv_def Let_def)
qed

lemma apply_SetPostgreSQLConfig_keeps:
  "fsm_inv s \<Longrightarrow> in_int64 (pc_Version c) \<Longrightarrow> keeps (apply_SetPostgreSQLConfig c s)"
  by (simp add: apply_SetPostgreSQLConfig_def keeps_def fsm_inv_def)

lemma apply_PatchPostgreSQLConfig_keeps: "fsm_inv s \<Longrightarrow> keeps (apply_PatchPostgreSQLConfig now r p s)"
  by (simp add: apply_PatchPostgreSQLConfig_def keeps_def fsm_inv_def Let_def wrap64_range)

lemmas command_keeps = apply_SetPrimary_keeps apply_SetReplica_keeps apply_AddNode_keeps
  apply_RemoveNode_keeps apply_UpdateNodeHealth_keeps apply_SetClusterConfig_keeps
  apply_PublishDirective_keeps apply_CompleteDirective_keeps apply_CleanupDirectives_keeps
  apply_SetPostgreSQLConfig_keeps apply_PatchPostgreSQLConfig_keeps

lemma with_payload_keeps:
  assumes "fsm_inv s" and "\<And>x j. d j z = Inr x \<Longrightarrow> keeps (k x)"
  shows "keeps (with_payload t d z cmd s k)"
  using assms by (auto simp: with_payload_def keeps_def Unmarshal_def split: sum.splits option.splits)

lemma keeps_error: "fsm_inv s \<Longrightarrow> keeps (RErr e, s)"
  by (simp add: keeps_def)

lemma keeps_choice: "keeps x \<Longrightarrow> keeps y \<Longrightarrow> keeps (if b then x else y)"
  by simp

lemma decoded_node_typed: "dec_NodeInfo j zero_NodeInfo = Inr n \<Longrightarrow> node_typed n"
  using node_typed_zero by (rule dec_NodeInfo_typed [rotated])

lemma decoded_version: "dec_PostgreSQLConfig j zero_PostgreSQLConfig = Inr c \<Longrightarrow> in_int64 (pc_Version c)"
  by (erule dec_PostgreSQLConfig_typed) (simp add: zero_PostgreSQLConfig_def in_int64_def)

lemma apply_command_keeps: "fsm_inv s \<Longrightarrow> keeps (apply_command now r cmd s)"
  unfolding apply_command_def Let_def
  by (intro keeps_choice with_payload_keeps keeps_error command_keeps)
    (assumption | erule decoded_node_typed | erule decoded_version)+

lemma Apply_keeps: "fsm_inv s \<Longrightarrow> keeps (Apply now r log s)"
  by (cases "Unmarshal dec_FSMCommand log \<lparr>cmd_Type = '''', cmd_Data = None\<rparr>")
    (simp_all add: Apply_def apply_command_keeps keeps_error)

lemma apply_entry_keeps: "fsm_inv s \<Longrightarrow> keeps (apply_entry e s)"
  by (cases e) (simp add: apply_entry_def Apply_keeps)

interpretation fsm: log_machine apply_entry apply_log NewClusterFSM fsm_inv "\<lambda>r. r = RPanic"
  by unfold_locales (use apply_entry_keeps in \<open>auto simp: fsm_inv_NewClusterFSM keeps_def\<close>)

text \<open>
  (C1) Whatever commands the log holds, malformed ones included, and whatever the clock
  and the loop orders are: from the empty state the state machine never writes to a nil
  map, every node and directive is stored under its own name, integer fields stay in
  range, and the recorded primary is always a stored node.
\<close>

theorem fsm_log_safe:
  "fsm_inv (apply_log es NewClusterFSM) \<and>
   fst (Apply now r log (apply_log es NewClusterFSM)) \<noteq> RPanic"
  using fsm.safe_run [of es "(now, r, log)"] by (simp add: apply_entry_def)

section \<open>Snapshots\<close>

definition norm_state :: "FSMState \<Rightarrow> FSMState" where
  "norm_state s = s\<lparr>Directives := map_option (fmmap norm_directive) (Directives s)\<rparr>"

definition state_times :: "FSMState \<Rightarrow> bool" where
  "state_times s \<longleftrightarrow>
     (\<forall>k n. mget (Nodes s) k = Some n \<longrightarrow> node_times n) \<and>
     (\<forall>k d. mget (Directives s) k = Some d \<longrightarrow> directive_times d) \<and>
     time_marshalable (pc_UpdatedAt (PgConfig s))"

lemma enc_PostgreSQLConfig_ok:
  "(\<exists>j. enc_PostgreSQLConfig c = Inr j) \<longleftrightarrow> time_marshalable (pc_UpdatedAt c)"
  using enc_Params_ok [of "pc_Parameters c"] by (auto simp: enc_PostgreSQLConfig_def wire_simps)

lemma map_is_empty_iff: "map_is_empty m \<longleftrightarrow> (\<forall>k. mget m k = None)"
proof (cases m)
  case (Some f)
  have "fmdom f = {||} \<longleftrightarrow> (\<forall>k. k |\<notin>| fmdom f)" by blast
  with Some show ?thesis by (simp add: map_is_empty_def fmlookup_dom_iff)
qed (simp add: map_is_empty_def)

lemma Snapshot_ok: "(\<exists>j. Snapshot s = Inr j) \<longleftrightarrow> state_times s"
proof -
  let ?e = "\<lambda>r. \<exists>j. r = Inr j"
  have "?e (Snapshot s) \<longleftrightarrow> ?e (enc_map enc_NodeInfo (Nodes s)) \<and> ?e (enc_PostgreSQLConfig (PgConfig s))
      \<and> (map_is_empty (Directives s) \<or> ?e (enc_map enc_Directive (Directives s)))"
    by (cases "enc_map enc_NodeInfo (Nodes s)"; cases "enc_PostgreSQLConfig (PgConfig s)";
        cases "enc_map enc_Directive (Directives s)")
      (simp_all add: Snapshot_def enc_FSMState_def wire_simps enc_ClusterConfig_def)
  also have "\<dots> \<longleftrightarrow> state_times s"
    by (auto simp: state_times_def enc_map_ok enc_NodeInfo_ok enc_Directive_ok
        enc_PostgreSQLConfig_ok map_is_empty_iff)
  finally show ?thesis .
qed

lemma dec_enc_nodes:
  assumes "enc_map enc_NodeInfo m = Inr j" and typed: "\<And>k n. mget m k = Some n \<Longrightarrow> node_typed n"
  shows "dec_map (dec_ptr dec_NodeInfo) zero_NodeInfo j None = Inr m"
proof (cases m)
  case None
  with assms(1) show ?thesis by (auto simp: enc_map_def)
next
  case (Some f)
  let ?e = "\<lambda>n. if node_typed n then enc_NodeInfo n else Inl SyntaxError"
  have rt: "j \<noteq> JNull \<and> dec_ptr dec_NodeInfo j zero_NodeInfo = Inr (id n)" if "?e n = Inr j" for n j
    using that dec_enc_NodeInfo by (simp split: if_splits)
  have "map (\<lambda>(k, v). (k, enc_NodeInfo v)) (sorted_list_of_fmap f)
      = map (\<lambda>(k, v). (k, ?e v)) (sorted_list_of_fmap f)"
    using typed by (auto simp: Some set_sorted_list_of_fmap)
  with assms(1) have "enc_map ?e m = Inr j"
    by (simp add: enc_map_def Some)
  then have "dec_map (dec_ptr dec_NodeInfo) zero_NodeInfo j None = Inr (map_option (fmmap id) m)"
    by (rule dec_map_enc_map [where e = ?e, rotated]) (rule rt)
  then show ?thesis by (simp add: fmap.map_id0 option.map_id0)
qed

lemma dec_enc_directives:
  "enc_map enc_Directive m = Inr j \<Longrightarrow>
     dec_map (dec_ptr dec_Directive) zero_Directive j None = Inr (map_option (fmmap norm_directive) m)"
  by (rule dec_map_enc_map [where e = enc_Directive, rotated]) (simp_all add: dec_enc_Directive)

lemma fmmap_empty: "fmdom f = {||} \<Longrightarrow> fmmap g f = fmempty"
  by (metis fmap_ext fmdom_map fmdom_notD fempty_iff fmempty_lookup)

text \<open>
  (C7) A snapshot can be taken exactly when every instant in the state has an RFC 3339
  form, and restoring it into any state gives the state back, except that a directive's
  empty parameter map comes back as nil.
\<close>

theorem snapshot_restore:
  assumes "fsm_inv s"
  shows "((\<exists>j. Snapshot s = Inr j) \<longleftrightarrow> state_times s) \<and>
    (\<forall>j s0. Snapshot s = Inr j \<longrightarrow> Restore (Some j) s0 = (None, norm_state s))"
proof (intro conjI allI impI)
  fix j s0
  assume snap: "Snapshot s = Inr j"
  obtain m ds where m: "Nodes s = Some m" and ds: "Directives s = Some ds"
    and typed: "\<And>k n. fmlookup m k = Some n \<Longrightarrow> ni_Name n = k \<and> node_typed n"
    and ver: "in_int64 (pc_Version (PgConfig s))"
    using assms by (auto simp: fsm_inv_def)
  from snap obtain nj cj pj where nj: "enc_map enc_NodeInfo (Nodes s) = Inr nj"
    and cj: "enc_ClusterConfig (ClusterConf s) = Inr cj"
    and pj: "enc_PostgreSQLConfig (PgConfig s) = Inr pj"
    by (auto simp: Snapshot_def enc_FSMState_def enc_struct_def split: sum.splits)
  have dn: "dec_map (dec_ptr dec_NodeInfo) zero_NodeInfo nj None = Inr (Some m)"
    using dec_enc_nodes [OF nj] typed m by simp
  note dc = dec_enc_ClusterConfig [OF cj] and dp = dec_enc_PostgreSQLConfig [OF pj ver]
  show "Restore (Some j) s0 = (None, norm_state s)"
  proof (cases "map_is_empty (Directives s)")
    case True
    with snap nj cj pj have "j = JObj [(''nodes'', nj), (''primary_name'', JStr (PrimaryName s)),
        (''cluster_config'', cj), (''postgresql_config'', pj)]"
      by (auto simp: Snapshot_def enc_FSMState_def wire_simps)
    with True dn dc dp ds m show ?thesis
      by (auto simp: Restore_def Unmarshal_def dec_FSMState_def fsmstate_fields_def dec_field_def
          zero_FSMState_def norm_state_def map_is_empty_def fmmap_empty)
  next
    case False
    with snap nj cj pj obtain dj where dj: "enc_map enc_Directive (Directives s) = Inr dj"
      and "j = JObj [(''nodes'', nj), (''primary_name'', JStr (PrimaryName s)),
        (''cluster_config'', cj), (''postgresql_config'', pj), (''directives'', dj)]"
      by (auto simp: Snapshot_def enc_FSMState_def wire_simps split: sum.splits)
    with dec_enc_directives [OF dj] dn dc dp ds m show ?thesis
      by (auto simp: Restore_def Unmarshal_def dec_FSMState_def fsmstate_fields_def dec_field_def
          zero_FSMState_def norm_state_def)
  qed
qed (rule Snapshot_ok)

section \<open>Effect of the commands that loop\<close>

lemma cleanup_loop_exact:
  assumes "distinct ks"
  shows "fst (cleanup_loop c ks (Some ds) n)
      = Some (fmfilter (\<lambda>k. \<not> (k \<in> set ks \<and> (\<exists>d. fmlookup ds k = Some d \<and> is_stale c d))) ds)
    \<and> snd (cleanup_loop c ks (Some ds) n)
      = n + int (length (filter (\<lambda>k. \<exists>d. fmlookup ds k = Some d \<and> is_stale c d) ks))"
  using assms
proof (induction ks arbitrary: ds n)
  case Nil
  then show ?case by simp
next
  case (Cons k ks)
  show ?case
  proof (cases "\<exists>d. fmlookup ds k = Some d \<and> is_stale c d")
    case False
    then have "cleanup_loop c (k # ks) (Some ds) n = cleanup_loop c ks (Some ds) n"
      by (auto split: option.split)
    with False Cons show ?thesis by (auto intro!: fmfilter_cong)
  next
    case True
    then obtain d where d: "fmlookup ds k = Some d" "is_stale c d" by blast
    have IH: "fst (cleanup_loop c ks (Some (fmdrop k ds)) (n + 1))
        = Some (fmfilter (\<lambda>k'. \<not> (k' \<in> set ks \<and> (\<exists>d. fmlookup (fmdrop k ds) k' = Some d \<and> is_stale c d))) (fmdrop k ds))"
      "snd (cleanup_loop c ks (Some (fmdrop k ds)) (n + 1))
        = n + 1 + int (length (filter (\<lambda>k'. \<exists>d. fmlookup (fmdrop k ds) k' = Some d \<and> is_stale c d) ks))"
      using Cons by auto
    have "filter (\<lambda>k'. \<exists>d. fmlookup (fmdrop k ds) k' = Some d \<and> is_stale c d) ks
        = filter (\<lambda>k'. \<exists>d. fmlookup ds k' = Some d \<and> is_stale c d) ks"
      using Cons.prems by (auto intro: filter_cong)
    with IH d show ?thesis
      by (auto intro!: fmap_ext)
  qed
qed

lemma cleanup_effect:
  assumes "fsm_inv s" and r: "is_ranger r"
  shows "let age = (if cl_MaxAge p = 0 then DirectiveMaxAge else cl_MaxAge p);
             s' = snd (apply_CleanupDirectives now r p s)
    in fst (apply_CleanupDirectives now r p s) = RInt (int (length (GetStaleDirectiveIDs now r age s))) \<and>
       (\<forall>i. GetDirective i s' =
          (case GetDirective i s of None \<Rightarrow> None
           | Some d \<Rightarrow> if is_stale (now + wrap64 (- age)) d then None else Some d)) \<and>
       s' = s\<lparr>Directives := Directives s'\<rparr>"
proof -
  obtain ds where ds: "Directives s = Some ds" using assms(1) by (auto simp: fsm_inv_def)
  define age where "age = (if cl_MaxAge p = 0 then DirectiveMaxAge else cl_MaxAge p)"
  define c where "c = now + wrap64 (- age)"
  have keys: "set (r (fmdom ds)) = fset (fmdom ds)" by (rule ranger_set [OF r])
  have "filter (\<lambda>k. \<exists>d. fmlookup ds k = Some d \<and> is_stale c d) (r (fmdom ds))
      = GetStaleDirectiveIDs now r age s"
    by (auto simp: GetStaleDirectiveIDs_def ds range_keys_def Let_def c_def intro!: filter_cong
        split: option.splits)
  with cleanup_loop_exact [OF ranger_distinct [OF r], of c "fmdom ds" ds 0] show ?thesis
    by (auto simp: apply_CleanupDirectives_def ds range_keys_def Let_def GetDirective_def keys
        fmlookup_dom_iff split: prod.splits option.splits simp flip: age_def c_def)
qed

text \<open>
  Cleaning up removes exactly the directives that are finished and were finished
  before the cut-off, whatever the order of the loop, keeps all others unchanged
  (pending ones in particular), and reports the number of removed directives, which is
  the number GetStaleDirectiveIDs announces.
\<close>

theorem cleanup_exact:
  assumes "fsm_inv s" and r: "is_ranger r"
  shows "let age = (if cl_MaxAge p = 0 then DirectiveMaxAge else cl_MaxAge p);
             s' = snd (apply_CleanupDirectives now r p s)
    in fst (apply_CleanupDirectives now r p s) = RInt (int (length (GetStaleDirectiveIDs now r age s))) \<and>
       (\<forall>i. GetDirective i s' =
          (case GetDirective i s of None \<Rightarrow> None
           | Some d \<Rightarrow> if is_stale (now + wrap64 (- age)) d then None else Some d)) \<and>
       s' = s\<lparr>Directives := Directives s'\<rparr>"
  by (rule cleanup_effect [OF assms])

lemma patch_loop_lookup:
  "distinct ks \<Longrightarrow> fmlookup (patch_loop patch ks m) k =
     (if k \<in> set ks
      then case fmlookup patch k of None \<Rightarrow> fmlookup m k
           | Some v \<Rightarrow> if v = '''' then None else Some v
      else fmlookup m k)"
  by (induction ks arbitrary: m) (auto split: option.splits)

lemma patch_effect:
  assumes "is_ranger r"
  shows "let s' = snd (apply_PatchPostgreSQLConfig now r p s)
    in (\<forall>k. mget (pc_Parameters (PgConfig s')) k =
          (case mget (pp_Parameters p) k of
             None \<Rightarrow> mget (pc_Parameters (PgConfig s)) k
           | Some v \<Rightarrow> if v = '''' then None else Some v)) \<and>
       pc_Version (PgConfig s') = wrap64 (pc_Version (PgConfig s) + 1) \<and>
       pc_UpdatedBy (PgConfig s') = pp_UpdatedBy p \<and>
       s' = s\<lparr>PgConfig := PgConfig s'\<rparr>"
proof -
  note lk = patch_loop_lookup [OF range_keys_distinct [OF assms]] and ks = range_keys_set [OF assms]
  have ks0: "range_keys r None = []" by (simp add: range_keys_def)
  show ?thesis
    by (cases "pp_Parameters p"; cases "pc_Parameters (PgConfig s)")
      (auto simp: apply_PatchPostgreSQLConfig_def Let_def lk ks ks0 split: option.splits)
qed

text \<open>
  Patching the PostgreSQL parameters merges the patch into them whatever the order
  of the loop: a parameter with an empty value is deleted, any other is set, the rest
  keep their values; the version goes up by one (64-bit wrap-around apart).
\<close>

theorem patch_exact:
  assumes "is_ranger r"
  shows "let s' = snd (apply_PatchPostgreSQLConfig now r p s)
    in (\<forall>k. mget (pc_Parameters (PgConfig s')) k =
          (case mget (pp_Parameters p) k of
             None \<Rightarrow> mget (pc_Parameters (PgConfig s)) k
           | Some v \<Rightarrow> if v = '''' then None else Some v)) \<and>
       pc_Version (PgConfig s') = wrap64 (pc_Version (PgConfig s) + 1) \<and>
       pc_UpdatedBy (PgConfig s') = pp_UpdatedBy p \<and>
       s' = s\<lparr>PgConfig := PgConfig s'\<rparr>"
  using assms by (rule patch_effect)

section \<open>Lifecycle of directives\<close>

lemma complete_directive_finished: "d_Status (complete_directive now err d) \<noteq> DirectiveStatusPending"
  by (simp add: complete_directive_def Let_def)

definition pending_after :: "string \<Rightarrow> fsm_result \<Rightarrow> bool" where
  "pending_after i res \<longleftrightarrow> (\<exists>d. GetDirective i (snd res) = Some d \<and> d_Status d = DirectiveStatusPending)"

lemma with_payload_not_pending:
  assumes "\<And>x. \<not> pending_after i (k x)" and "\<not> pending_after i (RNil, s)"
  shows "\<not> pending_after i (with_payload t d z cmd s k)"
  using assms by (auto simp: with_payload_def pending_after_def split: sum.split)

lemma apply_CleanupDirectives_pending:
  "pending_after i (apply_CleanupDirectives now r p s) \<Longrightarrow> pending_after i (RNil, s)"
proof (cases "Directives s")
  case None
  have "cleanup_loop c ks None n = (None, n)" for c ks n by (induction ks) auto
  with None show "pending_after i (apply_CleanupDirectives now r p s) \<Longrightarrow> ?thesis"
    by (simp add: apply_CleanupDirectives_def pending_after_def Let_def GetDirective_def)
next
  case (Some ds)
  let ?c = "now + wrap64 (- (if cl_MaxAge p = 0 then DirectiveMaxAge else cl_MaxAge p))"
  obtain ds' n where "cleanup_loop ?c (range_keys r (Some ds)) (Some ds) 0 = (Some ds', n)"
    and "\<And>k d. fmlookup ds' k = Some d \<Longrightarrow> fmlookup ds k = Some d"
    using cleanup_loop_Some by (metis prod.collapse)
  then show "pending_after i (apply_CleanupDirectives now r p s) \<Longrightarrow> ?thesis"
    by (auto simp: apply_CleanupDirectives_def pending_after_def Let_def GetDirective_def Some)
qed

lemma store_node_Directives: "Directives (snd (store_node n s)) = Directives s"
  by (simp add: store_node_def split: option.split)

lemma apply_Directives [simp]:
  shows "Directives (snd (apply_SetReplica n s)) = Directives s"
    and "Directives (snd (apply_AddNode n s)) = Directives s"
    and "Directives (snd (apply_RemoveNode q s)) = Directives s"
    and "Directives (snd (apply_UpdateNodeHealth n s)) = Directives s"
    and "Directives (snd (apply_SetClusterConfig cc s)) = Directives s"
    and "Directives (snd (apply_SetPostgreSQLConfig pc s)) = Directives s"
    and "Directives (snd (apply_PatchPostgreSQLConfig now r pp s)) = Directives s"
  by (simp_all add: apply_SetReplica_def apply_AddNode_def store_node_Directives
      apply_RemoveNode_def Let_def apply_UpdateNodeHealth_def apply_SetClusterConfig_def
      apply_SetPostgreSQLConfig_def apply_PatchPostgreSQLConfig_def split: option.split)

lemma apply_SetPrimary_Directives [simp]: "Directives (snd (apply_SetPrimary n s)) = Directives s"
  by (simp add: apply_SetPrimary_def store_node_def split: option.split)

lemma pending_unchanged:
  "\<not> pending_after i (RNil, s) \<Longrightarrow> Directives (snd res) = Directives s \<Longrightarrow> \<not> pending_after i res"
  by (simp add: pending_after_def GetDirective_def)

lemma apply_CompleteDirective_pending:
  "pending_after i (apply_CompleteDirective now p s) \<Longrightarrow> pending_after i (RNil, s) \<and> i \<noteq> cp_ID p"
  using complete_directive_finished
  by (cases "Directives s")
    (auto simp: apply_CompleteDirective_def pending_after_def GetDirective_def split: option.splits if_splits)

text \<open>
  (C11) A finished, failed or removed directive never becomes pending again by any
  command other than publishing a directive under the same id that is itself pending.
\<close>

theorem directive_not_reopened:
  assumes "\<not> (\<exists>d. GetDirective i s = Some d \<and> d_Status d = DirectiveStatusPending)"
    and "GetDirective i (snd (apply_command now r cmd s)) = Some d"
    and "d_Status d = DirectiveStatusPending"
  shows "cmd_Type cmd = CmdPublishDirective \<and>
    (\<exists>j. cmd_Data cmd = Some j \<and> dec_Directive j zero_Directive = Inr d \<and> d_ID d = i)"
proof -
  from assms(1) have no: "\<not> pending_after i (RNil, s)" by (simp add: pending_after_def)
  from assms(2,3) have yes: "pending_after i (apply_command now r cmd s)"
    by (auto simp: pending_after_def)
  have np: "\<not> pending_after i (apply_SetPrimary n s)" "\<not> pending_after i (apply_SetReplica n s)"
    "\<not> pending_after i (apply_AddNode n s)" "\<not> pending_after i (apply_RemoveNode q s)"
    "\<not> pending_after i (apply_UpdateNodeHealth n s)" "\<not> pending_after i (apply_SetClusterConfig cc s)"
    "\<not> pending_after i (apply_SetPostgreSQLConfig pc s)" "\<not> pending_after i (apply_PatchPostgreSQLConfig now r pp s)"
    "\<not> pending_after i (RErr e, s)" for n q cc pc pp e
    by (rule pending_unchanged [OF no], simp)+
  have np': "\<not> pending_after i (apply_CompleteDirective now cp s)"
    "\<not> pending_after i (apply_CleanupDirectives now r cl s)" for cp cl
    using no apply_CompleteDirective_pending apply_CleanupDirectives_pending by blast+
  have "cmd_Type cmd = CmdPublishDirective"
  proof (rule ccontr)
    assume "cmd_Type cmd \<noteq> CmdPublishDirective"
    with np np' no have "\<not> pending_after i (apply_command now r cmd s)"
      unfolding apply_command_def Let_def by (simp add: with_payload_not_pending)
    with yes show False by contradiction
  qed
  then obtain x j where xj: "cmd_Data cmd = Some j" "dec_Directive j zero_Directive = Inr x"
    and res: "apply_command now r cmd s = apply_PublishDirective x s"
    using yes np(9) by (auto simp: apply_command_def with_payload_def Unmarshal_def split: option.splits sum.splits)
  moreover from assms(1-3) res have "x = d \<and> d_ID d = i"
    by (cases "Directives s") (auto simp: apply_PublishDirective_def GetDirective_def split: if_splits)
  ultimately show ?thesis using \<open>cmd_Type cmd = CmdPublishDirective\<close> by blast
qed

section \<open>Agreement of replicas\<close>

text \<open>
  Replicas agree on every command that does not read the clock: the result does not
  depend on the replica's clock or loop orders.
\<close>

theorem apply_clock_free:
  assumes "cmd_Type cmd \<notin> {CmdCompleteDirective, CmdCleanupDirectives, CmdPatchPostgreSQLConfig}"
  shows "apply_command now r cmd s = apply_command now' r' cmd s"
  using assms by (simp add: apply_command_def Let_def)

definition ex_directive :: json where
  "ex_directive = JObj [(''id'', JStr ''a''), (''type'', JStr ''FENCE''), (''target_node'', JStr ''n1''),
     (''status'', JStr ''pending'')]"

definition ex_cmd :: "string \<Rightarrow> json \<Rightarrow> json option" where
  "ex_cmd t j = Some (JObj [(''type'', JStr t), (''data'', j)])"

definition complete_entry :: "string \<Rightarrow> json option" where
  "complete_entry i = ex_cmd CmdCompleteDirective (JObj [(''id'', JStr i)])"

definition cleanup_entry :: "duration \<Rightarrow> json option" where
  "cleanup_entry age = ex_cmd CmdCleanupDirectives (JObj [(''max_age'', JInt age)])"

lemma complete_entry_applied:
  "Apply t r (complete_entry i) s = apply_CompleteDirective t \<lparr>cp_ID = i, cp_Error = ''''\<rparr> s"
  by (simp add: complete_entry_def ex_cmd_def Apply_def apply_command_def with_payload_def Unmarshal_def dec_CompletePayload_def
      dec_FSMCommand_def dec_raw_def wire_simps Let_def)

lemma cleanup_entry_applied:
  "in_int64 age \<Longrightarrow> Apply t r (cleanup_entry age) s = apply_CleanupDirectives t r \<lparr>cl_MaxAge = age\<rparr> s"
  by (simp add: cleanup_entry_def ex_cmd_def Apply_def apply_command_def with_payload_def Unmarshal_def dec_CleanupPayload_def
      dec_FSMCommand_def dec_raw_def wire_simps Let_def)

text \<open>
  (C17) The completion time of a directive is each replica's own clock reading: a replica that
  applies the completion at time t records t. So replicas that apply the same completion to the
  same state at different times hold different states, and they can disagree for good: when the
  two readings are on both sides of the limit of a later cleanup, applied by both at the same
  time, the cleanup removes the directive on one replica and leaves it on the other.
\<close>

theorem replicas_diverge:
  assumes "fsm_inv s" and "GetDirective i s = Some d" and "is_ranger r" and "0 < age" and "in_int64 age"
    and "t1 \<noteq> 0" and "t1 < now - age" and "now - age \<le> t2"
  shows "(\<forall>t. map_option d_CompletedAt (GetDirective i (apply_log [(t, r, complete_entry i)] s)) = Some t) \<and>
    GetDirective i (apply_log [(t1, r, complete_entry i), (now, r, cleanup_entry age)] s) = None \<and>
    GetDirective i (apply_log [(t2, r, complete_entry i), (now, r, cleanup_entry age)] s) \<noteq> None"
proof -
  define at where "at t = apply_log [(t, r, complete_entry i)] s" for t
  have at: "GetDirective i (at t) = Some (complete_directive t '''' d)" for t
    using assms(1,2) by (auto simp: at_def apply_entry_def complete_entry_applied apply_CompleteDirective_def GetDirective_def
        fsm_inv_def mget_def split: option.splits)
  have inv: "fsm_inv (at t)" for t unfolding at_def by (rule fsm.inv_run [OF assms(1)])
  have split: "apply_log [(t, r, complete_entry i), (now, r, cleanup_entry age)] s
      = snd (apply_CleanupDirectives now r \<lparr>cl_MaxAge = age\<rparr> (at t))" for t
    by (simp add: at_def apply_entry_def cleanup_entry_applied [OF assms(5)])
  have wrap: "wrap64 (- age) = - age" using assms(4,5) by (intro wrap64_id) (simp add: in_int64_def)
  have stale: "is_stale (now - age) (complete_directive t '''' d) \<longleftrightarrow> t \<noteq> 0 \<and> t < now - age" for t
    by (simp add: is_stale_def complete_directive_def IsZero_def Let_def)
  have "GetDirective i (apply_log [(t, r, complete_entry i), (now, r, cleanup_entry age)] s) = None \<longleftrightarrow> t \<noteq> 0 \<and> t < now - age" for t
  proof -
    have "GetDirective i (snd (apply_CleanupDirectives now r \<lparr>cl_MaxAge = age\<rparr> (at t))) =
        (if is_stale (now + wrap64 (- age)) (complete_directive t '''' d) then None else Some (complete_directive t '''' d))"
      using cleanup_effect [OF inv [of t] assms(3), where p = "\<lparr>cl_MaxAge = age\<rparr>" and now = now] assms(4) at [of t]
      by (simp add: Let_def)
    then show ?thesis unfolding split by (simp add: wrap stale)
  qed
  with assms(6-8) at show ?thesis by (auto simp: at_def complete_directive_def Let_def)
qed

section \<open>Concrete states\<close>

definition ex_node :: NodeInfo where
  "ex_node = zero_NodeInfo\<lparr>ni_Name := ''n1'', ni_Role := ''primary''\<rparr>"

definition ex_dir :: "string \<Rightarrow> time \<Rightarrow> Directive" where
  "ex_dir st t = zero_Directive\<lparr>d_ID := ''a'', d_Status := st, d_CompletedAt := t\<rparr>"

definition ex_state :: "string \<Rightarrow> time \<Rightarrow> FSMState" where
  "ex_state st t = NewClusterFSM\<lparr>Nodes := Some (fmupd ''n1'' ex_node fmempty), PrimaryName := ''n1'',
     Directives := Some (fmupd ''a'' (ex_dir st t) fmempty)\<rparr>"

lemma ex_state_inv: "fsm_inv (ex_state st t)"
  by (simp add: fsm_inv_def ex_state_def NewClusterFSM_def zero_FSMState_def zero_PostgreSQLConfig_def
      in_int64_def ex_node_def ex_dir_def zero_NodeInfo_def zero_Directive_def node_typed_def)

theorem snapshot_restore_witness:
  "fsm_inv (ex_state ''pending'' 0) \<and> (\<exists>j. Snapshot (ex_state ''pending'' 0) = Inr j \<and>
     Restore (Some j) zero_FSMState = (None, ex_state ''pending'' 0))"
proof -
  have "state_times (ex_state ''pending'' 0)"
    by (simp add: state_times_def ex_state_def NewClusterFSM_def zero_FSMState_def zero_PostgreSQLConfig_def
        ex_node_def ex_dir_def zero_NodeInfo_def zero_Directive_def node_times_def directive_times_def
        time_marshalable_def)
  moreover have "norm_state (ex_state ''pending'' 0) = ex_state ''pending'' 0"
    by (simp add: norm_state_def ex_state_def ex_dir_def norm_directive_def zero_Directive_def norm_params_def map_is_empty_def fmmap_fmupd)
  ultimately show ?thesis
    using snapshot_restore [OF ex_state_inv, of "''pending''" 0] ex_state_inv by metis
qed

theorem cleanup_exact_witness:
  "fst (apply_CleanupDirectives 100 sorted_list_of_fset \<lparr>cl_MaxAge = 10\<rparr> (ex_state ''failed'' 50)) = RInt 1 \<and>
   GetDirective ''a'' (snd (apply_CleanupDirectives 100 sorted_list_of_fset \<lparr>cl_MaxAge = 10\<rparr>
     (ex_state ''failed'' 50))) = None"
proof -
  have "length (GetStaleDirectiveIDs 100 sorted_list_of_fset 10 (ex_state ''failed'' 50)) = 1" by code_simp
  moreover have "GetDirective ''a'' (ex_state ''failed'' 50) = Some (ex_dir ''failed'' 50)"
    "is_stale (100 + wrap64 (- 10)) (ex_dir ''failed'' 50)" by code_simp+
  ultimately show ?thesis
    using cleanup_exact [OF ex_state_inv ranger_sorted, where p = "\<lparr>cl_MaxAge = 10\<rparr>" and now = 100]
    by (simp add: Let_def)
qed

theorem patch_exact_witness:
  "pc_Version (PgConfig (snd (apply_PatchPostgreSQLConfig 5 sorted_list_of_fset
     \<lparr>pp_Parameters = Some (fmupd ''x'' ''1'' fmempty), pp_UpdatedBy = ''u''\<rparr> NewClusterFSM))) = 1 \<and>
   mget (pc_Parameters (PgConfig (snd (apply_PatchPostgreSQLConfig 5 sorted_list_of_fset
     \<lparr>pp_Parameters = Some (fmupd ''x'' ''1'' fmempty), pp_UpdatedBy = ''u''\<rparr> NewClusterFSM)))) ''x'' = Some ''1''"
  using patch_exact [OF ranger_sorted, of 5 "\<lparr>pp_Parameters = Some (fmupd ''x'' ''1'' fmempty), pp_UpdatedBy = ''u''\<rparr>"
    NewClusterFSM]
  by (simp add: Let_def NewClusterFSM_def zero_FSMState_def zero_PostgreSQLConfig_def wrap64_def)

theorem directive_not_reopened_witness:
  "d_ID ((ex_dir ''pending'' 0)\<lparr>d_Type := ''FENCE'', d_TargetNode := ''n1''\<rparr>) = ''a'' \<and>
   (\<exists>j. dec_Directive j zero_Directive = Inr ((ex_dir ''pending'' 0)\<lparr>d_Type := ''FENCE'', d_TargetNode := ''n1''\<rparr>))"
proof -
  let ?d = "(ex_dir ''pending'' 0)\<lparr>d_Type := ''FENCE'', d_TargetNode := ''n1''\<rparr>"
  let ?cmd = "\<lparr>cmd_Type = CmdPublishDirective, cmd_Data = Some ex_directive\<rparr>"
  have no: "GetDirective ''a'' NewClusterFSM = None" by code_simp
  have yes: "GetDirective ''a'' (snd (apply_command 0 sorted_list_of_fset ?cmd NewClusterFSM)) = Some ?d"
    by code_simp
  have "d_Status ?d = ''pending''" by code_simp
  from directive_not_reopened [OF _ yes this] no show ?thesis by auto
qed

theorem replicas_diverge_witness:
  "GetDirective ''a'' (apply_log [(5, sorted_list_of_fset, complete_entry ''a''), (100, sorted_list_of_fset, cleanup_entry 50)] (ex_state ''pending'' 0)) = None \<and>
   GetDirective ''a'' (apply_log [(60, sorted_list_of_fset, complete_entry ''a''), (100, sorted_list_of_fset, cleanup_entry 50)] (ex_state ''pending'' 0)) \<noteq> None"
proof -
  have d: "GetDirective ''a'' (ex_state ''pending'' 0) = Some (ex_dir ''pending'' 0)" by code_simp
  from replicas_diverge [OF ex_state_inv d ranger_sorted, of 50 5 100 60] show ?thesis by (simp add: in_int64_def)
qed

theorem apply_clock_free_witness:
  "apply_command 0 sorted_list_of_fset \<lparr>cmd_Type = CmdPublishDirective, cmd_Data = Some ex_directive\<rparr> NewClusterFSM
   = apply_command 7 sorted_list_of_fset \<lparr>cmd_Type = CmdPublishDirective, cmd_Data = Some ex_directive\<rparr> NewClusterFSM"
  by (rule apply_clock_free) simp

end
