(* ===== verification/GoStd.thy ===== *)
theory GoStd
  imports Prelude Complex_Main
begin

text \<open>
  What the sources use of Go's standard library beyond maps and JSON: float64 arithmetic
  (round to nearest, ties to even, on rationals), time.ParseDuration and Duration.String, the acceptance of
  net.ParseIP, and filepath.Join on Unix.
  Strings are byte sequences, so the micro sign is its UTF-8 encoding.
\<close>

section \<open>float64\<close>

definition round_even :: "rat \<Rightarrow> int" where
  "round_even x = (let f = \<lfloor>x\<rfloor>; r = x - of_int f
     in if r < 1/2 \<or> (r = 1/2 \<and> even f) then f else f + 1)"

function bit_len :: "int \<Rightarrow> int" where
  "bit_len n = (if n \<le> 0 then 0 else 1 + bit_len (n div 2))"
  by pat_completeness auto
termination by (relation "measure nat") auto

declare bit_len.simps [simp del]

definition ilog2 :: "rat \<Rightarrow> int" where
  "ilog2 x = (case quotient_of x of (n, d) \<Rightarrow>
     let k = bit_len n - bit_len d
     in if (if 0 \<le> k then d * 2 ^ nat k \<le> n else d \<le> n * 2 ^ nat (- k)) then k else k - 1)"

definition pow2 :: "int \<Rightarrow> rat" where
  "pow2 e = (if 0 \<le> e then 2 ^ nat e else 1 / 2 ^ nat (- e))"

definition float64 :: "rat \<Rightarrow> rat" where
  "float64 x = (if x = 0 then 0
     else let e = max (- 1074) (ilog2 \<bar>x\<bar> - 52); m = of_int (round_even (\<bar>x\<bar> / pow2 e)) * pow2 e
          in if x < 0 then - m else m)"

subsection \<open>Rounding error\<close>

lemma bit_len_bounds: "0 < n \<Longrightarrow> 1 \<le> bit_len n \<and> 2 ^ nat (bit_len n - 1) \<le> n \<and> n < 2 ^ nat (bit_len n)"
proof (induction n rule: bit_len.induct)
  case (1 n)
  show ?case
  proof (cases "n = 1")
    case True
    then show ?thesis by (simp add: bit_len.simps)
  next
    case False
    with 1 have ih: "1 \<le> bit_len (n div 2)" "2 ^ nat (bit_len (n div 2) - 1) \<le> n div 2" "n div 2 < 2 ^ nat (bit_len (n div 2))"
      by auto
    have b: "bit_len n = 1 + bit_len (n div 2)" using 1 by (subst bit_len.simps) simp
    have e: "nat (bit_len (n div 2)) = Suc (nat (bit_len (n div 2) - 1))" "nat (1 + bit_len (n div 2)) = Suc (nat (bit_len (n div 2)))"
      using ih(1) by simp_all
    have "2 * (n div 2) \<le> n" "n < 2 * (n div 2) + 2" by linarith+
    moreover have "2 ^ nat (bit_len (n div 2)) = 2 * (2 ^ nat (bit_len (n div 2) - 1) :: int)" by (simp only: e(1) power_Suc)
    ultimately show ?thesis using ih by (simp add: b e(2))
  qed
qed

lemma pow2_diff: "pow2 (int a - int b) = 2 ^ a / 2 ^ b"
proof (cases "b \<le> a")
  case True
  then show ?thesis by (simp add: pow2_def power_diff nat_diff_distrib)
next
  case False
  then have "nat (- (int a - int b)) = b - a" by simp
  then show ?thesis using False by (simp add: pow2_def power_diff)
qed

lemma pow2_pos: "0 < pow2 e"
  by (simp add: pow2_def)

lemma ilog2_le: "0 < x \<Longrightarrow> pow2 (ilog2 x) \<le> x"
proof -
  assume x: "0 < x"
  obtain n d where q: "quotient_of x = (n, d)" by fastforce
  have d: "0 < d" using quotient_of_denom_pos [OF q] .
  have xnd: "x = of_int n / of_int d" using quotient_of_div [OF q] .
  then have n: "0 < n" using x d by (simp add: zero_less_divide_iff)
  define k where "k = bit_len n - bit_len d"
  have bn: "1 \<le> bit_len n" "2 ^ nat (bit_len n - 1) \<le> n" and bd: "1 \<le> bit_len d" "d < 2 ^ nat (bit_len d)"
    using bit_len_bounds [OF n] bit_len_bounds [OF d] by auto
  have k1: "pow2 (k - 1) \<le> x"
  proof -
    have "k - 1 = int (nat (bit_len n - 1)) - int (nat (bit_len d))" using bn bd by (simp add: k_def)
    then have "pow2 (k - 1) = 2 ^ nat (bit_len n - 1) / 2 ^ nat (bit_len d)" by (simp only: pow2_diff)
    moreover have "(2::rat) ^ nat (bit_len n - 1) \<le> of_int n"
      using bn(2) by (metis of_int_le_iff of_int_numeral of_int_power)
    moreover have "of_int d < (2::rat) ^ nat (bit_len d)"
      using bd(2) by (metis of_int_less_iff of_int_numeral of_int_power)
    ultimately show ?thesis using d n unfolding xnd by (simp add: frac_le)
  qed
  show ?thesis
  proof (cases "if 0 \<le> k then d * 2 ^ nat k \<le> n else d \<le> n * 2 ^ nat (- k)")
    case False
    then have "ilog2 x = k - 1" by (simp add: ilog2_def q k_def Let_def split: if_splits)
    with k1 show ?thesis by simp
  next
    case True
    then have "ilog2 x = k" by (simp add: ilog2_def q k_def Let_def split: if_splits)
    moreover have "of_int d * (2::rat) ^ nat k \<le> of_int n" if "0 \<le> k"
      using True that by (metis of_int_le_iff of_int_mult of_int_numeral of_int_power)
    moreover have "of_int d \<le> of_int n * (2::rat) ^ nat (- k)" if "\<not> 0 \<le> k"
      using True that by (metis of_int_le_iff of_int_mult of_int_numeral of_int_power)
    ultimately show ?thesis using d unfolding xnd by (simp add: pow2_def field_simps)
  qed
qed

lemma round_even_error: "\<bar>of_int (round_even y) - y\<bar> \<le> 1 / 2"
proof -
  have "of_int \<lfloor>y\<rfloor> \<le> y" "y < of_int \<lfloor>y\<rfloor> + 1" by linarith+
  then show ?thesis by (auto simp: round_even_def Let_def)
qed

lemma round_even_nonneg: "0 \<le> y \<Longrightarrow> 0 \<le> round_even y"
  by (auto simp: round_even_def Let_def)

definition tiny :: rat where "tiny = 1 / 2 ^ 1075"

lemma tiny_pos: "0 < tiny"
  by (simp add: tiny_def)

text \<open>The rounding of float64: half a unit in the last place, or half the smallest number.\<close>

lemma float64_error: "\<bar>float64 x - x\<bar> \<le> \<bar>x\<bar> / 2 ^ 53 + tiny"
proof (cases "x = 0")
  case False
  define a where "a = \<bar>x\<bar>"
  define e where "e = max (- 1074) (ilog2 a - 52)"
  define m where "m = of_int (round_even (a / pow2 e)) * pow2 e"
  have a: "0 < a" using False by (simp add: a_def)
  have p: "0 < pow2 e" by (rule pow2_pos)
  have fl: "float64 x = (if x < 0 then - m else m)" using False by (simp add: float64_def Let_def m_def e_def a_def)
  have "m - a = (of_int (round_even (a / pow2 e)) - a / pow2 e) * pow2 e" using p by (simp add: m_def field_simps)
  then have "\<bar>m - a\<bar> = \<bar>of_int (round_even (a / pow2 e)) - a / pow2 e\<bar> * pow2 e" using p by (simp add: abs_mult)
  also have "\<dots> \<le> 1 / 2 * pow2 e" using round_even_error p by (intro mult_right_mono) auto
  finally have err: "\<bar>m - a\<bar> \<le> pow2 e / 2" by simp
  have "pow2 e / 2 \<le> a / 2 ^ 53 + tiny"
  proof (cases "e = - 1074")
    case True
    then have "pow2 e / 2 = tiny" by (simp add: pow2_def tiny_def)
    moreover have "0 \<le> a / 2 ^ 53" using a by simp
    ultimately show ?thesis by linarith
  next
    case False
    then have e52: "e = ilog2 a - 52" by (auto simp: e_def max_def split: if_splits)
    have "pow2 (i - 52) = pow2 i / 2 ^ 52" for i
    proof -
      have i: "i = int (nat i) - int (nat (- i))" by simp
      have "i - 52 = int (nat i) - int (nat (- i) + 52)" by simp
      then have "pow2 (i - 52) = 2 ^ nat i / 2 ^ (nat (- i) + 52)" by (metis pow2_diff)
      moreover have "pow2 i = 2 ^ nat i / 2 ^ nat (- i)" using i by (metis pow2_diff)
      ultimately show ?thesis by (simp add: power_add)
    qed
    then have "pow2 e \<le> a / 2 ^ 52" using ilog2_le [OF a] e52 by (simp add: divide_right_mono)
    then have "pow2 e / 2 \<le> a / 2 ^ 53" by simp
    then show ?thesis using tiny_pos by (rule add_increasing2 [rotated, OF _ less_imp_le])
  qed
  with err have "\<bar>m - a\<bar> \<le> a / 2 ^ 53 + tiny" by linarith
  then show ?thesis by (auto simp: fl a_def split: if_splits)
qed (use tiny_pos in \<open>simp add: float64_def\<close>)

lemma float64_nonneg: "0 \<le> x \<Longrightarrow> 0 \<le> float64 x"
proof (cases "x = 0")
  case False
  assume "0 \<le> x"
  have p: "0 \<le> pow2 e" for e using pow2_pos [of e] by simp
  show ?thesis using False \<open>0 \<le> x\<close> by (simp add: float64_def Let_def p round_even_nonneg)
qed (simp add: float64_def)

lemma float64_upper: "0 \<le> x \<Longrightarrow> float64 x \<le> x + x / 1000000000000000 + 1 / 1000000000000000000000000000000"
proof -
  assume x: "0 \<le> x"
  have "\<bar>float64 x - x\<bar> \<le> x / 2 ^ 53 + tiny" using float64_error [of x] x by simp
  moreover have "x / 2 ^ 53 \<le> x / 1000000000000000" using x by (intro divide_left_mono) simp_all
  moreover have "tiny \<le> 1 / 1000000000000000000000000000000" unfolding tiny_def by (intro divide_left_mono) simp_all
  ultimately show ?thesis by linarith
qed

section \<open>time.ParseDuration\<close>

definition is_digit :: "char \<Rightarrow> bool" where
  "is_digit c \<longleftrightarrow> CHR ''0'' \<le> c \<and> c \<le> CHR ''9''"

datatype duration_error = InvalidDuration | MissingUnit | UnknownUnit string

fun leadingInt :: "int \<Rightarrow> string \<Rightarrow> (int \<times> string) option" where
  "leadingInt x [] = Some (x, [])"
| "leadingInt x (c # s) =
     (if is_digit c
      then if x > 2 ^ 63 div 10 then None
           else let x' = x * 10 + digit_val c in if x' > 2 ^ 63 then None else leadingInt x' s
      else Some (x, c # s))"

fun leadingFraction :: "int \<Rightarrow> rat \<Rightarrow> bool \<Rightarrow> string \<Rightarrow> int \<times> rat \<times> string" where
  "leadingFraction x scale overflow [] = (x, scale, [])"
| "leadingFraction x scale overflow (c # s) =
     (if is_digit c
      then if overflow \<or> x > (2 ^ 63 - 1) div 10 then leadingFraction x scale True s
           else let y = x * 10 + digit_val c
                in if y > 2 ^ 63 then leadingFraction x scale True s
                   else leadingFraction y (float64 (scale * 10)) False s
      else (x, scale, c # s))"

definition unitMap :: "string \<Rightarrow> int option" where
  "unitMap u =
     (if u = ''ns'' then Some 1
      else if u = ''us'' \<or> u = [CHR 0xC2, CHR 0xB5, CHR ''s''] \<or> u = [CHR 0xCE, CHR 0xBC, CHR ''s'']
      then Some 1000
      else if u = ''ms'' then Some Millisecond
      else if u = ''s'' then Some Second
      else if u = ''m'' then Some Minute
      else if u = ''h'' then Some Hour
      else None)"

definition in_number :: "char \<Rightarrow> bool" where
  "in_number c \<longleftrightarrow> c = CHR ''.'' \<or> is_digit c"

text \<open>One round of the loop: a number with its unit, added to the sum.\<close>

definition parse_unit :: "int \<Rightarrow> string \<Rightarrow> duration_error + int \<times> string" where
  "parse_unit d s =
     (if s = [] \<or> \<not> in_number (hd s) then Inl InvalidDuration
      else case leadingInt 0 s of
        None \<Rightarrow> Inl InvalidDuration
      | Some (v, s1) \<Rightarrow>
          (let pre = length s1 \<noteq> length s;
               (f, scale, s2) = (if s1 \<noteq> [] \<and> hd s1 = CHR ''.'' then leadingFraction 0 1 False (tl s1)
                                 else (0, 1, s1));
               post = (s1 \<noteq> [] \<and> hd s1 = CHR ''.'' \<and> length s2 \<noteq> length (tl s1))
           in if \<not> pre \<and> \<not> post then Inl InvalidDuration
              else let u = takeWhile (\<lambda>c. \<not> in_number c) s2; s3 = dropWhile (\<lambda>c. \<not> in_number c) s2
                in if u = [] then Inl MissingUnit
                   else case unitMap u of
                     None \<Rightarrow> Inl (UnknownUnit u)
                   | Some unit \<Rightarrow>
                       if v > 2 ^ 63 div unit then Inl InvalidDuration
                       else let v1 = v * unit;
                                v2 = (if f > 0
                                      then v1 + \<lfloor>float64 (float64 (of_int f) * float64 (of_int unit / scale))\<rfloor>
                                      else v1)
                            in if f > 0 \<and> v2 > 2 ^ 63 then Inl InvalidDuration
                               else if d + v2 > 2 ^ 63 then Inl InvalidDuration
                               else Inr (d + v2, s3)))"

lemma leadingInt_length: "leadingInt x s = Some (v, s') \<Longrightarrow> length s' \<le> length s"
  by (induction s arbitrary: x) (auto simp: Let_def split: if_splits dest: le_SucI)

lemma leadingFraction_length: "leadingFraction x sc ov s = (f, sc', s') \<Longrightarrow> length s' \<le> length s"
  by (induction s arbitrary: x sc ov) (auto simp: Let_def split: if_splits dest: le_SucI)

lemma drop_unit_shorter:
  "takeWhile P s \<noteq> [] \<Longrightarrow> length (dropWhile P s) < length s"
  by (cases s) (auto intro: le_imp_less_Suc length_dropWhile_le split: if_splits)

lemma parse_unit_shorter: "parse_unit d s = Inr (d', s') \<Longrightarrow> length s' < length s"
proof -
  assume a: "parse_unit d s = Inr (d', s')"
  then obtain v s1 where 1: "leadingInt 0 s = Some (v, s1)"
    by (auto simp: parse_unit_def split: if_splits option.splits)
  define t where "t = (if s1 \<noteq> [] \<and> hd s1 = CHR ''.'' then leadingFraction 0 1 False (tl s1) else (0, 1, s1))"
  obtain f sc s2 where t: "t = (f, sc, s2)" by (cases t)
  have "length s2 \<le> length s1"
    using t leadingFraction_length [of 0 1 False "tl s1" f sc s2] by (auto simp: t_def split: if_splits)
  moreover have "s' = dropWhile (\<lambda>c. \<not> in_number c) s2 \<and> takeWhile (\<lambda>c. \<not> in_number c) s2 \<noteq> []"
    using a 1 by (simp add: parse_unit_def Let_def t [unfolded t_def] split: if_splits option.splits)
  ultimately show ?thesis using leadingInt_length [OF 1] drop_unit_shorter [of _ s2] by fastforce
qed

function parse_units :: "int \<Rightarrow> string \<Rightarrow> duration_error + int" where
  "parse_units d s =
     (if s = [] then Inr d
      else case parse_unit d s of Inl e \<Rightarrow> Inl e | Inr (d', s') \<Rightarrow> parse_units d' s')"
  by pat_completeness auto
termination by (relation "measure (\<lambda>(d, s). length s)") (auto dest: parse_unit_shorter)

declare parse_units.simps [simp del]

definition ParseDuration :: "string \<Rightarrow> duration_error + duration" where
  "ParseDuration str =
     (let neg = (str \<noteq> [] \<and> hd str = CHR ''-'');
          s = (if str \<noteq> [] \<and> (hd str = CHR ''-'' \<or> hd str = CHR ''+'') then tl str else str)
      in if s = ''0'' then Inr 0
         else if s = '''' then Inl InvalidDuration
         else case parse_units 0 s of
             Inl e \<Rightarrow> Inl e
           | Inr d \<Rightarrow> if neg then Inr (- d)
                      else if d > 2 ^ 63 - 1 then Inl InvalidDuration else Inr d)"

section \<open>Duration.String\<close>

fun digits_rev :: "nat \<Rightarrow> int \<Rightarrow> string" where
  "digits_rev 0 v = []"
| "digits_rev (Suc n) v = digit v # digits_rev n (v div 10)"

definition fmtFrac :: "nat \<Rightarrow> int \<Rightarrow> string" where
  "fmtFrac prec v =
     (let ds = dropWhile (\<lambda>c. c = CHR ''0'') (digits_rev prec v)
      in if ds = [] then [] else CHR ''.'' # rev ds)"

definition Duration_String :: "duration \<Rightarrow> string" where
  "Duration_String d =
     (let u = \<bar>d\<bar>;
          body = (if u < Second then
                    if u = 0 then ''0s''
                    else if u < 1000 then show_abs u @ ''ns''
                    else if u < Millisecond
                    then show_abs (u div 10 ^ 3) @ fmtFrac 3 u @ [CHR 0xC2, CHR 0xB5, CHR ''s'']
                    else show_abs (u div 10 ^ 6) @ fmtFrac 6 u @ ''ms''
                  else let sec = u div 10 ^ 9; mi = sec div 60; h = mi div 60
                    in (if h > 0 then show_abs h @ ''h'' else [])
                       @ (if mi > 0 then show_abs (mi mod 60) @ ''m'' else [])
                       @ show_abs (sec mod 60) @ fmtFrac 9 u @ ''s'')
      in if d < 0 then CHR ''-'' # body else body)"

section \<open>net.ParseIP\<close>

text \<open>
  Whether net.ParseIP returns an address. \<open>parseIPv4Fields\<close> keeps the value and number
  of digits of the current octet and the number of octets before it; the octet ends at a
  dot or at the end, and must not be empty.
\<close>

fun parseIPv4Fields :: "int \<Rightarrow> nat \<Rightarrow> nat \<Rightarrow> string \<Rightarrow> bool" where
  "parseIPv4Fields val digLen pos [] \<longleftrightarrow> pos = 3 \<and> digLen > 0"
| "parseIPv4Fields val digLen pos (c # s) \<longleftrightarrow>
     (if is_digit c
      then \<not> (digLen = 1 \<and> val = 0) \<and> val * 10 + digit_val c \<le> 255
           \<and> parseIPv4Fields (val * 10 + digit_val c) (digLen + 1) pos s
      else c = CHR ''.'' \<and> digLen > 0 \<and> s \<noteq> [] \<and> pos \<noteq> 3 \<and> parseIPv4Fields 0 0 (pos + 1) s)"

definition is_hex :: "char \<Rightarrow> bool" where
  "is_hex c \<longleftrightarrow> is_digit c \<or> (CHR ''a'' \<le> c \<and> c \<le> CHR ''f'') \<or> (CHR ''A'' \<le> c \<and> c \<le> CHR ''F'')"

text \<open>
  The loop of parseIPv6: \<open>n\<close> bounds the groups that still fit (eight at first), \<open>i\<close> is the
  number of bytes read, \<open>ell\<close> whether an ellipsis was seen. The end of the loop checks
  that the text is used up and that an ellipsis stands for at least one group.
\<close>

definition ipv6_end :: "nat \<Rightarrow> bool \<Rightarrow> string \<Rightarrow> bool" where
  "ipv6_end i ell s \<longleftrightarrow> s = [] \<and> (if i < 16 then ell else \<not> ell)"

fun parseIPv6_loop :: "nat \<Rightarrow> nat \<Rightarrow> bool \<Rightarrow> string \<Rightarrow> bool" where
  "parseIPv6_loop 0 i ell s \<longleftrightarrow> ipv6_end i ell s"
| "parseIPv6_loop (Suc n) i ell s \<longleftrightarrow>
     (let h = takeWhile is_hex s; t = dropWhile is_hex s
      in h \<noteq> [] \<and> length h \<le> 4 \<and>
         (if t \<noteq> [] \<and> hd t = CHR ''.''
          then (ell \<or> i = 12) \<and> i + 4 \<le> 16 \<and> parseIPv4Fields 0 0 0 s \<and> ipv6_end (i + 4) ell []
          else if t = [] then ipv6_end (i + 2) ell []
          else hd t = CHR '':'' \<and> tl t \<noteq> [] \<and>
            (if hd (tl t) = CHR '':''
             then \<not> ell \<and> (if tl (tl t) = [] then ipv6_end (i + 2) True []
                           else parseIPv6_loop n (i + 2) True (tl (tl t)))
             else parseIPv6_loop n (i + 2) ell (tl t))))"

definition parseIPv6 :: "string \<Rightarrow> bool" where
  "parseIPv6 s \<longleftrightarrow>
     (if take 2 s = ''::'' then drop 2 s = [] \<or> parseIPv6_loop 8 0 True (drop 2 s)
      else parseIPv6_loop 8 0 False s)"

definition ParseIP_ok :: "string \<Rightarrow> bool" where
  "ParseIP_ok s =
     (case find (\<lambda>c. c = CHR ''.'' \<or> c = CHR '':'' \<or> c = CHR ''%'') s of
        None \<Rightarrow> False
      | Some c \<Rightarrow> if c = CHR ''.'' then parseIPv4Fields 0 0 0 s
                  else if c = CHR '':'' then CHR ''%'' \<notin> set s \<and> parseIPv6 s
                  else False)"

section \<open>filepath\<close>

definition filepath_IsAbs :: "string \<Rightarrow> bool" where
  "filepath_IsAbs p \<longleftrightarrow> p \<noteq> [] \<and> hd p = CHR ''/''"

fun split_on :: "char \<Rightarrow> string \<Rightarrow> string list" where
  "split_on c [] = [[]]"
| "split_on c (x # xs) = (if x = c then [] # split_on c xs
     else case split_on c xs of [] \<Rightarrow> [[x]] | w # ws \<Rightarrow> (x # w) # ws)"

fun join_with :: "string \<Rightarrow> string list \<Rightarrow> string" where
  "join_with sep [] = []"
| "join_with sep [x] = x"
| "join_with sep (x # y # xs) = x @ sep @ join_with sep (y # xs)"

fun clean_step :: "bool \<Rightarrow> string \<Rightarrow> string list \<Rightarrow> string list" where
  "clean_step rooted e out =
     (if e = '''' \<or> e = ''.'' then out
      else if e = ''..'' then
        (if out \<noteq> [] \<and> last out \<noteq> ''..'' then butlast out
         else if rooted then out else out @ [''..''])
      else out @ [e])"

definition filepath_Clean :: "string \<Rightarrow> string" where
  "filepath_Clean path =
     (let rooted = filepath_IsAbs path;
          out = fold (clean_step rooted) (split_on (CHR ''/'') path) [];
          p = (if rooted then ''/'' else []) @ join_with ''/'' out
      in if p = [] then ''.'' else p)"

definition filepath_Join :: "string list \<Rightarrow> string" where
  "filepath_Join elems =
     (let es = dropWhile (\<lambda>e. e = []) elems
      in if es = [] then [] else filepath_Clean (join_with ''/'' es))"

end
