(* ===== verification/World.thy ===== *)
theory World
  imports FsmProps GoStd "HOL-Library.State_Monad"
begin

text \<open>
  The world in which one node's components run.

  Components read the clock, ask Raft, read the local replica of the cluster state, run
  shell commands and wait on channels. Each such interaction is one event; events are
  numbered by \<open>w_k\<close>, and the environment says what the n-th event meets: the clock
  reading, Raft's role, the outcome of a proposal, the result of a command, and the log
  entries (of this or of other nodes) that reached the local replica since the event
  before. So whatever other nodes do between two steps of an operation is covered.

  hashicorp/raft is not part of the repository. What the code relies on is its documented
  contract: a proposal whose future reports no error has been committed and applied to
  the local state machine, whose response the future carries; one that reports an error
  has not been applied yet, and may still reach the replica later as an ordinary entry.
\<close>

section \<open>Environment and world\<close>

datatype RaftState = Follower | Candidate | Leader | Shutdown

text \<open>A member of the Raft configuration.\<close>

record raft_server = rs_ID :: string  rs_Address :: string  rs_Suffrage :: string

record env =
  e_now :: "nat \<Rightarrow> time"
  e_ranger :: "nat \<Rightarrow> string ranger"
  e_arrive :: "nat \<Rightarrow> fsm_entry list"
  e_role :: "nat \<Rightarrow> RaftState"
  e_leader :: "nat \<Rightarrow> string"
  e_stats :: "nat \<Rightarrow> (string, string) fmap"
  e_apply :: "nat \<Rightarrow> string option"
  e_exec :: "nat \<Rightarrow> string list \<Rightarrow> string \<times> string option"
  e_done :: "nat \<Rightarrow> bool"
  e_connect :: "nat \<Rightarrow> string option"
  e_slots :: "nat \<Rightarrow> string + (string \<times> bool) option list"
  e_slot_op :: "nat \<Rightarrow> string \<Rightarrow> string option"
  e_open_rows :: "nat \<Rightarrow> string \<Rightarrow> string option"
  e_servers :: "nat \<Rightarrow> string + raft_server list"
  e_member :: "nat \<Rightarrow> string option"

text \<open>The history of effects: entries this node got committed, commands it ran,
  replication slots it asked PostgreSQL to create or drop, and changes of the Raft membership or
  leadership it asked for, with the error if any.\<close>

datatype event =
    Committed json
  | Ran "string list" "string option"
  | CreatedSlot string "string option"
  | DroppedSlot string "string option"
  | AddedVoter string string "string option"
  | RemovedServer string "string option"
  | TransferredLeadership "string option"

record world =
  w_k :: nat
  w_fsm :: FSMState
  w_trace :: "event list"

type_synonym ('z, 'a) act = "('z world_scheme, 'a) state"

abbreviation return :: "'a \<Rightarrow> ('s, 'a) state" where "return \<equiv> State_Monad.return"
abbreviation get :: "('s, 's) state" where "get \<equiv> State_Monad.get"

definition modify :: "('s \<Rightarrow> 's) \<Rightarrow> ('s, unit) state" where
  "modify f = State (\<lambda>s. ((), f s))"

definition gets :: "('s \<Rightarrow> 'a) \<Rightarrow> ('s, 'a) state" where
  "gets f = State (\<lambda>s. (f s, s))"

lemma run_modify [simp]: "run_state (modify f) s = ((), f s)"
  by (simp add: modify_def)

lemma run_gets [simp]: "run_state (gets f) s = (f s, s)"
  by (simp add: gets_def)

section \<open>Events\<close>

definition arrive :: "env \<Rightarrow> 'z world_scheme \<Rightarrow> 'z world_scheme" where
  "arrive E w = w\<lparr>w_k := Suc (w_k w), w_fsm := apply_log (e_arrive E (w_k w)) (w_fsm w)\<rparr>"

definition event :: "env \<Rightarrow> (nat \<Rightarrow> 'z world_scheme \<Rightarrow> 'a \<times> 'z world_scheme) \<Rightarrow> ('z, 'a) act" where
  "event E f = State (\<lambda>w. f (w_k w) (arrive E w))"

definition time_Now :: "env \<Rightarrow> ('z, time) act" where
  "time_Now E = event E (\<lambda>k w. (e_now E k, w))"

definition raft_State :: "env \<Rightarrow> ('z, RaftState) act" where
  "raft_State E = event E (\<lambda>k w. (e_role E k, w))"

definition raft_LeaderWithID :: "env \<Rightarrow> ('z, string) act" where
  "raft_LeaderWithID E = event E (\<lambda>k w. (e_leader E k, w))"

definition raft_Stats :: "env \<Rightarrow> ('z, (string, string) fmap) act" where
  "raft_Stats E = event E (\<lambda>k w. (e_stats E k, w))"

definition raft_Apply :: "env \<Rightarrow> json \<Rightarrow> ('z, string + fsm_response) act" where
  "raft_Apply E data = event E (\<lambda>k w.
     case e_apply E k of
       Some e \<Rightarrow> (Inl e, w)
     | None \<Rightarrow> (case Apply (e_now E k) (e_ranger E k) (Some data) (w_fsm w) of (resp, s) \<Rightarrow>
                 (Inr resp, w\<lparr>w_fsm := s, w_trace := w_trace w @ [Committed data]\<rparr>)))"

definition read_fsm :: "env \<Rightarrow> (string ranger \<Rightarrow> FSMState \<Rightarrow> 'a) \<Rightarrow> ('z, 'a) act" where
  "read_fsm E f = event E (\<lambda>k w. (f (e_ranger E k) (w_fsm w), w))"

definition executor_Run :: "env \<Rightarrow> string list \<Rightarrow> ('z, string \<times> string option) act" where
  "executor_Run E args = event E (\<lambda>k w.
     let res = e_exec E k args in (res, w\<lparr>w_trace := w_trace w @ [Ran args (snd res)]\<rparr>))"

text \<open>A select between a context and a ticker: true when the context is done.\<close>

definition ctx_Done :: "env \<Rightarrow> ('z, bool) act" where
  "ctx_Done E = event E (\<lambda>k w. (e_done E k, w))"

text \<open>PostgreSQL as the components use it: connecting, listing the physical replication
  slots with their activity (a row is None when it does not scan), creating and dropping one.
  A drop is asked for on a connection that is free, or on one whose last query's rows are still
  open; what the driver answers then is \<open>e_open_rows\<close>. (pgx documents that such a connection is
  busy and refuses every query.)\<close>

definition pg_Connect :: "env \<Rightarrow> ('z, string option) act" where
  "pg_Connect E = event E (\<lambda>k w. (e_connect E k, w))"

definition pg_QuerySlots :: "env \<Rightarrow> ('z, string + (string \<times> bool) option list) act" where
  "pg_QuerySlots E = event E (\<lambda>k w. (e_slots E k, w))"

definition pg_CreateSlot :: "env \<Rightarrow> string \<Rightarrow> ('z, string option) act" where
  "pg_CreateSlot E slot = event E (\<lambda>k w.
     (e_slot_op E k slot, w\<lparr>w_trace := w_trace w @ [CreatedSlot slot (e_slot_op E k slot)]\<rparr>))"

definition pg_DropSlot :: "env \<Rightarrow> bool \<Rightarrow> string \<Rightarrow> ('z, string option) act" where
  "pg_DropSlot E rows_open slot = event E (\<lambda>k w.
     let err = (if rows_open then e_open_rows E k slot else e_slot_op E k slot)
     in (err, w\<lparr>w_trace := w_trace w @ [DroppedSlot slot err]\<rparr>))"

text \<open>Membership of the Raft cluster.\<close>

definition raft_GetConfiguration :: "env \<Rightarrow> ('z, string + raft_server list) act" where
  "raft_GetConfiguration E = event E (\<lambda>k w. (e_servers E k, w))"

definition raft_member :: "env \<Rightarrow> (string option \<Rightarrow> event) \<Rightarrow> ('z, string option) act" where
  "raft_member E what = event E (\<lambda>k w. (e_member E k, w\<lparr>w_trace := w_trace w @ [what (e_member E k)]\<rparr>))"

lemmas event_defs = raft_GetConfiguration_def raft_member_def pg_Connect_def pg_QuerySlots_def pg_CreateSlot_def pg_DropSlot_def time_Now_def raft_State_def raft_LeaderWithID_def raft_Stats_def raft_Apply_def
  read_fsm_def executor_Run_def ctx_Done_def

lemma run_event [simp]: "run_state (event E f) w = f (w_k w) (arrive E w)"
  by (simp add: event_def)

lemma arrive_simps [simp]:
  "w_k (arrive E w) = Suc (w_k w)"
  "w_fsm (arrive E w) = apply_log (e_arrive E (w_k w)) (w_fsm w)"
  "w_trace (arrive E w) = w_trace w"
  "world.more (arrive E w) = world.more w"
  by (simp_all add: arrive_def)

lemma run_raft_GetConfiguration [simp]: "run_state (raft_GetConfiguration E) w = (e_servers E (w_k w), arrive E w)"
  by (simp add: raft_GetConfiguration_def)

lemma run_time_Now [simp]: "run_state (time_Now E) w = (e_now E (w_k w), arrive E w)"
  by (simp add: time_Now_def)

lemma run_raft_State [simp]: "run_state (raft_State E) w = (e_role E (w_k w), arrive E w)"
  by (simp add: raft_State_def)

lemma run_raft_LeaderWithID [simp]: "run_state (raft_LeaderWithID E) w = (e_leader E (w_k w), arrive E w)"
  by (simp add: raft_LeaderWithID_def)

lemma run_raft_Stats [simp]: "run_state (raft_Stats E) w = (e_stats E (w_k w), arrive E w)"
  by (simp add: raft_Stats_def)

lemma run_read_fsm [simp]:
  "run_state (read_fsm E f) w = (f (e_ranger E (w_k w)) (w_fsm (arrive E w)), arrive E w)"
  by (simp add: read_fsm_def)

lemma run_ctx_Done [simp]: "run_state (ctx_Done E) w = (e_done E (w_k w), arrive E w)"
  by (simp add: ctx_Done_def)

lemma run_pg_Connect [simp]: "run_state (pg_Connect E) w = (e_connect E (w_k w), arrive E w)"
  by (simp add: pg_Connect_def)

lemma run_pg_QuerySlots [simp]: "run_state (pg_QuerySlots E) w = (e_slots E (w_k w), arrive E w)"
  by (simp add: pg_QuerySlots_def)

section \<open>Reasoning about actions\<close>

definition triple :: "('s \<Rightarrow> bool) \<Rightarrow> ('s, 'a) state \<Rightarrow> ('a \<Rightarrow> 's \<Rightarrow> bool) \<Rightarrow> bool" where
  "triple P m Q \<longleftrightarrow> (\<forall>s. P s \<longrightarrow> (case run_state m s of (a, s') \<Rightarrow> Q a s'))"

named_theorems triple_intros \<open>syntax-directed rules of the triples\<close>

lemma tripleD: "triple P m Q \<Longrightarrow> P s \<Longrightarrow> run_state m s = (a, s') \<Longrightarrow> Q a s'"
  by (auto simp: triple_def split: prod.splits)

lemma triple_snd: "triple P m Q \<Longrightarrow> P s \<Longrightarrow> Q (fst (run_state m s)) (snd (run_state m s))"
  by (auto simp: triple_def split: prod.splits)

lemma triple_bind [triple_intros]:
  "triple P m R \<Longrightarrow> (\<And>a. triple (R a) (f a) Q) \<Longrightarrow> triple P (State_Monad.bind m f) Q"
  by (fastforce simp: triple_def split: prod.splits)

lemma triple_return: "(\<And>s. P s \<Longrightarrow> Q a s) \<Longrightarrow> triple P (return a) Q"
  by (simp add: triple_def)

lemma triple_weaken: "triple P m Q \<Longrightarrow> (\<And>a s. Q a s \<Longrightarrow> Q' a s) \<Longrightarrow> triple P m Q'"
  by (auto simp: triple_def split: prod.splits)

lemma triple_pre: "triple P' m Q \<Longrightarrow> (\<And>s. P s \<Longrightarrow> P' s) \<Longrightarrow> triple P m Q"
  by (auto simp: triple_def)

text \<open>Invariants: what an action keeps.\<close>

definition keeps_inv :: "('s \<Rightarrow> bool) \<Rightarrow> ('s, 'a) state \<Rightarrow> bool" where
  "keeps_inv I m \<longleftrightarrow> (\<forall>s. I s \<longrightarrow> I (snd (run_state m s)))"

named_theorems keeps_intros \<open>what keeps an invariant\<close>

lemma keeps_invD: "keeps_inv I m \<Longrightarrow> I s \<Longrightarrow> I (snd (run_state m s))"
  by (simp add: keeps_inv_def)

lemma keeps_bind [keeps_intros]:
  "keeps_inv I m \<Longrightarrow> (\<And>a. keeps_inv I (f a)) \<Longrightarrow> keeps_inv I (State_Monad.bind m f)"
  by (fastforce simp: keeps_inv_def split: prod.splits)

lemma keeps_return [keeps_intros]: "keeps_inv I (return a)"
  by (simp add: keeps_inv_def)

lemma keeps_gets [keeps_intros]: "keeps_inv I (gets f)"
  by (simp add: keeps_inv_def)

lemma keeps_get [keeps_intros]: "keeps_inv I get"
  by (simp add: keeps_inv_def)

lemma keeps_modify: "(\<And>s. I s \<Longrightarrow> I (f s)) \<Longrightarrow> keeps_inv I (modify f)"
  by (simp add: keeps_inv_def)

lemma keeps_if [keeps_intros]: "keeps_inv I m \<Longrightarrow> keeps_inv I n \<Longrightarrow> keeps_inv I (if b then m else n)"
  by simp

lemma keeps_option [keeps_intros]:
  "keeps_inv I m \<Longrightarrow> (\<And>x. keeps_inv I (f x)) \<Longrightarrow> keeps_inv I (case v of None \<Rightarrow> m | Some x \<Rightarrow> f x)"
  by (cases v) simp_all

lemma keeps_sum [keeps_intros]:
  "(\<And>x. keeps_inv I (f x)) \<Longrightarrow> (\<And>y. keeps_inv I (g y)) \<Longrightarrow> keeps_inv I (case v of Inl x \<Rightarrow> f x | Inr y \<Rightarrow> g y)"
  by (cases v) simp_all

lemma keeps_prod [keeps_intros]:
  "(\<And>x y. keeps_inv I (f x y)) \<Longrightarrow> keeps_inv I (case v of (x, y) \<Rightarrow> f x y)"
  by (cases v) simp

lemma keeps_let [keeps_intros]: "(\<And>x. keeps_inv I (f x)) \<Longrightarrow> keeps_inv I (let x = v in f x)"
  by simp

section \<open>The local replica evolves by its log\<close>

definition evolves :: "'z world_scheme \<Rightarrow> 'z world_scheme \<Rightarrow> bool" where
  "evolves w w' \<longleftrightarrow> (\<exists>es. w_fsm w' = apply_log es (w_fsm w)) \<and> w_k w \<le> w_k w' \<and>
     (\<exists>t. w_trace w' = w_trace w @ t)"

lemma evolves_refl [intro]: "evolves w w"
  by (auto simp: evolves_def intro: exI [of _ "[]"])

lemma evolves_trans: "evolves u v \<Longrightarrow> evolves v w \<Longrightarrow> evolves u w"
  unfolding evolves_def by (metis append_assoc fsm.run_append le_trans)

lemma evolves_inv: "evolves w w' \<Longrightarrow> fsm_inv (w_fsm w) \<Longrightarrow> fsm_inv (w_fsm w')"
  by (auto simp: evolves_def intro: fsm.inv_run)

lemma arrive_evolves: "evolves w (arrive E w)"
  by (auto simp: evolves_def)

lemma raft_Apply_evolves: "evolves w (snd (run_state (raft_Apply E d) w))"
proof (cases "e_apply E (w_k w)")
  case None
  let ?s = "apply_log (e_arrive E (w_k w)) (w_fsm w)"
  have "snd (Apply (e_now E (w_k w)) (e_ranger E (w_k w)) (Some d) ?s)
      = apply_log (e_arrive E (w_k w) @ [(e_now E (w_k w), e_ranger E (w_k w), Some d)]) (w_fsm w)"
    by (simp add: fsm.run_append apply_entry_def)
  with None show ?thesis
    by (auto simp: raft_Apply_def evolves_def split: prod.splits)
qed (use arrive_evolves in \<open>auto simp: raft_Apply_def\<close>)

text \<open>Every event keeps a property of worlds that log entries and trace events keep.\<close>

definition stable :: "('z world_scheme \<Rightarrow> bool) \<Rightarrow> bool" where
  "stable I \<longleftrightarrow> (\<forall>w w'. I w \<longrightarrow> evolves w w' \<longrightarrow> world.more w' = world.more w \<longrightarrow> I w')"

lemma stableD: "stable I \<Longrightarrow> I w \<Longrightarrow> evolves w w' \<Longrightarrow> world.more w' = world.more w \<Longrightarrow> I w'"
  by (auto simp: stable_def)

lemma raft_Apply_more: "world.more (snd (run_state (raft_Apply E d) w)) = world.more w"
  by (simp add: raft_Apply_def split: option.split prod.split)

lemma executor_Run_evolves: "evolves w (snd (run_state (executor_Run E a) w))"
  by (auto simp: executor_Run_def Let_def evolves_def)

lemma executor_Run_more: "world.more (snd (run_state (executor_Run E a) w)) = world.more w"
  by (simp add: executor_Run_def Let_def)

lemma pg_slot_evolves:
  "evolves w (snd (run_state (pg_CreateSlot E n) w))" "evolves w (snd (run_state (pg_DropSlot E b n) w))"
  by (auto simp: pg_CreateSlot_def pg_DropSlot_def Let_def evolves_def)

lemma pg_slot_more:
  "world.more (snd (run_state (pg_CreateSlot E n) w)) = world.more w"
  "world.more (snd (run_state (pg_DropSlot E b n) w)) = world.more w"
  by (simp_all add: pg_CreateSlot_def pg_DropSlot_def Let_def)

lemma raft_member_evolves: "evolves w (snd (run_state (raft_member E what) w))"
  by (auto simp: raft_member_def evolves_def)

lemma raft_member_more: "world.more (snd (run_state (raft_member E what) w)) = world.more w"
  by (simp add: raft_member_def)

lemma events_keep [keeps_intros]:
  assumes "stable I"
  shows "keeps_inv I (time_Now E)" "keeps_inv I (raft_State E)" "keeps_inv I (raft_LeaderWithID E)"
    "keeps_inv I (raft_Stats E)" "keeps_inv I (read_fsm E f)" "keeps_inv I (ctx_Done E)"
    "keeps_inv I (raft_Apply E d)" "keeps_inv I (executor_Run E a)"
    "keeps_inv I (pg_Connect E)" "keeps_inv I (pg_QuerySlots E)" "keeps_inv I (pg_CreateSlot E n)"
    "keeps_inv I (pg_DropSlot E b n)" "keeps_inv I (raft_GetConfiguration E)" "keeps_inv I (raft_member E what)"
  unfolding keeps_inv_def
  by (auto intro: stableD [OF assms _ arrive_evolves] stableD [OF assms _ raft_Apply_evolves raft_Apply_more]
      stableD [OF assms _ executor_Run_evolves executor_Run_more]
      stableD [OF assms _ pg_slot_evolves(1) pg_slot_more(1)] stableD [OF assms _ pg_slot_evolves(2) pg_slot_more(2)]
      stableD [OF assms _ raft_member_evolves raft_member_more])

end
