(* ===== verification/Store.thy ===== *)
theory Store
  imports World
begin

text \<open>
  The typed API over Raft, src/internal/consensus/store.go: writes are proposed through
  Raft and only by the leader, reads come from the local replica.
\<close>

section \<open>Errors\<close>

datatype go_error =
    ErrNotLeader
  | MarshalData json_error
  | MarshalCommand json_error
  | RaftApply string
  | FsmApply fsm_error
  | Panicked

text \<open>None is Go's nil. \<open>Panicked\<close>: the process ended before the call returned.\<close>

type_synonym error = "go_error option"

section \<open>Payloads of the writes\<close>

definition enc_NamePayload :: "NamePayload \<Rightarrow> json_error + json" where
  "enc_NamePayload p = enc_struct [(''name'', Inr (JStr (np_Name p)))]"

definition enc_CompletePayload :: "CompletePayload \<Rightarrow> json_error + json" where
  "enc_CompletePayload p = enc_struct ([(''id'', Inr (JStr (cp_ID p)))]
     @ omitempty (cp_Error p = '''') ''error'' (Inr (JStr (cp_Error p))))"

definition enc_CleanupPayload :: "CleanupPayload \<Rightarrow> json_error + json" where
  "enc_CleanupPayload p = enc_struct [(''max_age'', Inr (JInt (cl_MaxAge p)))]"

definition enc_PatchPayload :: "PatchPayload \<Rightarrow> json_error + json" where
  "enc_PatchPayload p = enc_struct ([(''parameters'', enc_Params (pp_Parameters p))]
     @ omitempty (pp_UpdatedBy p = '''') ''updated_by'' (Inr (JStr (pp_UpdatedBy p))))"

section \<open>Writes\<close>

definition Store_apply :: "env \<Rightarrow> FSMCommand \<Rightarrow> ('z, error) act" where
  "Store_apply E cmd = do {
     st \<leftarrow> raft_State E;
     if st \<noteq> Leader then return (Some ErrNotLeader)
     else case enc_FSMCommand cmd of
       Inl e \<Rightarrow> return (Some (MarshalCommand e))
     | Inr data \<Rightarrow> do {
         start \<leftarrow> time_Now E;
         f \<leftarrow> raft_Apply E data;
         done \<leftarrow> time_Now E;
         return (case f of
             Inl e \<Rightarrow> Some (RaftApply e)
           | Inr (RErr e) \<Rightarrow> Some (FsmApply e)
           | Inr RPanic \<Rightarrow> Some Panicked
           | Inr _ \<Rightarrow> None) } }"

definition write_command :: "env \<Rightarrow> string \<Rightarrow> json_error + json \<Rightarrow> ('z, error) act" where
  "write_command E t data =
     (case data of Inl e \<Rightarrow> return (Some (MarshalData e))
      | Inr j \<Rightarrow> Store_apply E \<lparr>cmd_Type = t, cmd_Data = Some j\<rparr>)"

definition SetPrimary :: "env \<Rightarrow> NodeInfo \<Rightarrow> ('z, error) act" where
  "SetPrimary E node = write_command E CmdSetPrimary (enc_NodeInfo node)"

definition SetReplica :: "env \<Rightarrow> NodeInfo \<Rightarrow> ('z, error) act" where
  "SetReplica E node = write_command E CmdSetReplica (enc_NodeInfo node)"

definition SetClusterConfig :: "env \<Rightarrow> ClusterConfig \<Rightarrow> ('z, error) act" where
  "SetClusterConfig E cfg = write_command E CmdSetClusterConfig (enc_ClusterConfig cfg)"

definition UpdateNodeHealth :: "env \<Rightarrow> NodeInfo \<Rightarrow> ('z, error) act" where
  "UpdateNodeHealth E node = write_command E CmdUpdateNodeHealth (enc_NodeInfo node)"

definition AddNode :: "env \<Rightarrow> NodeInfo \<Rightarrow> ('z, error) act" where
  "AddNode E node = write_command E CmdAddNode (enc_NodeInfo node)"

definition RemoveNode :: "env \<Rightarrow> string \<Rightarrow> ('z, error) act" where
  "RemoveNode E name = write_command E CmdRemoveNode (enc_NamePayload \<lparr>np_Name = name\<rparr>)"

definition PublishDirective :: "env \<Rightarrow> Directive \<Rightarrow> ('z, error) act" where
  "PublishDirective E d = write_command E CmdPublishDirective (enc_Directive d)"

definition CompleteDirective :: "env \<Rightarrow> string \<Rightarrow> string \<Rightarrow> ('z, error) act" where
  "CompleteDirective E i errMsg =
     write_command E CmdCompleteDirective (enc_CompletePayload \<lparr>cp_ID = i, cp_Error = errMsg\<rparr>)"

definition SetPostgreSQLConfig :: "env \<Rightarrow> PostgreSQLConfig \<Rightarrow> ('z, error) act" where
  "SetPostgreSQLConfig E cfg = write_command E CmdSetPostgreSQLConfig (enc_PostgreSQLConfig cfg)"

definition PatchPostgreSQLConfig :: "env \<Rightarrow> string gomap \<Rightarrow> string \<Rightarrow> ('z, error) act" where
  "PatchPostgreSQLConfig E params updatedBy = write_command E CmdPatchPostgreSQLConfig
     (enc_PatchPayload \<lparr>pp_Parameters = params, pp_UpdatedBy = updatedBy\<rparr>)"

definition CleanupDirectives :: "env \<Rightarrow> duration \<Rightarrow> ('z, int \<times> error) act" where
  "CleanupDirectives E maxAge =
     (case enc_CleanupPayload \<lparr>cl_MaxAge = maxAge\<rparr> of
        Inl e \<Rightarrow> return (0, Some (MarshalData e))
      | Inr j \<Rightarrow> do {
          st \<leftarrow> raft_State E;
          if st \<noteq> Leader then return (0, Some ErrNotLeader)
          else case enc_FSMCommand \<lparr>cmd_Type = CmdCleanupDirectives, cmd_Data = Some j\<rparr> of
            Inl e \<Rightarrow> return (0, Some (MarshalCommand e))
          | Inr data \<Rightarrow> do {
              f \<leftarrow> raft_Apply E data;
              return (case f of
                  Inl e \<Rightarrow> (0, Some (RaftApply e))
                | Inr (RInt n) \<Rightarrow> (n, None)
                | Inr (RErr e) \<Rightarrow> (0, Some (FsmApply e))
                | Inr RPanic \<Rightarrow> (0, Some Panicked)
                | Inr RNil \<Rightarrow> (0, None)) } })"

section \<open>Membership\<close>

definition AddPeer :: "env \<Rightarrow> string \<Rightarrow> string \<Rightarrow> ('z, string option) act" where
  "AddPeer E i address = raft_member E (AddedVoter i address)"

definition RemovePeer :: "env \<Rightarrow> string \<Rightarrow> ('z, string option) act" where
  "RemovePeer E i = raft_member E (RemovedServer i)"

definition TransferLeadership :: "env \<Rightarrow> ('z, string option) act" where
  "TransferLeadership E = raft_member E TransferredLeadership"

definition Peers :: "env \<Rightarrow> ('z, string + raft_server list) act" where
  "Peers E = raft_GetConfiguration E"

definition Store_Stats :: "env \<Rightarrow> ('z, (string, string) fmap) act" where
  "Store_Stats E = raft_Stats E"

section \<open>Reads\<close>

definition IsLeader :: "env \<Rightarrow> ('z, bool) act" where
  "IsLeader E = do { st \<leftarrow> raft_State E; return (st = Leader) }"

definition LeaderAddr :: "env \<Rightarrow> ('z, string) act" where
  "LeaderAddr E = raft_LeaderWithID E"

definition GetStaleDirectiveCount :: "env \<Rightarrow> duration \<Rightarrow> ('z, nat) act" where
  "GetStaleDirectiveCount E maxAge = do {
     now \<leftarrow> time_Now E;
     ids \<leftarrow> read_fsm E (\<lambda>r. GetStaleDirectiveIDs now r maxAge);
     return (length ids) }"

definition Store_GetDirectivesForNode :: "env \<Rightarrow> string \<Rightarrow> ('z, Directive list) act" where
  "Store_GetDirectivesForNode E node = read_fsm E (\<lambda>r. GetDirectivesForNode r node)"

definition Store_GetDirective :: "env \<Rightarrow> string \<Rightarrow> ('z, Directive option) act" where
  "Store_GetDirective E i = read_fsm E (\<lambda>r. GetDirective i)"

definition Store_GetAllDirectives :: "env \<Rightarrow> ('z, (string, Directive) fmap) act" where
  "Store_GetAllDirectives E = read_fsm E (\<lambda>r. GetAllDirectives)"

definition Store_GetPostgreSQLConfig :: "env \<Rightarrow> ('z, PostgreSQLConfig) act" where
  "Store_GetPostgreSQLConfig E = read_fsm E (\<lambda>r. GetPostgreSQLConfig)"

definition Store_GetPostgreSQLConfigVersion :: "env \<Rightarrow> ('z, int) act" where
  "Store_GetPostgreSQLConfigVersion E = read_fsm E (\<lambda>r. GetPostgreSQLConfigVersion)"

definition RaftState_String :: "RaftState \<Rightarrow> string" where
  "RaftState_String st = (case st of Follower \<Rightarrow> ''Follower'' | Candidate \<Rightarrow> ''Candidate''
     | Leader \<Rightarrow> ''Leader'' | Shutdown \<Rightarrow> ''Shutdown'')"

definition Store_RaftState :: "env \<Rightarrow> ('z, string) act" where
  "Store_RaftState E = do { st \<leftarrow> raft_State E; return (RaftState_String st) }"

definition last_contact :: "(string, string) fmap \<Rightarrow> duration" where
  "last_contact stats =
     (let lastContact = (case fmlookup stats ''last_contact'' of None \<Rightarrow> '''' | Some s \<Rightarrow> s)
      in if lastContact = '''' \<or> lastContact = ''never'' \<or> lastContact = ''0'' then 0
         else case ParseDuration lastContact of Inl e \<Rightarrow> 0 | Inr d \<Rightarrow> d)"

definition LastContact :: "env \<Rightarrow> ('z, duration) act" where
  "LastContact E = do { stats \<leftarrow> raft_Stats E; return (last_contact stats) }"

definition HasQuorum :: "env \<Rightarrow> duration \<Rightarrow> ('z, bool) act" where
  "HasQuorum E timeout = do {
     st \<leftarrow> raft_State E;
     if st = Leader then return True
     else do {
       lastContact \<leftarrow> LastContact E;
       if lastContact = 0 then do { addr \<leftarrow> raft_LeaderWithID E; return (addr \<noteq> '''') }
       else return (lastContact < timeout) } }"

lemmas store_writes = SetPrimary_def SetReplica_def SetClusterConfig_def UpdateNodeHealth_def AddNode_def
  RemoveNode_def PublishDirective_def CompleteDirective_def SetPostgreSQLConfig_def
  PatchPostgreSQLConfig_def

lemmas store_reads = GetStaleDirectiveCount_def Store_GetDirectivesForNode_def Store_GetDirective_def
  Store_GetAllDirectives_def Store_GetPostgreSQLConfig_def Store_GetPostgreSQLConfigVersion_def
  Store_RaftState_def Peers_def Store_Stats_def LastContact_def IsLeader_def LeaderAddr_def HasQuorum_def

section \<open>What store operations keep\<close>

lemma Store_apply_keeps [keeps_intros]: "stable I \<Longrightarrow> keeps_inv I (Store_apply E cmd)"
  unfolding Store_apply_def by (intro keeps_intros)

lemma write_command_keeps [keeps_intros]: "stable I \<Longrightarrow> keeps_inv I (write_command E t d)"
  unfolding write_command_def by (intro keeps_intros)

lemma store_writes_keep [keeps_intros]:
  assumes "stable I"
  shows "keeps_inv I (SetPrimary E n)" "keeps_inv I (SetReplica E n)" "keeps_inv I (SetClusterConfig E c)"
    "keeps_inv I (UpdateNodeHealth E n)" "keeps_inv I (AddNode E n)" "keeps_inv I (RemoveNode E nm)"
    "keeps_inv I (PublishDirective E d)" "keeps_inv I (CompleteDirective E i e)"
    "keeps_inv I (SetPostgreSQLConfig E pc)" "keeps_inv I (PatchPostgreSQLConfig E ps u)"
    "keeps_inv I (CleanupDirectives E age)" "keeps_inv I (AddPeer E i a)" "keeps_inv I (RemovePeer E i)"
    "keeps_inv I (TransferLeadership E)"
  unfolding store_writes CleanupDirectives_def AddPeer_def RemovePeer_def TransferLeadership_def by (intro keeps_intros assms)+

lemma store_reads_keep [keeps_intros]:
  assumes "stable I"
  shows "keeps_inv I (GetStaleDirectiveCount E age)" "keeps_inv I (Store_GetDirectivesForNode E nm)"
    "keeps_inv I (Store_GetDirective E i)" "keeps_inv I (Store_GetAllDirectives E)"
    "keeps_inv I (Store_GetPostgreSQLConfig E)" "keeps_inv I (Store_GetPostgreSQLConfigVersion E)"
    "keeps_inv I (Store_RaftState E)" "keeps_inv I (LastContact E)" "keeps_inv I (IsLeader E)"
    "keeps_inv I (Peers E)" "keeps_inv I (Store_Stats E)" "keeps_inv I (LeaderAddr E)" "keeps_inv I (HasQuorum E t)"
  unfolding store_reads by (intro keeps_intros assms)+

end
