(* ===== verification/StoreProps.thy ===== *)
theory StoreProps
  imports Store
begin

text \<open>
  The store refines the state machine: a write that returns no error has had exactly the
  effect of its command on its typed argument, and a write by a node that is not the
  leader has none.
\<close>

section \<open>The writes and their specification\<close>

datatype store_write =
    WSetPrimary NodeInfo
  | WSetReplica NodeInfo
  | WSetClusterConfig ClusterConfig
  | WUpdateNodeHealth NodeInfo
  | WAddNode NodeInfo
  | WRemoveNode string
  | WPublishDirective Directive
  | WCompleteDirective string string
  | WSetPostgreSQLConfig PostgreSQLConfig
  | WPatchPostgreSQLConfig "string gomap" string

fun do_write :: "env \<Rightarrow> store_write \<Rightarrow> ('z, error) act" where
  "do_write E (WSetPrimary n) = SetPrimary E n"
| "do_write E (WSetReplica n) = SetReplica E n"
| "do_write E (WSetClusterConfig c) = SetClusterConfig E c"
| "do_write E (WUpdateNodeHealth n) = UpdateNodeHealth E n"
| "do_write E (WAddNode n) = AddNode E n"
| "do_write E (WRemoveNode nm) = RemoveNode E nm"
| "do_write E (WPublishDirective d) = PublishDirective E d"
| "do_write E (WCompleteDirective i e) = CompleteDirective E i e"
| "do_write E (WSetPostgreSQLConfig c) = SetPostgreSQLConfig E c"
| "do_write E (WPatchPostgreSQLConfig ps u) = PatchPostgreSQLConfig E ps u"

text \<open>The effect of each write on the typed state, without the log's encoding.\<close>

fun write_effect :: "time \<Rightarrow> string ranger \<Rightarrow> store_write \<Rightarrow> FSMState \<Rightarrow> fsm_result" where
  "write_effect now r (WSetPrimary n) = apply_SetPrimary n"
| "write_effect now r (WSetReplica n) = apply_SetReplica n"
| "write_effect now r (WSetClusterConfig c) = apply_SetClusterConfig c"
| "write_effect now r (WUpdateNodeHealth n) = apply_UpdateNodeHealth n"
| "write_effect now r (WAddNode n) = apply_AddNode n"
| "write_effect now r (WRemoveNode nm) = apply_RemoveNode \<lparr>np_Name = nm\<rparr>"
| "write_effect now r (WPublishDirective d) = apply_PublishDirective (norm_directive d)"
| "write_effect now r (WCompleteDirective i e) = apply_CompleteDirective now \<lparr>cp_ID = i, cp_Error = e\<rparr>"
| "write_effect now r (WSetPostgreSQLConfig c) = apply_SetPostgreSQLConfig c"
| "write_effect now r (WPatchPostgreSQLConfig ps u) =
     apply_PatchPostgreSQLConfig now r \<lparr>pp_Parameters = ps, pp_UpdatedBy = u\<rparr>"

text \<open>The arguments the Go types allow, with instants that JSON can carry.\<close>

fun write_ok :: "store_write \<Rightarrow> bool" where
  "write_ok (WSetPrimary n) = (node_typed n \<and> node_times n)"
| "write_ok (WSetReplica n) = (node_typed n \<and> node_times n)"
| "write_ok (WSetClusterConfig c) = True"
| "write_ok (WUpdateNodeHealth n) = (node_typed n \<and> node_times n)"
| "write_ok (WAddNode n) = (node_typed n \<and> node_times n)"
| "write_ok (WRemoveNode nm) = True"
| "write_ok (WPublishDirective d) = directive_times d"
| "write_ok (WCompleteDirective i e) = True"
| "write_ok (WSetPostgreSQLConfig c) = (in_int64 (pc_Version c) \<and> time_marshalable (pc_UpdatedAt c))"
| "write_ok (WPatchPostgreSQLConfig ps u) = True"

section \<open>Payload round trips\<close>

lemma dec_enc_NamePayload: "enc_NamePayload p = Inr j \<Longrightarrow> dec_NamePayload j z = Inr p"
  by (auto simp: enc_NamePayload_def dec_NamePayload_def wire_simps)

lemma dec_enc_CompletePayload:
  "enc_CompletePayload p = Inr j \<Longrightarrow> dec_CompletePayload j \<lparr>cp_ID = '''', cp_Error = ''''\<rparr> = Inr p"
  by (auto simp: enc_CompletePayload_def dec_CompletePayload_def wire_simps split: if_splits)

lemma dec_enc_CleanupPayload:
  "enc_CleanupPayload p = Inr j \<Longrightarrow> in_int64 (cl_MaxAge p) \<Longrightarrow> dec_CleanupPayload j z = Inr p"
  by (auto simp: enc_CleanupPayload_def dec_CleanupPayload_def wire_simps)

lemma dec_enc_PatchPayload:
  assumes "enc_PatchPayload p = Inr j"
  shows "dec_PatchPayload j \<lparr>pp_Parameters = None, pp_UpdatedBy = ''''\<rparr> = Inr p"
proof -
  obtain pj where pj: "enc_Params (pp_Parameters p) = Inr pj" using enc_Params_ok by blast
  with dec_enc_Params [OF pj] assms show ?thesis
    by (auto simp: enc_PatchPayload_def dec_PatchPayload_def wire_simps split: if_splits)
qed

lemma enc_payloads_ok:
  "\<exists>j. enc_ClusterConfig c = Inr j" "\<exists>j. enc_NamePayload np = Inr j" "\<exists>j. enc_CompletePayload cp = Inr j"
  "\<exists>j. enc_CleanupPayload cl = Inr j" "\<exists>j. enc_PatchPayload pp = Inr j"
  using enc_Params_ok [of "pp_Parameters pp"]
  by (auto simp: enc_ClusterConfig_def enc_NamePayload_def enc_CompletePayload_def enc_CleanupPayload_def
      enc_PatchPayload_def wire_simps)

lemma write_PostgreSQLConfig_ok: "time_marshalable (pc_UpdatedAt c) \<Longrightarrow> \<exists>j. enc_PostgreSQLConfig c = Inr j"
  using enc_Params_ok [of "pc_Parameters c"] by (auto simp: enc_PostgreSQLConfig_def wire_simps)

section \<open>One write\<close>

text \<open>What a write does when its entry decodes to the effect \<open>eff\<close>.\<close>

definition write_spec ::
    "env \<Rightarrow> (time \<Rightarrow> string ranger \<Rightarrow> FSMState \<Rightarrow> fsm_result) \<Rightarrow> 'z world_scheme \<Rightarrow> error \<times> 'z world_scheme \<Rightarrow> bool" where
  "write_spec E eff w res \<longleftrightarrow>
     (let k = w_k w; w3 = arrive E (arrive E (arrive E w)); (err, w') = res
      in if e_role E k \<noteq> Leader then err = Some ErrNotLeader \<and> w' = arrive E w
         else case e_apply E (k + 2) of
           Some e \<Rightarrow> err = Some (RaftApply e) \<and> w' = arrive E w3
         | None \<Rightarrow> (case eff (e_now E (k + 2)) (e_ranger E (k + 2)) (w_fsm w3) of (resp, s) \<Rightarrow>
             err = (case resp of RErr e \<Rightarrow> Some (FsmApply e) | RPanic \<Rightarrow> Some Panicked | _ \<Rightarrow> None) \<and>
             (\<exists>j. w' = arrive E (w3\<lparr>w_fsm := s, w_trace := w_trace w @ [Committed j]\<rparr>))))"

lemma Store_apply_spec:
  assumes "cmd_Data cmd \<noteq> None" and "\<And>now r s. apply_command now r cmd s = eff now r s"
  shows "write_spec E eff w (run_state (Store_apply E cmd) w)"
proof -
  obtain data where data: "enc_FSMCommand cmd = Inr data" using enc_FSMCommand_ok by blast
  then have "Apply now r (Some data) s = eff now r s" for now r s
    using dec_enc_FSMCommand [OF data assms(1)] assms(2) by (simp add: Apply_def Unmarshal_def)
  with data show ?thesis
    by (cases "e_apply E (w_k w + 2)")
      (auto simp: write_spec_def Let_def Store_apply_def raft_Apply_def split: prod.splits fsm_response.splits)
qed

lemma write_command_spec:
  assumes "\<exists>j. data = Inr j" and "\<And>now r s j. data = Inr j \<Longrightarrow>
    apply_command now r \<lparr>cmd_Type = t, cmd_Data = Some j\<rparr> s = eff now r s"
  shows "write_spec E eff w (run_state (write_command E t data) w)"
  using assms by (auto simp: write_command_def intro!: Store_apply_spec)

lemma apply_command_typed:
  "with_payload t d z \<lparr>cmd_Type = t', cmd_Data = Some j\<rparr> s k = k x" if "d j z = Inr x"
  using that by (simp add: with_payload_def Unmarshal_def)

lemmas command_simps = apply_command_def apply_command_typed

lemma do_write_spec:
  assumes "write_ok wr"
  shows "write_spec E (\<lambda>now r. write_effect now r wr) w (run_state (do_write E wr) w)"
proof (cases wr)
  case (WSetPrimary n)
  with assms enc_NodeInfo_ok [of n] dec_enc_NodeInfo [of n] show ?thesis
    by (auto simp: SetPrimary_def command_simps intro!: write_command_spec)
next
  case (WSetReplica n)
  with assms enc_NodeInfo_ok [of n] dec_enc_NodeInfo [of n] show ?thesis
    by (auto simp: SetReplica_def command_simps intro!: write_command_spec)
next
  case (WSetClusterConfig c)
  with enc_payloads_ok(1) dec_enc_ClusterConfig [of c] show ?thesis
    by (auto simp: SetClusterConfig_def command_simps intro!: write_command_spec)
next
  case (WUpdateNodeHealth n)
  with assms enc_NodeInfo_ok [of n] dec_enc_NodeInfo [of n] show ?thesis
    by (auto simp: UpdateNodeHealth_def command_simps intro!: write_command_spec)
next
  case (WAddNode n)
  with assms enc_NodeInfo_ok [of n] dec_enc_NodeInfo [of n] show ?thesis
    by (auto simp: AddNode_def command_simps intro!: write_command_spec)
next
  case (WRemoveNode nm)
  with enc_payloads_ok(2) dec_enc_NamePayload show ?thesis
    by (auto simp: RemoveNode_def command_simps intro!: write_command_spec)
next
  case (WPublishDirective d)
  with assms enc_Directive_ok [of d] dec_enc_Directive [of d] show ?thesis
    by (auto simp: PublishDirective_def command_simps intro!: write_command_spec)
next
  case (WCompleteDirective i e)
  with enc_payloads_ok(3) dec_enc_CompletePayload show ?thesis
    by (auto simp: CompleteDirective_def command_simps intro!: write_command_spec)
next
  case (WSetPostgreSQLConfig c)
  with assms write_PostgreSQLConfig_ok [of c] dec_enc_PostgreSQLConfig [of c] show ?thesis
    by (auto simp: SetPostgreSQLConfig_def command_simps intro!: write_command_spec)
next
  case (WPatchPostgreSQLConfig ps u)
  with enc_payloads_ok(5) dec_enc_PatchPayload show ?thesis
    by (auto simp: PatchPostgreSQLConfig_def command_simps intro!: write_command_spec)
qed

lemma write_effect_ok: "fsm_inv s \<Longrightarrow> fst (write_effect now r wr s) = RNil"
  by (cases wr; elim fsm_invE)
    (simp_all add: apply_SetPrimary_def apply_SetReplica_def apply_AddNode_def store_node_def
      apply_UpdateNodeHealth_def apply_SetClusterConfig_def apply_RemoveNode_def apply_PublishDirective_def
      apply_CompleteDirective_def apply_SetPostgreSQLConfig_def apply_PatchPostgreSQLConfig_def Let_def
      split: option.split)

lemma write_refines:
  assumes "write_ok wr" and "fsm_inv (w_fsm w)"
  shows "let k = w_k w; (err, w') = run_state (do_write E wr) w
    in (err = None \<longleftrightarrow> e_role E k = Leader \<and> e_apply E (k + 2) = None) \<and>
       (e_role E k \<noteq> Leader \<longrightarrow> err = Some ErrNotLeader) \<and>
       (err = None \<longrightarrow> w_fsm w' = apply_log (e_arrive E (k + 3))
          (snd (write_effect (e_now E (k + 2)) (e_ranger E (k + 2)) wr
             (apply_log (e_arrive E k @ e_arrive E (k + 1) @ e_arrive E (k + 2)) (w_fsm w))))) \<and>
       (err \<noteq> None \<longrightarrow> w_trace w' = w_trace w)"
proof -
  let ?s = "apply_log (e_arrive E (w_k w) @ e_arrive E (w_k w + 1) @ e_arrive E (w_k w + 2)) (w_fsm w)"
  have s: "w_fsm (arrive E (arrive E (arrive E w))) = ?s"
    by (simp add: fsm.run_append numeral_2_eq_2)
  have "fsm_inv ?s" by (rule fsm.inv_run) (rule assms(2))
  then have nil: "fst (write_effect now r wr ?s) = RNil" for now r by (rule write_effect_ok)
  show ?thesis
    using do_write_spec [OF assms(1), of E w] nil [of "e_now E (w_k w + 2)" "e_ranger E (w_k w + 2)"]
    unfolding write_spec_def Let_def s
    by (auto split: if_splits option.splits prod.splits simp: numeral_3_eq_3)
qed

text \<open>
  (C5) Every typed write of the store refines its command: it returns nil exactly when
  this node is the leader and Raft accepts the proposal; then the local state is the
  state before it, with the entries that came first, changed by the command applied to
  the typed argument itself (the encoding to and from the log loses nothing); a write
  that returns an error commits nothing.
\<close>

theorem store_write_refines:
  assumes "write_ok wr" and "fsm_inv (w_fsm w)"
  shows "let k = w_k w; (err, w') = run_state (do_write E wr) w
    in (err = None \<longleftrightarrow> e_role E k = Leader \<and> e_apply E (k + 2) = None) \<and>
       (e_role E k \<noteq> Leader \<longrightarrow> err = Some ErrNotLeader) \<and>
       (err = None \<longrightarrow> w_fsm w' = apply_log (e_arrive E (k + 3))
          (snd (write_effect (e_now E (k + 2)) (e_ranger E (k + 2)) wr
             (apply_log (e_arrive E k @ e_arrive E (k + 1) @ e_arrive E (k + 2)) (w_fsm w))))) \<and>
       (err \<noteq> None \<longrightarrow> w_trace w' = w_trace w)"
  using assms by (rule write_refines)

definition quiet_env :: env where
  "quiet_env = \<lparr>e_now = int, e_ranger = (\<lambda>_. sorted_list_of_fset), e_arrive = (\<lambda>_. []), e_role = (\<lambda>_. Leader),
     e_leader = (\<lambda>_. ''n1''), e_stats = (\<lambda>_. fmempty), e_apply = (\<lambda>_. None), e_exec = (\<lambda>_ _. ('''', None)),
     e_done = (\<lambda>_. False), e_connect = (\<lambda>_. None), e_slots = (\<lambda>_. Inr []), e_slot_op = (\<lambda>_ _. None), e_open_rows = (\<lambda>_ _. Some ''conn busy''),
     e_servers = (\<lambda>_. Inr []), e_member = (\<lambda>_. None)\<rparr>"

definition start_world :: "FSMState \<Rightarrow> world" where
  "start_world s = \<lparr>w_k = 0, w_fsm = s, w_trace = []\<rparr>"

theorem store_write_refines_witness:
  "fst (run_state (do_write quiet_env (WAddNode ex_node)) (start_world NewClusterFSM)) = None \<and>
   w_fsm (snd (run_state (do_write quiet_env (WAddNode ex_node)) (start_world NewClusterFSM)))
     = NewClusterFSM\<lparr>Nodes := Some (fmupd ''n1'' ex_node fmempty)\<rparr>"
proof -
  have ok: "write_ok (WAddNode ex_node)"
    by (simp add: ex_node_def zero_NodeInfo_def node_typed_def node_times_def in_int64_def time_marshalable_def)
  have inv: "fsm_inv (w_fsm (start_world NewClusterFSM))" by (simp add: start_world_def fsm_inv_NewClusterFSM)
  have "snd (write_effect 2 sorted_list_of_fset (WAddNode ex_node) NewClusterFSM)
      = NewClusterFSM\<lparr>Nodes := Some (fmupd ''n1'' ex_node fmempty)\<rparr>"
    by (simp add: apply_AddNode_def store_node_def NewClusterFSM_def ex_node_def)
  then show ?thesis
    using store_write_refines [OF ok inv, of quiet_env]
    by (simp add: Let_def quiet_env_def start_world_def split: prod.splits)
qed

section \<open>Cleaning up directives\<close>

text \<open>
  CleanupDirectives on the leader returns the number of directives that are stale by
  the clock at that moment, and removes exactly those.
\<close>

theorem cleanup_directives_count:
  assumes inv: "fsm_inv (w_fsm w)" and r: "is_ranger (e_ranger E (w_k w + 1))" and age: "0 < age" "in_int64 age"
    and "e_role E (w_k w) = Leader" and "e_apply E (w_k w + 1) = None"
  shows "let k = w_k w; now = e_now E (k + 1); s = apply_log (e_arrive E k @ e_arrive E (k + 1)) (w_fsm w);
             ((n, err), w') = run_state (CleanupDirectives E age) w
    in err = None \<and> n = int (length (GetStaleDirectiveIDs now (e_ranger E (k + 1)) age s)) \<and>
       (\<forall>i. GetDirective i (w_fsm w') =
          (case GetDirective i s of None \<Rightarrow> None
           | Some d \<Rightarrow> if is_stale (now + wrap64 (- age)) d then None else Some d))"
proof -
  let ?k = "w_k w" and ?p = "\<lparr>cl_MaxAge = age\<rparr>"
  define s where "s = apply_log (e_arrive E ?k @ e_arrive E (?k + 1)) (w_fsm w)"
  have s: "w_fsm (arrive E (arrive E w)) = s" by (simp add: s_def fsm.run_append)
  have "fsm_inv s" unfolding s_def by (rule fsm.inv_run) (rule inv)
  note exact = cleanup_effect [OF this r, where p = ?p and now = "e_now E (?k + 1)"]
  obtain resp s' where A: "apply_CleanupDirectives (e_now E (?k + 1)) (e_ranger E (?k + 1)) ?p s = (resp, s')"
    by fastforce
  obtain j where j: "enc_CleanupPayload ?p = Inr j" using enc_payloads_ok(4) by blast
  let ?c = "\<lparr>cmd_Type = CmdCleanupDirectives, cmd_Data = Some j\<rparr>"
  obtain data where data: "enc_FSMCommand ?c = Inr data" using enc_FSMCommand_ok by blast
  have "Apply now q (Some data) s = apply_CleanupDirectives now q ?p s" for now q
    using dec_enc_FSMCommand [OF data] dec_enc_CleanupPayload [OF j] age
    by (simp add: Apply_def Unmarshal_def command_simps)
  then have run: "run_state (CleanupDirectives E age) w =
      (case resp of RInt n \<Rightarrow> (n, None) | RErr e \<Rightarrow> (0, Some (FsmApply e)) | RPanic \<Rightarrow> (0, Some Panicked)
       | RNil \<Rightarrow> (0, None),
       (arrive E (arrive E w))\<lparr>w_fsm := s', w_trace := w_trace w @ [Committed data]\<rparr>)"
    using assms(5,6) A s by (simp add: CleanupDirectives_def j data raft_Apply_def)
  from exact age show ?thesis
    unfolding run A Let_def by (auto simp: s_def split: option.splits)
qed

theorem cleanup_directives_count_witness:
  "let ((n, err), w') = run_state (CleanupDirectives (quiet_env\<lparr>e_now := (\<lambda>_. 100)\<rparr>) 10) (start_world (ex_state ''failed'' 50))
   in err = None \<and> n = 1 \<and> GetDirective ''a'' (w_fsm w') = None"
proof -
  let ?E = "quiet_env\<lparr>e_now := (\<lambda>_. 100)\<rparr>" and ?w = "start_world (ex_state ''failed'' 50)"
  have "fsm_inv (w_fsm ?w)" "is_ranger (e_ranger ?E (w_k ?w + 1))" "in_int64 10"
    by (simp_all add: start_world_def ex_state_inv quiet_env_def ranger_sorted in_int64_def)
  note count = cleanup_directives_count [OF this(1,2) _ this(3)]
  have "length (GetStaleDirectiveIDs 100 sorted_list_of_fset 10 (ex_state ''failed'' 50)) = 1"
    "GetDirective ''a'' (ex_state ''failed'' 50) = Some (ex_dir ''failed'' 50)"
    "is_stale (100 + wrap64 (- 10)) (ex_dir ''failed'' 50)"
    by code_simp+
  with count show ?thesis
    by (simp add: Let_def quiet_env_def start_world_def split: prod.splits)
qed

section \<open>Quorum\<close>

text \<open>
  A node takes itself to be without quorum exactly when it is not the leader and
  either its last contact with a leader is the timeout or more ago, or Raft reports no
  usable time of contact and knows no leader.
\<close>

theorem has_quorum_iff:
  "fst (run_state (HasQuorum E timeout) w) \<longleftrightarrow>
     (let k = w_k w; c = last_contact (e_stats E (k + 1))
      in e_role E k = Leader \<or> (c \<noteq> 0 \<and> c < timeout) \<or> (c = 0 \<and> e_leader E (k + 2) \<noteq> ''''))"
  by (auto simp: HasQuorum_def LastContact_def Let_def)

end
