(* ===== verification/Config.thy ===== *)
theory Config
  imports GoStd
begin

text \<open>
  The configuration, src/internal/config: its data, defaults, validation, and hot reload.
  Reading the file and the YAML library are parameters of \<open>Load\<close>. Floating-point
  settings are rationals; pointers to optional booleans are options.
\<close>

section \<open>Data\<close>

record NodeConfig = nc_Name :: string  nc_Address :: string

record PeersConfig = pr_Peers :: "string list"

record PoolConfig =
  pl_Enabled :: bool
  pl_MaxPoolSize :: int
  pl_MinIdleConns :: int
  pl_IdleTimeout :: duration
  pl_MaxConnLifetime :: duration
  pl_HealthCheckPeriod :: duration
  pl_AcquireTimeout :: duration

record ProxyConfig =
  px_PrimaryPort :: int
  px_ReplicaPort :: int
  px_DrainTimeout :: duration
  px_ConnectTimeout :: duration
  px_Pool :: PoolConfig

record VIPConfig = vp_Address :: string  vp_Interface :: string  vp_RenewInterval :: duration

record RaftConfig =
  rf_DataDir :: string
  rf_BindPort :: int
  rf_Bootstrap :: bool
  rf_LogLevel :: string
  rf_SnapshotRetain :: int
  rf_TransportTimeout :: duration
  rf_HeartbeatTimeout :: duration
  rf_ElectionTimeout :: duration
  rf_TLSEnabled :: bool
  rf_TLSCert :: string
  rf_TLSKey :: string
  rf_TLSCA :: string

record MemberlistConfig = ml_BindPort :: int

record APIConfig =
  ap_Port :: int
  ap_BindAddress :: string
  ap_AuthToken :: string
  ap_ShutdownTimeout :: duration
  ap_TLSCert :: string
  ap_TLSKey :: string

record LogConfig = lg_Level :: string

record MetricsConfig = mt_Port :: int

record PGConfig =
  pg_BinDir :: string
  pg_DataDir :: string
  pg_Port :: int
  pg_Superuser :: string
  pg_ReplicationUser :: string
  pg_ConnectDSN :: string
  pg_HealthTimeout :: duration
  pg_HealthInterval :: duration
  pg_HealthMaxBackoff :: duration
  pg_HealthBackoffMultiplier :: rat

record FailoverConfig =
  fo_ConfirmationPeriod :: duration
  fo_MaxLagThreshold :: int
  fo_FencingEnabled :: "bool option"
  fo_QuorumLossTimeout :: duration
  fo_SplitBrainProtection :: "bool option"

record TracingConfig =
  tr_Enabled :: bool
  tr_Exporter :: string
  tr_Endpoint :: string
  tr_ServiceName :: string
  tr_SampleRate :: rat
  tr_Insecure :: bool

record Config =
  c_Version :: int
  c_Node :: NodeConfig
  c_Cluster :: PeersConfig
  c_Proxy :: ProxyConfig
  c_VIP :: VIPConfig
  c_Raft :: RaftConfig
  c_Memberlist :: MemberlistConfig
  c_PostgreSQL :: PGConfig
  c_Failover :: FailoverConfig
  c_API :: APIConfig
  c_Log :: LogConfig
  c_Metrics :: MetricsConfig
  c_Tracing :: TracingConfig

definition CurrentConfigVersion :: int where "CurrentConfigVersion = 1"

definition IsClusterManagementEnabled :: "Config \<Rightarrow> bool" where
  "IsClusterManagementEnabled c \<longleftrightarrow> pg_DataDir (c_PostgreSQL c) \<noteq> ''''"

definition IsFencingEnabled :: "FailoverConfig \<Rightarrow> bool" where
  "IsFencingEnabled f = (case fo_FencingEnabled f of None \<Rightarrow> True | Some b \<Rightarrow> b)"

definition IsSplitBrainProtectionEnabled :: "FailoverConfig \<Rightarrow> bool" where
  "IsSplitBrainProtectionEnabled f = (case fo_SplitBrainProtection f of None \<Rightarrow> True | Some b \<Rightarrow> b)"

section \<open>Defaults\<close>

definition dflt :: "'a \<Rightarrow> 'a \<Rightarrow> 'a \<Rightarrow> 'a" where
  "dflt z v x = (if x = z then v else x)"

definition defaults_Pool :: "PoolConfig \<Rightarrow> PoolConfig" where
  "defaults_Pool p = p\<lparr>
     pl_MaxPoolSize := dflt 0 20 (pl_MaxPoolSize p),
     pl_MinIdleConns := dflt 0 2 (pl_MinIdleConns p),
     pl_IdleTimeout := dflt 0 (5 * Minute) (pl_IdleTimeout p),
     pl_MaxConnLifetime := dflt 0 (30 * Minute) (pl_MaxConnLifetime p),
     pl_HealthCheckPeriod := dflt 0 (30 * Second) (pl_HealthCheckPeriod p),
     pl_AcquireTimeout := dflt 0 (5 * Second) (pl_AcquireTimeout p)\<rparr>"

definition defaults_Proxy :: "ProxyConfig \<Rightarrow> ProxyConfig" where
  "defaults_Proxy p = p\<lparr>
     px_PrimaryPort := dflt 0 5432 (px_PrimaryPort p),
     px_ReplicaPort := dflt 0 5433 (px_ReplicaPort p),
     px_DrainTimeout := dflt 0 (30 * Second) (px_DrainTimeout p),
     px_ConnectTimeout := dflt 0 (5 * Second) (px_ConnectTimeout p),
     px_Pool := defaults_Pool (px_Pool p)\<rparr>"

definition defaults_Raft :: "RaftConfig \<Rightarrow> RaftConfig" where
  "defaults_Raft r = r\<lparr>
     rf_BindPort := dflt 0 8300 (rf_BindPort r),
     rf_LogLevel := dflt '''' ''WARN'' (rf_LogLevel r),
     rf_SnapshotRetain := dflt 0 2 (rf_SnapshotRetain r),
     rf_TransportTimeout := dflt 0 (10 * Second) (rf_TransportTimeout r),
     rf_HeartbeatTimeout := dflt 0 Second (rf_HeartbeatTimeout r),
     rf_ElectionTimeout := dflt 0 Second (rf_ElectionTimeout r)\<rparr>"

definition defaults_API :: "APIConfig \<Rightarrow> APIConfig" where
  "defaults_API a = a\<lparr>
     ap_Port := dflt 0 8080 (ap_Port a),
     ap_BindAddress := dflt '''' ''127.0.0.1'' (ap_BindAddress a),
     ap_ShutdownTimeout := dflt 0 (5 * Second) (ap_ShutdownTimeout a)\<rparr>"

definition defaults_PostgreSQL :: "PGConfig \<Rightarrow> PGConfig" where
  "defaults_PostgreSQL p = p\<lparr>
     pg_Port := dflt 0 5432 (pg_Port p),
     pg_Superuser := dflt '''' ''postgres'' (pg_Superuser p),
     pg_ReplicationUser := dflt '''' ''replicator'' (pg_ReplicationUser p),
     pg_HealthTimeout := dflt 0 (5 * Second) (pg_HealthTimeout p),
     pg_HealthInterval := dflt 0 (2 * Second) (pg_HealthInterval p),
     pg_HealthMaxBackoff := dflt 0 (30 * Second) (pg_HealthMaxBackoff p),
     pg_HealthBackoffMultiplier := dflt 0 2 (pg_HealthBackoffMultiplier p)\<rparr>"

definition defaults_Failover :: "FailoverConfig \<Rightarrow> FailoverConfig" where
  "defaults_Failover f = f\<lparr>
     fo_ConfirmationPeriod := dflt 0 (5 * Second) (fo_ConfirmationPeriod f),
     fo_QuorumLossTimeout := dflt 0 (30 * Second) (fo_QuorumLossTimeout f)\<rparr>"

definition defaults_Tracing :: "TracingConfig \<Rightarrow> TracingConfig" where
  "defaults_Tracing t = t\<lparr>
     tr_Exporter := dflt '''' ''otlp'' (tr_Exporter t),
     tr_Endpoint := dflt '''' ''localhost:4317'' (tr_Endpoint t),
     tr_ServiceName := dflt '''' ''pgbastion'' (tr_ServiceName t),
     tr_SampleRate := (if tr_SampleRate t = 0 \<and> tr_Enabled t then 1 else tr_SampleRate t)\<rparr>"

definition setDefaults :: "Config \<Rightarrow> Config" where
  "setDefaults c = c\<lparr>
     c_Proxy := defaults_Proxy (c_Proxy c),
     c_VIP := (c_VIP c)\<lparr>vp_RenewInterval := dflt 0 (3 * Second) (vp_RenewInterval (c_VIP c))\<rparr>,
     c_Raft := defaults_Raft (c_Raft c),
     c_Memberlist := (c_Memberlist c)\<lparr>ml_BindPort := dflt 0 7946 (ml_BindPort (c_Memberlist c))\<rparr>,
     c_API := defaults_API (c_API c),
     c_Log := (c_Log c)\<lparr>lg_Level := dflt '''' ''info'' (lg_Level (c_Log c))\<rparr>,
     c_Metrics := (c_Metrics c)\<lparr>mt_Port := dflt 0 9090 (mt_Port (c_Metrics c))\<rparr>,
     c_PostgreSQL := defaults_PostgreSQL (c_PostgreSQL c),
     c_Failover := defaults_Failover (c_Failover c),
     c_Tracing := defaults_Tracing (c_Tracing c)\<rparr>"

section \<open>Validation\<close>

datatype port_field = PrimaryPort | ReplicaPort | APIPort | MetricsPort | RaftBindPort
  | MemberlistBindPort | PostgreSQLPort

datatype validation_error =
    VersionTooNew int
  | VersionDeprecated int
  | NodeNameRequired
  | NodeAddressRequired
  | RaftDataDirRequired
  | PortRange port_field
  | ProxyPortsEqual
  | BadVIPAddress string
  | VIPInterfaceRequired
  | PortConflict port_field int port_field
  | RaftMemberlistPortsEqual
  | BinDirRequired
  | BinDirNotAbsolute
  | BinDirBadChars
  | DataDirNotAbsolute
  | DataDirBadChars
  | ConnectDSNRequired
  | DataDirNeedsRaft
  | ConfirmationTooShort
  | BadBindAddress string
  | BadLogLevel string

definition err_if :: "bool \<Rightarrow> validation_error \<Rightarrow> validation_error list" where
  "err_if bad e = (if bad then [e] else [])"

definition bad_port :: "int \<Rightarrow> bool" where
  "bad_port p \<longleftrightarrow> p < 1 \<or> p > 65535"

definition containsShellChars :: "string \<Rightarrow> bool" where
  "containsShellChars path \<longleftrightarrow>
     list_ex (\<lambda>c. c \<in> set path)
       [CHR '';'', CHR ''&'', CHR ''|'', CHR ''$'', CHR 0x60, CHR ''('', CHR '')'', CHR ''{'', CHR ''}'',
        CHR ''<'', CHR ''>'', CHR ''!'', CHR 0x0A, CHR 0x0D]"

definition service_ports :: "Config \<Rightarrow> (int, port_field) fmap" where
  "service_ports c =
     fmupd (mt_Port (c_Metrics c)) MetricsPort
       (fmupd (ap_Port (c_API c)) APIPort
         (fmupd (px_ReplicaPort (c_Proxy c)) ReplicaPort
           (fmupd (px_PrimaryPort (c_Proxy c)) PrimaryPort fmempty)))"

definition check_conflict :: "port_field \<Rightarrow> int \<Rightarrow> Config \<Rightarrow> validation_error list" where
  "check_conflict f p c =
     (case fmlookup (service_ports c) p of None \<Rightarrow> [] | Some g \<Rightarrow> [PortConflict f p g])"

definition validate_version :: "Config \<Rightarrow> validation_error list \<times> Config" where
  "validate_version c =
     (if c_Version c = 0 then ([], c\<lparr>c_Version := CurrentConfigVersion\<rparr>)
      else if c_Version c > CurrentConfigVersion then ([VersionTooNew (c_Version c)], c)
      else if c_Version c < CurrentConfigVersion then ([VersionDeprecated (c_Version c)], c)
      else ([], c))"

definition validate_raft :: "Config \<Rightarrow> validation_error list" where
  "validate_raft c =
     (let bp = rf_BindPort (c_Raft c); mp = ml_BindPort (c_Memberlist c)
      in if rf_DataDir (c_Raft c) = '''' then []
         else err_if (bad_port bp) (PortRange RaftBindPort) @ err_if (bad_port mp) (PortRange MemberlistBindPort)
              @ check_conflict RaftBindPort bp c @ check_conflict MemberlistBindPort mp c
              @ err_if (bp = mp) RaftMemberlistPortsEqual)"

definition validate_postgresql :: "Config \<Rightarrow> validation_error list" where
  "validate_postgresql c =
     (let pg = c_PostgreSQL c
      in if pg_DataDir pg = '''' then []
         else (if pg_BinDir pg = '''' then [BinDirRequired]
               else err_if (\<not> filepath_IsAbs (pg_BinDir pg)) BinDirNotAbsolute
                    @ err_if (containsShellChars (pg_BinDir pg)) BinDirBadChars)
              @ err_if (\<not> filepath_IsAbs (pg_DataDir pg)) DataDirNotAbsolute
              @ err_if (containsShellChars (pg_DataDir pg)) DataDirBadChars
              @ err_if (pg_ConnectDSN pg = '''') ConnectDSNRequired
              @ err_if (rf_DataDir (c_Raft c) = '''') DataDirNeedsRaft
              @ err_if (bad_port (pg_Port pg)) (PortRange PostgreSQLPort)
              @ err_if (fo_ConfirmationPeriod (c_Failover c) < Second) ConfirmationTooShort)"

definition Validate :: "Config \<Rightarrow> validation_error list \<times> Config" where
  "Validate c0 =
     (let (verr, c) = validate_version c0;
          px = c_Proxy c; vip = c_VIP c; api = c_API c; level = lg_Level (c_Log c)
      in (verr
          @ err_if (nc_Name (c_Node c) = '''') NodeNameRequired
          @ err_if (nc_Address (c_Node c) = '''') NodeAddressRequired
          @ err_if (rf_DataDir (c_Raft c) = '''') RaftDataDirRequired
          @ err_if (bad_port (px_PrimaryPort px)) (PortRange PrimaryPort)
          @ err_if (bad_port (px_ReplicaPort px)) (PortRange ReplicaPort)
          @ err_if (px_PrimaryPort px = px_ReplicaPort px) ProxyPortsEqual
          @ (if vp_Address vip = '''' then []
             else err_if (\<not> ParseIP_ok (vp_Address vip)) (BadVIPAddress (vp_Address vip))
                  @ err_if (vp_Interface vip = '''') VIPInterfaceRequired)
          @ validate_raft c
          @ validate_postgresql c
          @ err_if (bad_port (ap_Port api)) (PortRange APIPort)
          @ (if ap_BindAddress api = '''' then []
             else err_if (\<not> ParseIP_ok (ap_BindAddress api)) (BadBindAddress (ap_BindAddress api)))
          @ err_if (\<not> list_ex (\<lambda>l. l = level) [''debug'', ''info'', ''warn'', ''error'']) (BadLogLevel level),
          c))"

section \<open>Loading and reloading\<close>

datatype load_error = ReadError string | ParseError string | ValidationError "validation_error list"

definition Load :: "(string \<Rightarrow> string + 'b) \<Rightarrow> ('b \<Rightarrow> string + Config) \<Rightarrow> string \<Rightarrow> load_error + Config" where
  "Load ReadFile yaml_Unmarshal path =
     (case ReadFile path of Inl e \<Rightarrow> Inl (ReadError e)
      | Inr data \<Rightarrow> (case yaml_Unmarshal data of Inl e \<Rightarrow> Inl (ParseError e)
        | Inr c \<Rightarrow> (case Validate (setDefaults c) of (errs, c') \<Rightarrow>
            if errs \<noteq> [] then Inl (ValidationError errs) else Inr c')))"

definition detectChanges :: "Config \<Rightarrow> Config \<Rightarrow> string list" where
  "detectChanges old new =
     (if lg_Level (c_Log old) \<noteq> lg_Level (c_Log new) then [''log.level''] else [])
     @ (if fo_ConfirmationPeriod (c_Failover old) \<noteq> fo_ConfirmationPeriod (c_Failover new)
        then [''failover.confirmation_period''] else [])
     @ (if fo_MaxLagThreshold (c_Failover old) \<noteq> fo_MaxLagThreshold (c_Failover new)
        then [''failover.max_lag_threshold''] else [])
     @ (if IsFencingEnabled (c_Failover old) \<noteq> IsFencingEnabled (c_Failover new)
        then [''failover.fencing_enabled''] else [])
     @ (if pg_HealthTimeout (c_PostgreSQL old) \<noteq> pg_HealthTimeout (c_PostgreSQL new)
        then [''postgresql.health_timeout''] else [])
     @ (if ap_AuthToken (c_API old) \<noteq> ap_AuthToken (c_API new) then [''api.auth_token''] else [])"

text \<open>The listeners change a state \<open>'s\<close> of their own; they run in the order of registration.\<close>

record 's ReloadableConfig =
  rl_cfg :: Config
  rl_path :: string
  rl_onChange :: "(Config \<Rightarrow> 's \<Rightarrow> 's) list"

definition NewReloadableConfig ::
    "(string \<Rightarrow> load_error + Config) \<Rightarrow> string \<Rightarrow> load_error + 's ReloadableConfig" where
  "NewReloadableConfig load path =
     (case load path of Inl e \<Rightarrow> Inl e
      | Inr c \<Rightarrow> Inr \<lparr>rl_cfg = c, rl_path = path, rl_onChange = []\<rparr>)"

definition OnChange :: "(Config \<Rightarrow> 's \<Rightarrow> 's) \<Rightarrow> 's ReloadableConfig \<Rightarrow> 's ReloadableConfig" where
  "OnChange fn rc = rc\<lparr>rl_onChange := rl_onChange rc @ [fn]\<rparr>"

definition Reload ::
    "(string \<Rightarrow> load_error + Config) \<Rightarrow> 's ReloadableConfig \<Rightarrow> 's
      \<Rightarrow> (load_error + string list) \<times> 's ReloadableConfig \<times> 's" where
  "Reload load rc s =
     (case load (rl_path rc) of Inl e \<Rightarrow> (Inl e, rc, s)
      | Inr newCfg \<Rightarrow>
          (Inr (detectChanges (rl_cfg rc) newCfg), rc\<lparr>rl_cfg := newCfg\<rparr>,
           fold (\<lambda>fn. fn newCfg) (rl_onChange rc) s))"

section \<open>What a loaded configuration guarantees\<close>

definition port_ok :: "int \<Rightarrow> bool" where
  "port_ok p \<longleftrightarrow> 1 \<le> p \<and> p \<le> 65535"

definition safe_path :: "string \<Rightarrow> bool" where
  "safe_path p \<longleftrightarrow> (\<exists>rest. p = ''/'' @ rest) \<and> (\<forall>c \<in> set p. c \<notin> set '';&|$(){}<>!'' \<and> c \<notin> {CHR 0x60, CHR 0x0A, CHR 0x0D})"

definition valid_config :: "Config \<Rightarrow> bool" where
  "valid_config c \<longleftrightarrow>
     (let pp = px_PrimaryPort (c_Proxy c); rp = px_ReplicaPort (c_Proxy c); ap = ap_Port (c_API c);
          mp = mt_Port (c_Metrics c); rb = rf_BindPort (c_Raft c); mb = ml_BindPort (c_Memberlist c);
          pg = c_PostgreSQL c
      in c_Version c = 1 \<and> nc_Name (c_Node c) \<noteq> '''' \<and> nc_Address (c_Node c) \<noteq> '''' \<and>
         rf_DataDir (c_Raft c) \<noteq> '''' \<and>
         port_ok pp \<and> port_ok rp \<and> port_ok ap \<and> port_ok rb \<and> port_ok mb \<and>
         pp \<noteq> rp \<and> rb \<noteq> mb \<and> {rb, mb} \<inter> {pp, rp, ap, mp} = {} \<and>
         (vp_Address (c_VIP c) \<noteq> '''' \<longrightarrow> ParseIP_ok (vp_Address (c_VIP c)) \<and> vp_Interface (c_VIP c) \<noteq> '''') \<and>
         (ap_BindAddress (c_API c) \<noteq> '''' \<longrightarrow> ParseIP_ok (ap_BindAddress (c_API c))) \<and>
         lg_Level (c_Log c) \<in> {''debug'', ''info'', ''warn'', ''error''} \<and>
         (IsClusterManagementEnabled c \<longrightarrow>
            safe_path (pg_BinDir pg) \<and> safe_path (pg_DataDir pg) \<and> pg_ConnectDSN pg \<noteq> '''' \<and>
            port_ok (pg_Port pg) \<and> Second \<le> fo_ConfirmationPeriod (c_Failover c)))"

lemma err_if_Nil [simp]: "err_if b e = [] \<longleftrightarrow> \<not> b"
  by (simp add: err_if_def)

lemma bad_port [simp]: "bad_port p \<longleftrightarrow> \<not> port_ok p"
  by (auto simp: bad_port_def port_ok_def)

lemma safe_path_iff: "safe_path p \<longleftrightarrow> p \<noteq> '''' \<and> filepath_IsAbs p \<and> \<not> containsShellChars p"
proof -
  have "(\<exists>rest. p = ''/'' @ rest) \<longleftrightarrow> filepath_IsAbs p"
    by (cases p) (auto simp: filepath_IsAbs_def)
  moreover have "filepath_IsAbs p \<Longrightarrow> p \<noteq> ''''" by (simp add: filepath_IsAbs_def)
  moreover have "(\<forall>c \<in> set p. c \<notin> set '';&|$(){}<>!'' \<and> c \<notin> {CHR 0x60, CHR 0x0A, CHR 0x0D})
      \<longleftrightarrow> \<not> containsShellChars p"
    by (auto simp: containsShellChars_def)
  ultimately show ?thesis unfolding safe_path_def by blast
qed

lemma check_conflict_Nil:
  "check_conflict f p c = [] \<longleftrightarrow>
     p \<notin> {px_PrimaryPort (c_Proxy c), px_ReplicaPort (c_Proxy c), ap_Port (c_API c), mt_Port (c_Metrics c)}"
  by (auto simp: check_conflict_def service_ports_def)

lemma validate_raft_Nil:
  "rf_DataDir (c_Raft c) \<noteq> '''' \<Longrightarrow> validate_raft c = [] \<longleftrightarrow>
     port_ok (rf_BindPort (c_Raft c)) \<and> port_ok (ml_BindPort (c_Memberlist c)) \<and>
     rf_BindPort (c_Raft c) \<noteq> ml_BindPort (c_Memberlist c) \<and>
     {rf_BindPort (c_Raft c), ml_BindPort (c_Memberlist c)} \<inter>
       {px_PrimaryPort (c_Proxy c), px_ReplicaPort (c_Proxy c), ap_Port (c_API c), mt_Port (c_Metrics c)} = {}"
  by (auto simp: validate_raft_def Let_def check_conflict_Nil)

lemma validate_postgresql_Nil:
  "rf_DataDir (c_Raft c) \<noteq> '''' \<Longrightarrow> validate_postgresql c = [] \<longleftrightarrow>
     (IsClusterManagementEnabled c \<longrightarrow>
        safe_path (pg_BinDir (c_PostgreSQL c)) \<and> safe_path (pg_DataDir (c_PostgreSQL c)) \<and>
        pg_ConnectDSN (c_PostgreSQL c) \<noteq> '''' \<and> port_ok (pg_Port (c_PostgreSQL c)) \<and>
        Second \<le> fo_ConfirmationPeriod (c_Failover c))"
  by (auto simp: validate_postgresql_def Let_def safe_path_iff IsClusterManagementEnabled_def)

lemma validate_version_Nil:
  "fst (validate_version c) = [] \<longleftrightarrow> c_Version c \<in> {0, 1}"
  "snd (validate_version c) = (if c_Version c = 0 then c\<lparr>c_Version := 1\<rparr> else c)"
  by (auto simp: validate_version_def CurrentConfigVersion_def)

lemma validate_version_simps [simp]:
  "rf_DataDir (c_Raft (snd (validate_version c))) = rf_DataDir (c_Raft c)"
  by (simp add: validate_version_Nil)

lemma Validate_snd: "snd (Validate c) = snd (validate_version c)"
  by (simp add: Validate_def Let_def split: prod.split)

text \<open>
  (C12) Validation accepts exactly the valid configurations: the ones of the current
  version (or with no version, which then is the current one) whose names and paths are
  set, whose ports are in range, with the Raft and gossip ports apart from each other and
  from every service port, whose addresses are IP addresses, and whose PostgreSQL paths
  are absolute and free of shell characters when cluster management is on.
\<close>

theorem validate_iff:
  "fst (Validate c) = [] \<longleftrightarrow> valid_config (snd (Validate c))"
proof -
  obtain verr c' where v: "validate_version c = (verr, c')" by fastforce
  have ver: "verr = [] \<longleftrightarrow> c_Version c' = 1"
    using v validate_version_Nil [of c] by (auto simp: validate_version_def CurrentConfigVersion_def split: if_splits)
  have level: "list_ex (\<lambda>l. l = lg_Level (c_Log c')) [''debug'', ''info'', ''warn'', ''error'']
      \<longleftrightarrow> lg_Level (c_Log c') \<in> {''debug'', ''info'', ''warn'', ''error''}"
    by auto
  show ?thesis
  proof (cases "rf_DataDir (c_Raft c') = ''''")
    case True
    then show ?thesis by (simp add: Validate_def v Let_def valid_config_def)
  next
    case False
    then show ?thesis
      unfolding Validate_def v Let_def valid_config_def prod.case fst_conv snd_conv append_is_Nil_conv
        validate_raft_Nil [OF False] validate_postgresql_Nil [OF False] err_if_Nil level ver
      by auto
  qed
qed

text \<open>
  A configuration that Load returns is valid, whatever the file holds and whatever
  the YAML library makes of it, and nothing is returned in any other case.
\<close>

theorem load_valid:
  assumes "Load ReadFile yaml_Unmarshal path = Inr c"
  shows "valid_config c \<and> (\<exists>data c0. ReadFile path = Inr data \<and> yaml_Unmarshal data = Inr c0 \<and>
    c = snd (Validate (setDefaults c0)))"
  using assms validate_iff
  by (auto simp: Load_def split: sum.splits prod.splits if_splits) (metis fst_conv snd_conv)+

section \<open>Defaults\<close>

lemma dflt_idem [simp]: "dflt z v (dflt z v x) = dflt z v x"
  by (simp add: dflt_def)

definition config_ports :: "Config \<Rightarrow> int list" where
  "config_ports c = [px_PrimaryPort (c_Proxy c), px_ReplicaPort (c_Proxy c), rf_BindPort (c_Raft c),
     ml_BindPort (c_Memberlist c), ap_Port (c_API c), mt_Port (c_Metrics c), pg_Port (c_PostgreSQL c)]"

text \<open>
  Filling in defaults twice is filling them in once; it never touches the settings
  that have no default, keeps every port the user set, and leaves no port unset.
\<close>

theorem setDefaults_idem:
  "setDefaults (setDefaults c) = setDefaults c \<and>
   c_Node (setDefaults c) = c_Node c \<and> c_Cluster (setDefaults c) = c_Cluster c \<and>
   rf_DataDir (c_Raft (setDefaults c)) = rf_DataDir (c_Raft c) \<and>
   fo_FencingEnabled (c_Failover (setDefaults c)) = fo_FencingEnabled (c_Failover c) \<and>
   fo_SplitBrainProtection (c_Failover (setDefaults c)) = fo_SplitBrainProtection (c_Failover c) \<and>
   ap_AuthToken (c_API (setDefaults c)) = ap_AuthToken (c_API c) \<and>
   list_all2 (\<lambda>old new. new \<noteq> 0 \<and> (old = 0 \<or> new = old)) (config_ports c) (config_ports (setDefaults c))"
  by (simp add: config_ports_def setDefaults_def defaults_Proxy_def defaults_Pool_def defaults_Raft_def defaults_API_def
      defaults_PostgreSQL_def defaults_Failover_def defaults_Tracing_def dflt_def)

section \<open>Reload\<close>

text \<open>
  Reloading is all or nothing: on an error the configuration in use and the listeners'
  state are unchanged; otherwise the loaded configuration is in use, every listener has
  been called with it once, in order, and the report is empty exactly when none of the
  settings that can change at run time changed.
\<close>

theorem reload_spec:
  "case Reload load rc s of (res, rc', s') \<Rightarrow>
     (case load (rl_path rc) of
        Inl e \<Rightarrow> res = Inl e \<and> rc' = rc \<and> s' = s
      | Inr c \<Rightarrow> rl_cfg rc' = c \<and> rl_onChange rc' = rl_onChange rc \<and>
          s' = foldl (\<lambda>t fn. fn c t) s (rl_onChange rc) \<and>
          (res = Inr [] \<longleftrightarrow>
             lg_Level (c_Log c) = lg_Level (c_Log (rl_cfg rc)) \<and>
             fo_ConfirmationPeriod (c_Failover c) = fo_ConfirmationPeriod (c_Failover (rl_cfg rc)) \<and>
             fo_MaxLagThreshold (c_Failover c) = fo_MaxLagThreshold (c_Failover (rl_cfg rc)) \<and>
             IsFencingEnabled (c_Failover c) = IsFencingEnabled (c_Failover (rl_cfg rc)) \<and>
             pg_HealthTimeout (c_PostgreSQL c) = pg_HealthTimeout (c_PostgreSQL (rl_cfg rc)) \<and>
             ap_AuthToken (c_API c) = ap_AuthToken (c_API (rl_cfg rc))))"
  by (auto simp: Reload_def detectChanges_def foldl_conv_fold split: sum.split)

section \<open>A concrete configuration\<close>

definition zero_Config :: Config where
  "zero_Config = \<lparr>c_Version = 0, c_Node = \<lparr>nc_Name = '''', nc_Address = ''''\<rparr>, c_Cluster = \<lparr>pr_Peers = []\<rparr>,
     c_Proxy = \<lparr>px_PrimaryPort = 0, px_ReplicaPort = 0, px_DrainTimeout = 0, px_ConnectTimeout = 0,
       px_Pool = \<lparr>pl_Enabled = False, pl_MaxPoolSize = 0, pl_MinIdleConns = 0, pl_IdleTimeout = 0,
         pl_MaxConnLifetime = 0, pl_HealthCheckPeriod = 0, pl_AcquireTimeout = 0\<rparr>\<rparr>,
     c_VIP = \<lparr>vp_Address = '''', vp_Interface = '''', vp_RenewInterval = 0\<rparr>,
     c_Raft = \<lparr>rf_DataDir = '''', rf_BindPort = 0, rf_Bootstrap = False, rf_LogLevel = '''', rf_SnapshotRetain = 0,
       rf_TransportTimeout = 0, rf_HeartbeatTimeout = 0, rf_ElectionTimeout = 0, rf_TLSEnabled = False,
       rf_TLSCert = '''', rf_TLSKey = '''', rf_TLSCA = ''''\<rparr>,
     c_Memberlist = \<lparr>ml_BindPort = 0\<rparr>,
     c_PostgreSQL = \<lparr>pg_BinDir = '''', pg_DataDir = '''', pg_Port = 0, pg_Superuser = '''', pg_ReplicationUser = '''',
       pg_ConnectDSN = '''', pg_HealthTimeout = 0, pg_HealthInterval = 0, pg_HealthMaxBackoff = 0,
       pg_HealthBackoffMultiplier = 0\<rparr>,
     c_Failover = \<lparr>fo_ConfirmationPeriod = 0, fo_MaxLagThreshold = 0, fo_FencingEnabled = None,
       fo_QuorumLossTimeout = 0, fo_SplitBrainProtection = None\<rparr>,
     c_API = \<lparr>ap_Port = 0, ap_BindAddress = '''', ap_AuthToken = '''', ap_ShutdownTimeout = 0, ap_TLSCert = '''',
       ap_TLSKey = ''''\<rparr>,
     c_Log = \<lparr>lg_Level = ''''\<rparr>, c_Metrics = \<lparr>mt_Port = 0\<rparr>,
     c_Tracing = \<lparr>tr_Enabled = False, tr_Exporter = '''', tr_Endpoint = '''', tr_ServiceName = '''',
       tr_SampleRate = 0, tr_Insecure = False\<rparr>\<rparr>"

definition ex_config :: Config where
  "ex_config = snd (Validate (setDefaults (zero_Config\<lparr>c_Node := \<lparr>nc_Name = ''n1'', nc_Address = ''10.0.0.1''\<rparr>,
     c_Raft := (c_Raft zero_Config)\<lparr>rf_DataDir := ''/raft''\<rparr>,
     c_PostgreSQL := (c_PostgreSQL zero_Config)\<lparr>pg_BinDir := ''/bin'', pg_DataDir := ''/pg'', pg_ConnectDSN := ''x''\<rparr>\<rparr>)))"

theorem load_valid_witness: "valid_config ex_config"
proof -
  have "Load (\<lambda>_. Inr ()) (\<lambda>_. Inr ex_config) ''f'' = Inr ex_config" by code_simp
  then show ?thesis using load_valid by blast
qed

end
