(* ===== verification/Failover.thy ===== *)
theory Failover
  imports StoreProps Config
begin

text \<open>
  The failover controller, src/internal/cluster/failover.go. It publishes directives to
  the replicated state and watches them; the nodes they target carry them out.

  The operations that take the controller's mutex do so around field updates only, so
  each access is a step of its own here. Waiting loops take fuel, one unit per turn of
  the loop; \<open>Waiting\<close> means that the fuel ran out before the loop returned.
\<close>

section \<open>State\<close>

record fworld = world +
  f_cfg :: Config
  f_has_store :: bool
  failoverInFlight :: bool
  activeDirectiveIDs :: "string list"
  failoverStartTime :: time
  confirmationStart :: time

definition DefaultDirectiveTimeout :: duration where "DefaultDirectiveTimeout = 60 * Second"

definition DefaultSwitchoverSyncTimeout :: duration where "DefaultSwitchoverSyncTimeout = 30 * Second"

definition SwitchoverMaxLagBytes :: int where "SwitchoverMaxLagBytes = 0"

datatype wait_error = CtxErr | DirectiveNotFound string | DirectiveFailed string

datatype failover_error =
    NoConsensusStore
  | NoReplicasAvailable
  | NoSuitableReplica
  | SelectingTarget failover_error
  | PublishingFence string string go_error
  | PublishingPromote string string go_error
  | SwitchoverPublishingPromote go_error
  | PublishingCheckpoint go_error
  | CheckpointFailed wait_error
  | ReplicaSyncFailed wait_error
  | PublishingDemote go_error

datatype 'e waited = Waiting | Returned 'e

text \<open>Nanoseconds since 1970, which is 62135596800 seconds after the zero time.\<close>

definition UnixNano :: "time \<Rightarrow> int" where
  "UnixNano t = wrap64 (t - 62135596800 * Second)"

definition directive_id :: "string \<Rightarrow> string \<Rightarrow> time \<Rightarrow> string" where
  "directive_id kind node now = kind @ ''-'' @ node @ ''-'' @ show_int (UnixNano now)"

definition new_directive :: "string \<Rightarrow> string \<Rightarrow> string \<Rightarrow> string gomap \<Rightarrow> time \<Rightarrow> Directive" where
  "new_directive i ty node params now = \<lparr>d_ID = i, d_Type = ty, d_TargetNode = node, d_Params = params,
     d_Status = DirectiveStatusPending, d_CreatedAt = now, d_CompletedAt = zero_time, d_Error = ''''\<rparr>"

section \<open>Operations\<close>

definition UpdateConfig :: "Config \<Rightarrow> ('z fworld_scheme, unit) state" where
  "UpdateConfig cfg = modify (f_cfg_update (\<lambda>_. cfg))"

definition IsFailoverInFlight :: "('z fworld_scheme, bool) state" where
  "IsFailoverInFlight = gets failoverInFlight"

definition ShouldFailover :: "env \<Rightarrow> NodeInfo \<Rightarrow> ('z fworld_scheme, bool) state" where
  "ShouldFailover E primaryNode = do {
     inFlight \<leftarrow> gets failoverInFlight;
     if inFlight then return False
     else do {
       staleness \<leftarrow> time_Now E;
       cs \<leftarrow> gets confirmationStart;
       if IsZero cs then do {
         now \<leftarrow> time_Now E;
         modify (confirmationStart_update (\<lambda>_. now));
         return False }
       else do {
         now \<leftarrow> time_Now E;
         cfg \<leftarrow> gets f_cfg;
         let elapsed = time_sub now cs;
         return (\<not> elapsed < fo_ConfirmationPeriod (c_Failover cfg)) } } }"

definition clearFailover :: "('z fworld_scheme, unit) state" where
  "clearFailover = modify (\<lambda>w. w\<lparr>failoverInFlight := False, activeDirectiveIDs := [],
     failoverStartTime := zero_time, confirmationStart := zero_time\<rparr>)"

definition startFailover :: "env \<Rightarrow> ('z fworld_scheme, unit) state" where
  "startFailover E = do {
     modify (\<lambda>w. w\<lparr>failoverInFlight := True, activeDirectiveIDs := []\<rparr>);
     now \<leftarrow> time_Now E;
     modify (failoverStartTime_update (\<lambda>_. now)) }"

definition publishFence :: "env \<Rightarrow> string \<Rightarrow> time \<Rightarrow> ('z fworld_scheme, failover_error + string list) state" where
  "publishFence E failedPrimary now = do {
     cfg \<leftarrow> gets f_cfg;
     if IsFencingEnabled (c_Failover cfg) then do {
       let fenceID = directive_id ''fence'' failedPrimary now;
       err \<leftarrow> PublishDirective E (new_directive fenceID DirectiveFence failedPrimary None now);
       return (case err of Some e \<Rightarrow> Inl (PublishingFence fenceID failedPrimary e) | None \<Rightarrow> Inr [fenceID]) }
     else return (Inr []) }"

definition publishFailoverDirectives ::
    "env \<Rightarrow> string \<Rightarrow> string \<Rightarrow> ('z fworld_scheme, failover_error option) state" where
  "publishFailoverDirectives E failedPrimary targetNode = do {
     hs \<leftarrow> gets f_has_store;
     if \<not> hs then do { clearFailover; return (Some NoConsensusStore) }
     else do {
       now \<leftarrow> time_Now E;
       fenced \<leftarrow> publishFence E failedPrimary now;
       case fenced of
         Inl e \<Rightarrow> do { clearFailover; return (Some e) }
       | Inr ids \<Rightarrow> do {
           let promoteID = directive_id ''promote'' targetNode now;
           err \<leftarrow> PublishDirective E (new_directive promoteID DirectivePromote targetNode None now);
           case err of
             Some e \<Rightarrow> do { clearFailover; return (Some (PublishingPromote promoteID targetNode e)) }
           | None \<Rightarrow> do {
               modify (activeDirectiveIDs_update (\<lambda>_. ids @ [promoteID]));
               return None } } } }"

fun best_loop :: "string \<Rightarrow> NodeInfo option \<Rightarrow> NodeInfo list \<Rightarrow> NodeInfo option" where
  "best_loop excludeName best [] = best"
| "best_loop excludeName best (r # rs) =
     (if ni_Name r = excludeName then best_loop excludeName best rs
      else case best of
          None \<Rightarrow> best_loop excludeName (Some r) rs
        | Some b \<Rightarrow> best_loop excludeName (Some (if ni_Lag r < ni_Lag b then r else b)) rs)"

definition pick_best :: "string \<Rightarrow> NodeInfo list \<Rightarrow> failover_error + NodeInfo" where
  "pick_best excludeName replicas =
     (if replicas = [] then Inl NoReplicasAvailable
      else case best_loop excludeName None replicas of
          None \<Rightarrow> Inl NoSuitableReplica
        | Some best \<Rightarrow> Inr best)"

definition selectBestReplica :: "env \<Rightarrow> string \<Rightarrow> ('z fworld_scheme, failover_error + NodeInfo) state" where
  "selectBestReplica E excludeName = do {
     hs \<leftarrow> gets f_has_store;
     if \<not> hs then return (Inl NoConsensusStore)
     else do {
       replicas \<leftarrow> read_fsm E GetReplicas;
       return (pick_best excludeName replicas) } }"

definition ExecuteFailover :: "env \<Rightarrow> string \<Rightarrow> ('z fworld_scheme, failover_error option) state" where
  "ExecuteFailover E failedPrimary = do {
     startFailover E;
     target \<leftarrow> selectBestReplica E failedPrimary;
     case target of
       Inl e \<Rightarrow> do { clearFailover; return (Some (SelectingTarget e)) }
     | Inr n \<Rightarrow> publishFailoverDirectives E failedPrimary (ni_Name n) }"

definition ExecuteFailoverTo :: "env \<Rightarrow> string \<Rightarrow> string \<Rightarrow> ('z fworld_scheme, failover_error option) state" where
  "ExecuteFailoverTo E failedPrimary targetNode = do {
     startFailover E;
     publishFailoverDirectives E failedPrimary targetNode }"

section \<open>Waiting\<close>

fun waitForDirective :: "env \<Rightarrow> nat \<Rightarrow> string \<Rightarrow> ('z fworld_scheme, wait_error option waited) state" where
  "waitForDirective E 0 directiveID = return Waiting"
| "waitForDirective E (Suc n) directiveID = do {
     ctxDone \<leftarrow> ctx_Done E;
     if ctxDone then return (Returned (Some CtxErr))
     else do {
       d \<leftarrow> Store_GetDirective E directiveID;
       case d of
         None \<Rightarrow> return (Returned (Some (DirectiveNotFound directiveID)))
       | Some d \<Rightarrow>
           if d_Status d = DirectiveStatusCompleted then return (Returned None)
           else if d_Status d = DirectiveStatusFailed then return (Returned (Some (DirectiveFailed (d_Error d))))
           else waitForDirective E n directiveID } }"

fun waitForReplicaSync :: "env \<Rightarrow> nat \<Rightarrow> string \<Rightarrow> int \<Rightarrow> ('z fworld_scheme, wait_error option waited) state" where
  "waitForReplicaSync E 0 replicaName maxLag = return Waiting"
| "waitForReplicaSync E (Suc n) replicaName maxLag = do {
     ctxDone \<leftarrow> ctx_Done E;
     if ctxDone then return (Returned (Some CtxErr))
     else do {
       nodes \<leftarrow> read_fsm E (\<lambda>r. GetAllNodes);
       case fmlookup nodes replicaName of
         None \<Rightarrow> waitForReplicaSync E n replicaName maxLag
       | Some replica \<Rightarrow>
           if ni_Lag replica \<le> maxLag then return (Returned None)
           else waitForReplicaSync E n replicaName maxLag } }"

section \<open>Switchover\<close>

definition publishDemotePromote ::
    "env \<Rightarrow> string \<Rightarrow> string \<Rightarrow> string list \<Rightarrow> ('z fworld_scheme, failover_error option) state" where
  "publishDemotePromote E currentPrimary targetNode ids = do {
     now \<leftarrow> time_Now E;
     let demoteID = directive_id ''demote'' currentPrimary now;
     err \<leftarrow> PublishDirective E (new_directive demoteID DirectiveDemote currentPrimary
         (Some (fmupd ''target_primary'' targetNode fmempty)) now);
     case err of
       Some e \<Rightarrow> do { clearFailover; return (Some (PublishingDemote e)) }
     | None \<Rightarrow> do {
         let promoteID = directive_id ''promote'' targetNode now;
         err \<leftarrow> PublishDirective E (new_directive promoteID DirectivePromote targetNode None now);
         case err of
           Some e \<Rightarrow> do { clearFailover; return (Some (SwitchoverPublishingPromote e)) }
         | None \<Rightarrow> do {
             modify (activeDirectiveIDs_update (\<lambda>_. ids @ [demoteID, promoteID]));
             return None } } }"

definition ExecuteSwitchover ::
    "env \<Rightarrow> nat \<Rightarrow> string \<Rightarrow> string \<Rightarrow> ('z fworld_scheme, failover_error option waited) state" where
  "ExecuteSwitchover E fuel currentPrimary targetNode = do {
     hs \<leftarrow> gets f_has_store;
     if \<not> hs then return (Returned (Some NoConsensusStore))
     else do {
       startFailover E;
       now \<leftarrow> time_Now E;
       let checkpointID = directive_id ''checkpoint'' currentPrimary now;
       err \<leftarrow> PublishDirective E (new_directive checkpointID DirectiveCheckpoint currentPrimary None now);
       case err of
         Some e \<Rightarrow> do { clearFailover; return (Returned (Some (PublishingCheckpoint e))) }
       | None \<Rightarrow> do {
           waited \<leftarrow> waitForDirective E fuel checkpointID;
           case waited of
             Waiting \<Rightarrow> return Waiting
           | Returned (Some e) \<Rightarrow> do { clearFailover; return (Returned (Some (CheckpointFailed e))) }
           | Returned None \<Rightarrow> do {
               synced \<leftarrow> waitForReplicaSync E fuel targetNode SwitchoverMaxLagBytes;
               case synced of
                 Waiting \<Rightarrow> return Waiting
               | Returned (Some e) \<Rightarrow> do { clearFailover; return (Returned (Some (ReplicaSyncFailed e))) }
               | Returned None \<Rightarrow> do {
                   res \<leftarrow> publishDemotePromote E currentPrimary targetNode [checkpointID];
                   return (Returned res) } } } } }"

section \<open>Monitoring\<close>

fun monitor_loop :: "env \<Rightarrow> duration \<Rightarrow> bool \<Rightarrow> string list \<Rightarrow> bool \<Rightarrow> ('z fworld_scheme, bool) state" where
  "monitor_loop E elapsed timedOut [] allDone = return allDone"
| "monitor_loop E elapsed timedOut (i # ids) allDone = do {
     d \<leftarrow> Store_GetDirective E i;
     case d of
       None \<Rightarrow> monitor_loop E elapsed timedOut ids allDone
     | Some d \<Rightarrow>
         if d_Status d = DirectiveStatusPending then
           if timedOut then do {
             err \<leftarrow> CompleteDirective E i (''directive timed out after '' @ Duration_String elapsed);
             monitor_loop E elapsed timedOut ids allDone }
           else monitor_loop E elapsed timedOut ids False
         else monitor_loop E elapsed timedOut ids allDone }"

definition MonitorDirectives :: "env \<Rightarrow> ('z fworld_scheme, bool) state" where
  "MonitorDirectives E = do {
     inFlight \<leftarrow> gets failoverInFlight;
     ids \<leftarrow> gets activeDirectiveIDs;
     startTime \<leftarrow> gets failoverStartTime;
     if \<not> inFlight \<or> ids = [] then return False
     else do {
       hs \<leftarrow> gets f_has_store;
       if \<not> hs then return False
       else do {
         now \<leftarrow> time_Now E;
         let elapsed = time_sub now startTime;
         let timedOut = elapsed > DefaultDirectiveTimeout;
         allDone \<leftarrow> monitor_loop E elapsed timedOut ids True;
         if allDone \<or> timedOut then do { clearFailover; return True }
         else return False } } }"

end
