(* ===== verification/FailoverProps.thy ===== *)
theory FailoverProps
  imports Failover
begin

text \<open>
  Correctness of the failover controller: which directives it publishes and in which
  order, what every error path leaves behind, the choice of the new primary, the
  confirmation period, and that a failover in flight ends.
\<close>

section \<open>Choosing the new primary\<close>

lemma best_loop_spec:
  "best_loop x best rs = Some b \<Longrightarrow>
     (Some b = best \<or> b \<in> set rs \<and> ni_Name b \<noteq> x) \<and>
     (\<forall>r \<in> set rs. ni_Name r \<noteq> x \<longrightarrow> ni_Lag b \<le> ni_Lag r) \<and>
     (\<forall>b'. best = Some b' \<longrightarrow> ni_Lag b \<le> ni_Lag b')"
proof (induction rs arbitrary: best)
  case Nil
  then show ?case by simp
next
  case (Cons r rs)
  show ?case
  proof (cases "ni_Name r = x")
    case True
    with Cons show ?thesis by auto
  next
    case False
    define best' where "best' = (case best of None \<Rightarrow> r | Some c \<Rightarrow> if ni_Lag r < ni_Lag c then r else c)"
    from False Cons.prems have "best_loop x (Some best') rs = Some b"
      by (auto simp: best'_def split: option.splits)
    from Cons.IH [OF this] False show ?thesis
      by (auto simp: best'_def split: option.splits if_splits)
  qed
qed

lemma best_loop_None: "best_loop x best rs = None \<longleftrightarrow> best = None \<and> (\<forall>r \<in> set rs. ni_Name r = x)"
  by (induction rs arbitrary: best) (auto split: option.splits)

lemma GetReplicas_set:
  "is_ranger r \<Longrightarrow> n \<in> set (GetReplicas r s) \<longleftrightarrow> (\<exists>k. mget (Nodes s) k = Some n) \<and> ni_Role n = ''replica''"
  by (auto simp: GetReplicas_def range_vals_set)

text \<open>
  (C9) The failover target is a registered replica other than the failed primary with the
  smallest lag of all of these; selection fails exactly when there is no such replica.
\<close>

theorem best_replica_minimal:
  assumes "is_ranger (e_ranger E (w_k w))" and "f_has_store w"
  shows "let s = apply_log (e_arrive E (w_k w)) (w_fsm w);
             elig = {n. (\<exists>k. mget (Nodes s) k = Some n) \<and> ni_Role n = ''replica'' \<and> ni_Name n \<noteq> x}
    in case fst (run_state (selectBestReplica E x) w) of
         Inl e \<Rightarrow> elig = {}
       | Inr b \<Rightarrow> b \<in> elig \<and> (\<forall>n. n \<notin> elig \<or> ni_Lag b \<le> ni_Lag n)"
proof -
  define s where "s = apply_log (e_arrive E (w_k w)) (w_fsm w)"
  let ?l = "GetReplicas (e_ranger E (w_k w)) s"
  have run: "fst (run_state (selectBestReplica E x) w) = pick_best x ?l"
    using assms(2) by (simp add: selectBestReplica_def s_def)
  have mem: "n \<in> set ?l \<longleftrightarrow> (\<exists>k. mget (Nodes s) k = Some n) \<and> ni_Role n = ''replica''" for n
    by (rule GetReplicas_set [OF assms(1)])
  show ?thesis
  proof (cases "best_loop x None ?l")
    case None
    then have "\<forall>r \<in> set ?l. ni_Name r = x" by (simp add: best_loop_None)
    with None mem show ?thesis by (auto simp: run pick_best_def Let_def simp flip: s_def)
  next
    case (Some b)
    with best_loop_spec [OF Some] mem show ?thesis
      by (auto simp: run pick_best_def Let_def simp flip: s_def)
  qed
qed

section \<open>What operations keep\<close>

text \<open>Nothing in the controller changes its configuration or its store.\<close>

definition same_setup :: "Config \<Rightarrow> bool \<Rightarrow> 'z fworld_scheme \<Rightarrow> bool" where
  "same_setup c b w \<longleftrightarrow> f_cfg w = c \<and> f_has_store w = b"

lemma more_fields:
  assumes "world.more w' = world.more (w :: 'z fworld_scheme)"
  shows "f_cfg w' = f_cfg w" "f_has_store w' = f_has_store w" "failoverInFlight w' = failoverInFlight w"
    "activeDirectiveIDs w' = activeDirectiveIDs w" "failoverStartTime w' = failoverStartTime w"
    "confirmationStart w' = confirmationStart w" "fworld.more w' = fworld.more w"
  using assms by (cases w; cases w'; simp)+

lemma arrive_fields [simp]:
  fixes w :: "'z fworld_scheme"
  shows "f_cfg (arrive E w) = f_cfg w" "f_has_store (arrive E w) = f_has_store w"
    "failoverInFlight (arrive E w) = failoverInFlight w" "activeDirectiveIDs (arrive E w) = activeDirectiveIDs w"
    "failoverStartTime (arrive E w) = failoverStartTime w" "confirmationStart (arrive E w) = confirmationStart w"
    "fworld.more (arrive E w) = fworld.more w"
  by (simp_all add: arrive_def)

section \<open>Publishing one directive\<close>

definition publish_entry :: "Directive \<Rightarrow> json" where
  "publish_entry d = JObj [(''type'', JStr CmdPublishDirective), (''data'', projr (enc_Directive d))]"

lemma Store_apply_cases:
  assumes "run_state (Store_apply E cmd) w = (err, w')"
  shows "world.more w' = world.more w"
    and "err = None \<Longrightarrow> w_trace w' = w_trace w @ [Committed (projr (enc_FSMCommand cmd))]"
    and "(\<And>now r s. fst (apply_command now r cmd s) = RNil) \<Longrightarrow> cmd_Data cmd \<noteq> None \<Longrightarrow> err \<noteq> None \<Longrightarrow>
      w_trace w' = w_trace w"
proof -
  obtain data where data: "enc_FSMCommand cmd = Inr data" using enc_FSMCommand_ok by blast
  show "world.more w' = world.more w"
    "err = None \<Longrightarrow> w_trace w' = w_trace w @ [Committed (projr (enc_FSMCommand cmd))]"
    using assms data
    by (auto simp: Store_apply_def raft_Apply_def split: if_splits option.splits prod.splits fsm_response.splits)
  assume nil: "\<And>now r s. fst (apply_command now r cmd s) = RNil" and "cmd_Data cmd \<noteq> None" "err \<noteq> None"
  have "fst (Apply now r (Some data) s) = RNil" for now r s
    using dec_enc_FSMCommand [OF data \<open>cmd_Data cmd \<noteq> None\<close>] nil by (simp add: Apply_def Unmarshal_def)
  then have "Apply now r (Some data) s \<noteq> (RErr e, t)" "Apply now r (Some data) s \<noteq> (RPanic, t)" for now r s e t
    by (metis fst_conv fsm_response.distinct)+
  with assms data \<open>err \<noteq> None\<close> show "w_trace w' = w_trace w"
    by (auto simp: Store_apply_def raft_Apply_def split: if_splits option.splits prod.splits fsm_response.splits)
qed

lemma PublishDirective_cases:
  assumes "run_state (PublishDirective E d) w = (err, w')"
  shows "world.more w' = world.more w"
    and "w_trace w' = (if err = None then w_trace w @ [Committed (publish_entry d)] else w_trace w)"
proof -
  have "world.more w' = world.more w \<and>
    w_trace w' = (if err = None then w_trace w @ [Committed (publish_entry d)] else w_trace w)"
  proof (cases "enc_Directive d")
    case (Inl e)
    with assms show ?thesis by (auto simp: PublishDirective_def write_command_def)
  next
    case (Inr j)
    let ?cmd = "\<lparr>cmd_Type = CmdPublishDirective, cmd_Data = Some j\<rparr>"
    from assms Inr have run: "run_state (Store_apply E ?cmd) w = (err, w')"
      by (simp add: PublishDirective_def write_command_def)
    have "fst (apply_command now r ?cmd s) = RNil" for now r s
      using dec_enc_Directive [OF Inr]
      by (simp add: apply_command_def with_payload_def Unmarshal_def apply_PublishDirective_def Let_def)
    with Store_apply_cases [OF run] Inr show ?thesis
      by (auto simp: publish_entry_def enc_FSMCommand_def wire_simps)
  qed
  then show "world.more w' = world.more w"
    and "w_trace w' = (if err = None then w_trace w @ [Committed (publish_entry d)] else w_trace w)"
    by blast+
qed

section \<open>Failover\<close>

definition cleared :: "'z fworld_scheme \<Rightarrow> bool" where
  "cleared w \<longleftrightarrow> \<not> failoverInFlight w \<and> activeDirectiveIDs w = [] \<and> failoverStartTime w = zero_time \<and>
     confirmationStart w = zero_time"

definition fence_of :: "string \<Rightarrow> time \<Rightarrow> Directive" where
  "fence_of p now = new_directive (directive_id ''fence'' p now) DirectiveFence p None now"

definition promote_of :: "string \<Rightarrow> time \<Rightarrow> Directive" where
  "promote_of t now = new_directive (directive_id ''promote'' t now) DirectivePromote t None now"

lemma run_clearFailover [simp]:
  "run_state clearFailover w = ((), w\<lparr>failoverInFlight := False, activeDirectiveIDs := [],
     failoverStartTime := zero_time, confirmationStart := zero_time\<rparr>)"
  by (simp add: clearFailover_def)

definition published_failover ::
    "string \<Rightarrow> string \<Rightarrow> 'z fworld_scheme \<Rightarrow> failover_error option \<Rightarrow> 'z fworld_scheme \<Rightarrow> bool" where
  "published_failover p t w res w' \<longleftrightarrow>
     (\<exists>now. let fence = (if IsFencingEnabled (c_Failover (f_cfg w)) then [fence_of p now] else []);
                promote = promote_of t now
       in if res = None
          then w_trace w' = w_trace w @ map (Committed \<circ> publish_entry) (fence @ [promote]) \<and>
               activeDirectiveIDs w' = map d_ID (fence @ [promote]) \<and> failoverInFlight w' = failoverInFlight w
          else cleared w' \<and> (\<exists>n. w_trace w' = w_trace w @ take n (map (Committed \<circ> publish_entry) fence)))"

lemma publishFence_cases:
  assumes run: "run_state (publishFence E p now) w = (fr, w')"
  shows "world.more w' = world.more w \<and>
    (case fr of
       Inl e \<Rightarrow> w_trace w' = w_trace w
     | Inr ids \<Rightarrow> if IsFencingEnabled (c_Failover (f_cfg w))
         then ids = [d_ID (fence_of p now)] \<and> w_trace w' = w_trace w @ [Committed (publish_entry (fence_of p now))]
         else ids = [] \<and> w_trace w' = w_trace w)"
proof (cases "IsFencingEnabled (c_Failover (f_cfg w))")
  case True
  obtain err w2 where pd: "run_state (PublishDirective E (fence_of p now)) w = (err, w2)" by fastforce
  with run True have "w' = w2" "fr = (case err of Some e \<Rightarrow> Inl (PublishingFence (d_ID (fence_of p now)) p e)
      | None \<Rightarrow> Inr [d_ID (fence_of p now)])"
    by (auto simp: publishFence_def fence_of_def new_directive_def Let_def split: option.splits)
  with PublishDirective_cases [OF pd] True show ?thesis by (auto split: option.split)
qed (use run in \<open>auto simp: publishFence_def\<close>)

lemma publishFailoverDirectives_cases:
  assumes run: "run_state (publishFailoverDirectives E p t) w = (res, w')"
  shows "published_failover p t w res w'"
proof (cases "f_has_store w")
  case False
  with run show ?thesis
    by (auto simp: publishFailoverDirectives_def published_failover_def cleared_def Let_def intro: exI [of _ 0])
next
  case True
  let ?now = "e_now E (w_k w)" and ?w1 = "arrive E w" and ?fe = "IsFencingEnabled (c_Failover (f_cfg w))"
  obtain fr w2 where f: "run_state (publishFence E p ?now) ?w1 = (fr, w2)" by fastforce
  note w2 = publishFence_cases [OF f]
  show ?thesis
  proof (cases fr)
    case (Inl e)
    with run True f w2 show ?thesis
      by (auto simp: publishFailoverDirectives_def published_failover_def cleared_def Let_def intro: exI [of _ 0])
  next
    case (Inr ids)
    obtain err w3 where pr: "run_state (PublishDirective E (promote_of t ?now)) w2 = (err, w3)" by fastforce
    from Inr run True f pr have "w' = (if err = None then w3\<lparr>activeDirectiveIDs := ids @ [d_ID (promote_of t ?now)]\<rparr>
          else snd (run_state clearFailover w3)) \<and> (res = None \<longleftrightarrow> err = None)"
      by (auto simp: publishFailoverDirectives_def promote_of_def new_directive_def Let_def split: option.splits)
    with PublishDirective_cases [OF pr] w2 Inr show ?thesis
      unfolding published_failover_def
      by (intro exI [of _ ?now])
        (auto simp: Let_def cleared_def more_fields [of w3 w2] more_fields [of w2 ?w1] intro: exI [of _ 1] exI [of _ 0])
  qed
qed

lemma failover_published:
  "case run_state (ExecuteFailoverTo E p t) w of (res, w') \<Rightarrow>
     \<exists>now. let fence = (if IsFencingEnabled (c_Failover (f_cfg w)) then [fence_of p now] else []);
               promote = promote_of t now
       in if res = None
          then w_trace w' = w_trace w @ map (Committed \<circ> publish_entry) (fence @ [promote]) \<and>
               activeDirectiveIDs w' = map d_ID (fence @ [promote]) \<and> failoverInFlight w'
          else cleared w' \<and> (\<exists>n. w_trace w' = w_trace w @ take n (map (Committed \<circ> publish_entry) fence))"
proof -
  obtain w1 where w1: "run_state (startFailover E) w = ((), w1)"
    and f: "f_cfg w1 = f_cfg w" "failoverInFlight w1" "w_trace w1 = w_trace w"
    by (auto simp: startFailover_def)
  obtain res w' where run: "run_state (publishFailoverDirectives E p t) w1 = (res, w')" by fastforce
  from publishFailoverDirectives_cases [OF run] show ?thesis
    unfolding ExecuteFailoverTo_def run_state_bind w1 prod.case run published_failover_def by (simp only: f eq_True)
qed

text \<open>
  (C2) A failover publishes the fencing of the failed primary (when fencing is on) and
  only then the promotion of the target, both pending, and tracks exactly these
  directives; on every error the controller is back to idle and at most the fencing has
  been published, never the promotion.
\<close>

theorem failover_publishes:
  "case run_state (ExecuteFailoverTo E p t) w of (res, w') \<Rightarrow>
     \<exists>now. let fence = (if IsFencingEnabled (c_Failover (f_cfg w)) then [fence_of p now] else []);
               promote = promote_of t now
       in if res = None
          then w_trace w' = w_trace w @ map (Committed \<circ> publish_entry) (fence @ [promote]) \<and>
               activeDirectiveIDs w' = map d_ID (fence @ [promote]) \<and> failoverInFlight w'
          else cleared w' \<and> (\<exists>n. w_trace w' = w_trace w @ take n (map (Committed \<circ> publish_entry) fence))"
  by (rule failover_published)

text \<open>
  An automatic failover promotes the replica it selected from the current state and
  no other node, after fencing the failed primary; when no replica can be selected, or
  publishing fails, the controller is idle again and no promotion was published.
\<close>

theorem failover_automatic:
  "let k = w_k w; s = apply_log (e_arrive E k @ e_arrive E (k + 1)) (w_fsm w);
       target = pick_best p (GetReplicas (e_ranger E (k + 1)) s);
       (res, w') = run_state (ExecuteFailover E p) w
   in \<exists>now. let fence = (if IsFencingEnabled (c_Failover (f_cfg w)) then [fence_of p now] else [])
       in if res = None
          then \<exists>n. target = Inr n \<and> failoverInFlight w' \<and>
            w_trace w' = w_trace w @ map (Committed \<circ> publish_entry) (fence @ [promote_of (ni_Name n) now])
          else cleared w' \<and> (\<exists>n. w_trace w' = w_trace w @ take n (map (Committed \<circ> publish_entry) fence))"
proof -
  let ?k = "w_k w"
  define target where "target = pick_best p (GetReplicas (e_ranger E (?k + 1))
    (apply_log (e_arrive E ?k @ e_arrive E (?k + 1)) (w_fsm w)))"
  obtain w1 where w1: "run_state (startFailover E) w = ((), w1)"
    and f: "f_cfg w1 = f_cfg w" "failoverInFlight w1" "w_trace w1 = w_trace w" "w_k w1 = ?k + 1"
      "w_fsm w1 = apply_log (e_arrive E ?k) (w_fsm w)" "f_has_store w1 = f_has_store w"
    by (auto simp: startFailover_def)
  have sel: "run_state (selectBestReplica E p) w1 =
      (if f_has_store w then (target, arrive E w1) else (Inl NoConsensusStore, w1))"
    using f by (simp add: selectBestReplica_def target_def fsm.run_append)
  show ?thesis
  proof (cases "f_has_store w \<and> (\<exists>n. target = Inr n)")
    case False
    then show ?thesis
      using f by (cases target)
        (auto simp: ExecuteFailover_def w1 sel cleared_def Let_def simp flip: target_def intro!: exI [of _ 0])
  next
    case True
    then obtain n where n: "target = Inr n" by blast
    obtain res w' where run: "run_state (publishFailoverDirectives E p (ni_Name n)) (arrive E w1) = (res, w')"
      by fastforce
    with n True have "run_state (ExecuteFailover E p) w = (res, w')"
      by (simp add: ExecuteFailover_def w1 sel)
    with publishFailoverDirectives_cases [OF run] n show ?thesis
      unfolding published_failover_def target_def [symmetric] Let_def by (auto simp: f)
  qed
qed

section \<open>Confirmation\<close>

text \<open>
  A failover is recommended exactly when none is in flight, the primary was found
  unhealthy before, and that was at least the confirmation period ago; the first finding
  only starts the period.
\<close>

theorem should_failover_iff:
  "let k = w_k w; (b, w') = run_state (ShouldFailover E n) w
   in (b \<longleftrightarrow> \<not> failoverInFlight w \<and> \<not> IsZero (confirmationStart w) \<and>
        fo_ConfirmationPeriod (c_Failover (f_cfg w)) \<le> time_sub (e_now E (k + 1)) (confirmationStart w)) \<and>
      confirmationStart w' = (if \<not> failoverInFlight w \<and> IsZero (confirmationStart w) then e_now E (k + 1)
                              else confirmationStart w) \<and>
      failoverInFlight w' = failoverInFlight w \<and> w_trace w' = w_trace w"
  by (auto simp: ShouldFailover_def Let_def)

section \<open>Monitoring\<close>

definition pending_in :: "string \<Rightarrow> FSMState \<Rightarrow> bool" where
  "pending_in i s \<longleftrightarrow> (\<exists>d. GetDirective i s = Some d \<and> d_Status d = DirectiveStatusPending)"

text \<open>The local state after n more events in which this node writes nothing.\<close>

fun later :: "env \<Rightarrow> nat \<Rightarrow> 'z world_scheme \<Rightarrow> 'z world_scheme" where
  "later E 0 w = w"
| "later E (Suc n) w = later E n (arrive E w)"

lemma later_simps [simp]:
  "world.more (later E n w) = world.more w" "w_trace (later E n w) = w_trace w" "w_k (later E n w) = w_k w + n"
  by (induction n arbitrary: w) simp_all

lemma later_evolves: "evolves w (later E n w)"
  by (induction n arbitrary: w) (auto intro: evolves_trans arrive_evolves)

lemma later_later: "later E n (later E m w) = later E (m + n) w"
  by (induction m arbitrary: w) simp_all

lemma monitor_loop_watching:
  "run_state (monitor_loop E el False ids b) w =
     (b \<and> (\<forall>i < length ids. \<not> pending_in (ids ! i) (w_fsm (later E (Suc i) w))), later E (length ids) w)"
proof (induction ids arbitrary: b w)
  case Nil
  then show ?case by simp
next
  case (Cons i ids)
  have all: "(\<forall>j < length (i # ids). P ((i # ids) ! j) (Suc j)) \<longleftrightarrow> P i 1 \<and> (\<forall>j < length ids. P (ids ! j) (Suc (Suc j)))" for P
    by (auto simp: less_Suc_eq_0_disj nth_Cons')
  show ?case
    unfolding all [where P = "\<lambda>i n. \<not> pending_in i (w_fsm (later E n w))"]
    using Cons by (auto simp: Store_GetDirective_def pending_in_def split: option.splits)
qed

lemma CompleteDirective_more: "world.more (snd (run_state (CompleteDirective E i e) w)) = world.more w"
proof -
  obtain j where "enc_CompletePayload \<lparr>cp_ID = i, cp_Error = e\<rparr> = Inr j" using enc_payloads_ok by blast
  moreover obtain err w' where "run_state (Store_apply E \<lparr>cmd_Type = CmdCompleteDirective, cmd_Data = Some j\<rparr>) w = (err, w')"
    by fastforce
  ultimately show ?thesis
    using Store_apply_cases(1) by (auto simp: CompleteDirective_def write_command_def)
qed

lemma monitor_loop_more: "world.more (snd (run_state (monitor_loop E el t ids b) w)) = world.more w"
proof (induction ids arbitrary: b w)
  case Nil
  then show ?case by simp
next
  case (Cons i ids)
  then show ?case
    using CompleteDirective_more [of E i "''directive timed out after '' @ Duration_String el" "arrive E w"]
    by (auto simp: Store_GetDirective_def split: option.splits prod.splits)
qed

text \<open>
  (C10) Monitoring ends a failover exactly when the 60 seconds are over or every tracked
  directive is resolved (finished, failed or gone) when it is looked at; then the
  controller is idle, and otherwise the failover stays in flight. So no failover with
  published directives stays in flight beyond the first look after its timeout.
\<close>

theorem monitor_exact:
  "let k = w_k w; ids = activeDirectiveIDs w;
       timedOut = (time_sub (e_now E k) (failoverStartTime w) > DefaultDirectiveTimeout);
       (ended, w') = run_state (MonitorDirectives E) w
   in if \<not> failoverInFlight w \<or> ids = [] \<or> \<not> f_has_store w then \<not> ended \<and> w' = w
      else (ended \<longleftrightarrow> timedOut \<or> (\<forall>i < length ids. \<not> pending_in (ids ! i) (w_fsm (later E (i + 2) w)))) \<and>
           (if ended then cleared w' else failoverInFlight w' \<and> activeDirectiveIDs w' = ids)"
proof (cases "\<not> failoverInFlight w \<or> activeDirectiveIDs w = [] \<or> \<not> f_has_store w")
  case True
  then show ?thesis by (auto simp: MonitorDirectives_def Let_def)
next
  case False
  let ?ids = "activeDirectiveIDs w" and ?el = "time_sub (e_now E (w_k w)) (failoverStartTime w)"
  let ?t = "?el > DefaultDirectiveTimeout"
  obtain b w2 where loop: "run_state (monitor_loop E ?el ?t ?ids True) (arrive E w) = (b, w2)" by fastforce
  have b: "\<not> ?t \<Longrightarrow> b \<longleftrightarrow> (\<forall>i < length ?ids. \<not> pending_in (?ids ! i) (w_fsm (later E (i + 2) w)))"
    using loop by (simp add: monitor_loop_watching)
  have w2: "world.more w2 = world.more w"
    using monitor_loop_more [of E ?el ?t ?ids True "arrive E w"] loop by simp
  have "run_state (MonitorDirectives E) w =
      (if b \<or> ?t then (True, snd (run_state clearFailover w2)) else (False, w2))"
    using False loop by (auto simp: MonitorDirectives_def Let_def)
  with False b show ?thesis
    by (auto simp: Let_def cleared_def more_fields [OF w2])
qed

section \<open>Waiting loops\<close>

text \<open>The contract of the two waiting loops: turn \<open>i\<close> looks at the context at event \<open>2 i\<close> and
  at the local state after event \<open>2 i + 1\<close>; \<open>ready\<close> is what the loop waits for.\<close>

locale polling =
  fixes loop :: "env \<Rightarrow> nat \<Rightarrow> ('z fworld_scheme, wait_error option waited) state"
    and ready :: "FSMState \<Rightarrow> bool"
  assumes loop_0: "run_state (loop E 0) w = (Waiting, w)"
    and loop_done: "e_done E (w_k w) \<Longrightarrow> run_state (loop E (Suc n)) w = (Returned (Some CtxErr), arrive E w)"
    and loop_turn: "\<not> e_done E (w_k w) \<Longrightarrow>
      (let w2 = arrive E (arrive E w)
       in run_state (loop E (Suc n)) w = (Returned None, w2) \<and> ready (w_fsm w2) \<or>
          (\<exists>e. run_state (loop E (Suc n)) w = (Returned (Some e), w2)) \<or>
          run_state (loop E (Suc n)) w = run_state (loop E n) w2)"
begin

lemma returns:
  "e_done E (w_k w + 2 * i) \<Longrightarrow> i < n \<Longrightarrow> fst (run_state (loop E n) w) \<noteq> Waiting"
proof (induction n arbitrary: w i)
  case 0
  then show ?case by simp
next
  case (Suc n)
  show ?case
  proof (cases "e_done E (w_k w)")
    case True
    with loop_done show ?thesis by (metis fst_conv waited.distinct(1))
  next
    case False
    with Suc.prems obtain j where "i = Suc j" by (cases i) auto
    with Suc.IH [of "arrive E (arrive E w)" j] Suc.prems loop_turn [OF False, of n] show ?thesis
      by (auto simp: Let_def)
  qed
qed

lemma effects: "\<exists>m. snd (run_state (loop E n) w) = later E m w"
proof (induction n arbitrary: w)
  case 0
  then show ?case using loop_0 by (metis later.simps(1) snd_conv)
next
  case (Suc n)
  have 1: "arrive E w = later E 1 w" and 2: "arrive E (arrive E w) = later E 2 w"
    by (simp_all add: numeral_2_eq_2)
  show ?case
    using loop_done [of E w n] loop_turn [of E w n] Suc.IH [of "later E 2 w"]
    unfolding Let_def 2 later_later unfolding 1 by (metis snd_conv)
qed

lemma sound: "run_state (loop E n) w = (Returned None, w') \<Longrightarrow> ready (w_fsm w')"
proof (induction n arbitrary: w)
  case 0
  then show ?case using loop_0 by simp
next
  case (Suc n)
  then show ?case
    using loop_done [of E w n] loop_turn [of E w n] by (cases "e_done E (w_k w)") (auto simp: Let_def)
qed

end

definition completed_in :: "string \<Rightarrow> FSMState \<Rightarrow> bool" where
  "completed_in i s \<longleftrightarrow> (\<exists>d. GetDirective i s = Some d \<and> d_Status d = DirectiveStatusCompleted)"

definition synced_in :: "string \<Rightarrow> int \<Rightarrow> FSMState \<Rightarrow> bool" where
  "synced_in n lag s \<longleftrightarrow> (\<exists>r. fmlookup (GetAllNodes s) n = Some r \<and> ni_Lag r \<le> lag)"

interpretation wait_directive: polling "\<lambda>E n. waitForDirective E n i" "completed_in i" for i
  by unfold_locales (auto simp: Let_def Store_GetDirective_def completed_in_def split: option.splits if_splits)

interpretation wait_sync: polling "\<lambda>E n. waitForReplicaSync E n r lag" "synced_in r lag" for r lag
  by unfold_locales (auto simp: Let_def synced_in_def split: option.splits if_splits)

section \<open>Switchover\<close>

definition checkpoint_of :: "string \<Rightarrow> time \<Rightarrow> Directive" where
  "checkpoint_of p now = new_directive (directive_id ''checkpoint'' p now) DirectiveCheckpoint p None now"

definition demote_of :: "string \<Rightarrow> string \<Rightarrow> time \<Rightarrow> Directive" where
  "demote_of p t now = new_directive (directive_id ''demote'' p now) DirectiveDemote p
     (Some (fmupd ''target_primary'' t fmempty)) now"

text \<open>
  Each wait of a switchover returns once its context is done, and no later than the
  turn of the loop that finds it done.
\<close>

theorem waits_return:
  assumes "e_done E (w_k w + 2 * i)" and "i < fuel"
  shows "fst (run_state (waitForDirective E fuel d) w) \<noteq> Waiting \<and>
    fst (run_state (waitForReplicaSync E fuel r lag) w) \<noteq> Waiting"
  using wait_directive.returns [OF assms] wait_sync.returns [OF assms] by blast

lemma publishDemotePromote_cases:
  assumes run: "run_state (publishDemotePromote E p t ids) w = (res, w')"
  shows "let now = e_now E (w_k w); d = demote_of p t now; pr = promote_of t now
    in if res = None
       then w_trace w' = w_trace w @ map (Committed \<circ> publish_entry) [d, pr] \<and>
            activeDirectiveIDs w' = ids @ [d_ID d, d_ID pr] \<and> failoverInFlight w' = failoverInFlight w
       else cleared w' \<and> (\<exists>n \<le> 1. w_trace w' = w_trace w @ take n [Committed (publish_entry d)])"
proof -
  let ?now = "e_now E (w_k w)" and ?w1 = "arrive E w"
  obtain e1 w2 where d: "run_state (PublishDirective E (demote_of p t ?now)) ?w1 = (e1, w2)" by fastforce
  obtain e2 w3 where pr: "run_state (PublishDirective E (promote_of t ?now)) w2 = (e2, w3)" by fastforce
  note c1 = PublishDirective_cases [OF d] and c2 = PublishDirective_cases [OF pr]
  show ?thesis
  proof (cases e1)
    case (Some e)
    with run d c1 show ?thesis
      by (auto simp: publishDemotePromote_def demote_of_def new_directive_def cleared_def Let_def
          intro!: exI [of _ 0])
  next
    case None
    with run d pr have "w' = (if e2 = None then w3\<lparr>activeDirectiveIDs := ids @ [d_ID (demote_of p t ?now), d_ID (promote_of t ?now)]\<rparr>
        else snd (run_state clearFailover w3)) \<and> (res = None \<longleftrightarrow> e2 = None)"
      by (auto simp: publishDemotePromote_def demote_of_def promote_of_def new_directive_def Let_def split: option.splits)
    with None c1 c2 show ?thesis
      by (auto simp: Let_def cleared_def more_fields [of w3 w2] more_fields [of w2 ?w1] intro!: exI [of _ 1])
  qed
qed

text \<open>The world of a switchover right after it has published the checkpoint.\<close>

definition checkpointed :: "env \<Rightarrow> string \<Rightarrow> 'z fworld_scheme \<Rightarrow> 'z fworld_scheme" where
  "checkpointed E p w = snd (run_state (PublishDirective E (checkpoint_of p (e_now E (w_k w + 1))))
     (arrive E (snd (run_state (startFailover E) w))))"

text \<open>
  What the local replica showed after \<open>i\<close> and after \<open>j\<close> more events of the run from \<open>w\<close> on: first the
  checkpoint completed, then the target without lag.
\<close>

definition saw_ready :: "env \<Rightarrow> string \<Rightarrow> string \<Rightarrow> 'z world_scheme \<Rightarrow> nat \<Rightarrow> nat \<Rightarrow> bool" where
  "saw_ready E ckpt t w i j \<longleftrightarrow> completed_in ckpt (w_fsm (later E i w)) \<and> synced_in t 0 (w_fsm (later E (i + j) w))"

lemma stable_evolves: "stable (evolves w)"
  by (auto simp: stable_def intro: evolves_trans)

lemma PublishDirective_evolves: "evolves w (snd (run_state (PublishDirective E d) w))"
  by (rule keeps_invD [of "evolves w"]) (auto intro: keeps_intros stable_evolves)

definition switched ::
    "env \<Rightarrow> string \<Rightarrow> string \<Rightarrow> 'z fworld_scheme \<Rightarrow> failover_error option waited \<Rightarrow> 'z fworld_scheme \<Rightarrow> bool" where
  "switched E p t w res w' \<longleftrightarrow>
     (\<exists>n i j. let now1 = e_now E (w_k w + 1); w1 = checkpointed E p w; now2 = e_now E (w_k w1 + i + j);
           ds = [checkpoint_of p now1, demote_of p t now2, promote_of t now2]
       in w_trace w' = w_trace w @ take n (map (Committed \<circ> publish_entry) ds) \<and> n \<le> 3 \<and>
          (n < 2 \<or> saw_ready E (d_ID (checkpoint_of p now1)) t w1 i j) \<and>
          (res = Returned None \<longleftrightarrow> n = 3) \<and>
          (if res = Returned None then failoverInFlight w' \<and> activeDirectiveIDs w' = map d_ID ds
           else res = Waiting \<and> n = 1 \<or> cleared w'))"

lemma switched_early:
  assumes "w_trace w' = w_trace w @ take n [Committed (publish_entry (checkpoint_of p (e_now E (w_k w + 1))))]" and "n \<le> 1"
    and "res \<noteq> Returned None" and "res = Waiting \<and> n = 1 \<or> cleared w'"
  shows "switched E p t w res w'"
proof -
  have "take n [x, y, z] = take n [x]" for x y z :: event
    using assms(2) by (cases n) auto
  with assms show ?thesis
    unfolding switched_def Let_def by (intro exI [of _ n] exI [of _ 0]) auto
qed

lemma switched_late:
  assumes run: "run_state (publishDemotePromote E p t [d_ID c]) u = (res, w')" and c: "c = checkpoint_of p (e_now E (w_k w + 1))"
    and u: "w_trace u = w_trace w @ [Committed (publish_entry c)]" "failoverInFlight u" "w_k u = w_k (checkpointed E p w) + i + j"
    and ready: "saw_ready E (d_ID c) t (checkpointed E p w) i j"
  shows "switched E p t w (Returned res) w'"
proof -
  define now2 where "now2 = e_now E (w_k (checkpointed E p w) + i + j)"
  have 2: "if res = None
       then w_trace w' = w_trace u @ map (Committed \<circ> publish_entry) [demote_of p t now2, promote_of t now2] \<and>
            activeDirectiveIDs w' = [d_ID c] @ [d_ID (demote_of p t now2), d_ID (promote_of t now2)] \<and>
            failoverInFlight w' = failoverInFlight u
       else cleared w' \<and> (\<exists>n \<le> 1. w_trace w' = w_trace u @ take n [Committed (publish_entry (demote_of p t now2))])"
    using publishDemotePromote_cases [OF run] unfolding Let_def u(3) now2_def .
  show ?thesis
  proof (cases res)
    case None
    with 2 u ready show ?thesis
      unfolding switched_def Let_def c now2_def by (intro exI [of _ 3] exI [of _ i] exI [of _ j]) simp
  next
    case (Some e)
    with 2 obtain n where "cleared w'" "n \<le> 1" and
      "w_trace w' = w_trace u @ take n [Committed (publish_entry (demote_of p t now2))]" by auto
    with u ready Some show ?thesis
      unfolding switched_def Let_def c now2_def
      by (intro exI [of _ "Suc n"] exI [of _ i] exI [of _ j]) (cases n; simp)
  qed
qed

lemma switchover_switched:
  assumes True: "f_has_store w"
  shows "case run_state (ExecuteSwitchover E fuel p t) w of (res, w') \<Rightarrow> switched E p t w res w'"
proof -
  obtain w1 where w1: "run_state (startFailover E) w = ((), w1)"
    and f1: "failoverInFlight w1" "w_trace w1 = w_trace w" "w_fsm w1 = w_fsm (arrive E w)" "w_k w1 = w_k w + 1"
    by (auto simp: startFailover_def)
  define c where "c = checkpoint_of p (e_now E (w_k w + 1))"
  have id: "d_ID (new_directive i ty n ps tm) = i" for i ty n ps tm by (simp add: new_directive_def)
  obtain e w2 where pc: "run_state (PublishDirective E c) (arrive E w1) = (e, w2)" by fastforce
  note c2 = PublishDirective_cases [OF pc]
  have w2: "w2 = checkpointed E p w" using pc by (simp add: checkpointed_def w1 c_def)
  obtain r3 w3 where r3: "run_state (waitForDirective E fuel (d_ID c)) w2 = (r3, w3)" by fastforce
  obtain m where m: "w3 = later E m w2" using wait_directive.effects r3 by (metis snd_conv)
  obtain r4 w4 where r4: "run_state (waitForReplicaSync E fuel t SwitchoverMaxLagBytes) w3 = (r4, w4)" by fastforce
  obtain m' where m': "w4 = later E m' w3"
    using wait_sync.effects r4 by (metis snd_conv)
  obtain res w5 where dp: "run_state (publishDemotePromote E p t [d_ID c]) w4 = (res, w5)" by fastforce
  have run: "run_state (ExecuteSwitchover E fuel p t) w =
      (case e of Some e \<Rightarrow> (Returned (Some (PublishingCheckpoint e)), snd (run_state clearFailover w2))
       | None \<Rightarrow> (case r3 of Waiting \<Rightarrow> (Waiting, w3)
         | Returned (Some x) \<Rightarrow> (Returned (Some (CheckpointFailed x)), snd (run_state clearFailover w3))
         | Returned None \<Rightarrow> (case r4 of Waiting \<Rightarrow> (Waiting, w4)
           | Returned (Some x) \<Rightarrow> (Returned (Some (ReplicaSyncFailed x)), snd (run_state clearFailover w4))
           | Returned None \<Rightarrow> (Returned res, w5))))"
    using pc r3 dp unfolding c_def checkpoint_of_def id f1(4) [symmetric]
    by (cases e; cases r3; cases r4)
      (simp_all only: ExecuteSwitchover_def run_state_bind run_state_return run_gets run_time_Now prod.case True
        not_True_eq_False if_False w1 Let_def r4 option.case waited.case run_clearFailover snd_conv
        split: option.split, auto)
  have t: "e = None \<Longrightarrow> w_trace w4 = w_trace w @ [Committed (publish_entry c)] \<and> failoverInFlight w4 \<and> w_trace w3 = w_trace w4"
    using c2 f1 m m' more_fields(3) [of w4 w1] by simp
  have late: "switched E p t w (Returned res) w5" if "e = None" "r3 = Returned None" "r4 = Returned None"
  proof (rule switched_late [OF dp c_def, where i = m and j = m'])
    have "completed_in (d_ID c) (w_fsm w3)" "synced_in t 0 (w_fsm w4)"
      using wait_directive.sound [OF r3 [unfolded that]] wait_sync.sound [OF r4 [unfolded that]]
      by (simp_all add: SwitchoverMaxLagBytes_def)
    then show "saw_ready E (d_ID c) t (checkpointed E p w) m m'"
      by (simp add: saw_ready_def m m' w2 later_later)
  qed (use t that m m' w2 in auto)
  show ?thesis
  proof (cases e)
    case None
    with late t show ?thesis
      unfolding run by (auto split: option.split waited.split simp: cleared_def c_def intro!: switched_early [of _ w 1 p E])
  next
    case (Some x)
    with c2 f1 show ?thesis
      unfolding run by (auto simp: cleared_def c_def intro!: switched_early [of _ w 0 p E])
  qed
qed

text \<open>
  (C4) A switchover publishes CHECKPOINT, then DEMOTE, then PROMOTE. Demotion and promotion
  are published only after the node's own replica of the state, as the events of this very run
  left it, has shown the checkpoint completed and then the target with no lag, and they carry
  the clock reading that follows; every error before that leaves at most the checkpoint
  behind, and every error leaves the controller idle.
\<close>

theorem switchover_order:
  "case run_state (ExecuteSwitchover E fuel p t) w of (res, w') \<Rightarrow>
     \<not> f_has_store w \<and> res = Returned (Some NoConsensusStore) \<and> w' = w \<or>
     (\<exists>n i j. let now1 = e_now E (w_k w + 1); w1 = checkpointed E p w; now2 = e_now E (w_k w1 + i + j);
           ds = [checkpoint_of p now1, demote_of p t now2, promote_of t now2]
       in w_trace w' = w_trace w @ take n (map (Committed \<circ> publish_entry) ds) \<and> n \<le> 3 \<and>
          (n < 2 \<or> saw_ready E (d_ID (checkpoint_of p now1)) t w1 i j) \<and>
          (res = Returned None \<longleftrightarrow> n = 3) \<and>
          (if res = Returned None then failoverInFlight w' \<and> activeDirectiveIDs w' = map d_ID ds
           else res = Waiting \<and> n = 1 \<or> cleared w'))"
proof (cases "f_has_store w")
  case False
  then show ?thesis by (simp add: ExecuteSwitchover_def)
next
  case True
  obtain res w' where run: "run_state (ExecuteSwitchover E fuel p t) w = (res, w')" by fastforce
  have "switched E p t w res w'"
    using switchover_switched [OF True, where E = E and fuel = fuel and p = p and t = t] run by simp
  then show ?thesis unfolding run switched_def prod.case by (rule disjI2)
qed

section \<open>Concrete runs\<close>

definition lag_cluster :: FSMState where
  "lag_cluster = NewClusterFSM\<lparr>PrimaryName := ''p'', Nodes := Some (fmap_of_list [
     (''a'', zero_NodeInfo\<lparr>ni_Name := ''a'', ni_Role := ''replica'', ni_Lag := 900\<rparr>),
     (''b'', zero_NodeInfo\<lparr>ni_Name := ''b'', ni_Role := ''replica'', ni_Lag := 10\<rparr>)]),
     Directives := Some (fmap_of_list [(''d1'', zero_Directive\<lparr>d_ID := ''d1'', d_Status := DirectiveStatusCompleted\<rparr>)])\<rparr>"

definition controller :: "bool \<Rightarrow> string list \<Rightarrow> fworld" where
  "controller flight ids = \<lparr>w_k = 0, w_fsm = lag_cluster, w_trace = [], f_cfg = zero_Config, f_has_store = True,
     failoverInFlight = flight, activeDirectiveIDs = ids, failoverStartTime = 0, confirmationStart = 0\<rparr>"

theorem best_replica_minimal_witness:
  "case fst (run_state (selectBestReplica quiet_env ''p'') (controller False [])) of
     Inl e \<Rightarrow> False
   | Inr b \<Rightarrow> ni_Name b = ''b'' \<and>
      (\<forall>n. n \<notin> {n. (\<exists>k. mget (Nodes lag_cluster) k = Some n) \<and> ni_Role n = ''replica'' \<and> ni_Name n \<noteq> ''p''} \<or>
        ni_Lag b \<le> ni_Lag n)"
proof -
  have "fst (run_state (selectBestReplica quiet_env ''p'') (controller False []))
      = Inr (zero_NodeInfo\<lparr>ni_Name := ''b'', ni_Role := ''replica'', ni_Lag := 10\<rparr>)"
    by code_simp
  moreover have "is_ranger (e_ranger quiet_env (w_k (controller False [])))" "f_has_store (controller False [])"
    by (simp_all add: quiet_env_def controller_def ranger_sorted)
  note best_replica_minimal [OF this, of "''p''"]
  ultimately show ?thesis by (auto simp: Let_def controller_def quiet_env_def)
qed

theorem monitor_exact_witness:
  "fst (run_state (MonitorDirectives quiet_env) (controller True [''d1''])) \<and>
   cleared (snd (run_state (MonitorDirectives quiet_env) (controller True [''d1''])))"
proof -
  have "\<not> pending_in ''d1'' lag_cluster" by (simp add: pending_in_def lag_cluster_def GetDirective_def mget_def)
  then show ?thesis
    using monitor_exact [of "controller True [''d1'']" quiet_env]
    by (simp add: controller_def quiet_env_def Let_def numeral_2_eq_2 split: prod.splits if_splits)
qed

theorem waits_return_witness:
  "fst (run_state (waitForDirective (quiet_env\<lparr>e_done := (\<lambda>k. k = 4)\<rparr>) 3 ''d2'') (controller True [])) \<noteq> Waiting"
  using waits_return [of "quiet_env\<lparr>e_done := (\<lambda>k. k = 4)\<rparr>" "controller True []" 2 3 "''d2''"]
  by (simp add: controller_def)

end
