(* ===== verification/Health.thy ===== *)
theory Health
  imports GoStd "HOL-Library.Multiset"
begin

text \<open>
  The health checker, src/internal/cluster/health.go: the ring buffer of results, the
  check of the local PostgreSQL, and the backoff of the check interval.

  PostgreSQL and its driver are not part of the repository: one check is a function of
  what they answer during it (\<open>pg_answers\<close>). The conversion of a float64 that does not
  fit a 64-bit integer is left to the implementation by Go, and is a parameter.
\<close>

section \<open>Data\<close>

record SlotInfo = sl_Name :: string  sl_Type :: string  sl_Active :: bool  sl_WALBytes :: int

record ReplicaInfo =
  ri_Name :: string
  ri_State :: string
  ri_SentLag :: int
  ri_WriteLag :: int
  ri_FlushLag :: int
  ri_ReplayLag :: int
  ri_SyncState :: string

record HealthStatus =
  Healthy :: bool
  IsInRecovery :: bool
  AcceptingConns :: bool
  ReplicationLag :: int
  ReplicationSlots :: "SlotInfo list"
  Replicas :: "ReplicaInfo list"
  ActiveConns :: int
  LastCheck :: time
  StatusError :: string

definition zero_HealthStatus :: HealthStatus where
  "zero_HealthStatus = \<lparr>Healthy = False, IsInRecovery = False, AcceptingConns = False, ReplicationLag = 0,
     ReplicationSlots = [], Replicas = [], ActiveConns = 0, LastCheck = zero_time, StatusError = ''''\<rparr>"

record HealthCheckEntry =
  he_Status :: HealthStatus
  he_Timestamp :: time
  he_Duration :: duration

definition DefaultHealthTimeout :: duration where "DefaultHealthTimeout = 5 * Second"

definition DefaultHistorySize :: nat where "DefaultHistorySize = 100"

section \<open>The ring buffer\<close>

record 'e HealthHistory =
  hh_entries :: "'e list"
  hh_head :: nat
  hh_size :: nat
  hh_cap :: nat

text \<open>\<open>zero\<close> is the zero value of an entry. None is a panic: an index out of range or a
  negative length.\<close>

definition NewHealthHistory :: "'e \<Rightarrow> nat \<Rightarrow> 'e HealthHistory" where
  "NewHealthHistory zero capacity = \<lparr>hh_entries = replicate capacity zero, hh_head = 0, hh_size = 0, hh_cap = capacity\<rparr>"

definition Add :: "'e \<Rightarrow> 'e HealthHistory \<Rightarrow> 'e HealthHistory option" where
  "Add entry h =
     (if hh_head h < length (hh_entries h)
      then Some (h\<lparr>hh_entries := (hh_entries h)[hh_head h := entry],
                  hh_head := (hh_head h + 1) mod hh_cap h,
                  hh_size := (if hh_size h < hh_cap h then hh_size h + 1 else hh_size h)\<rparr>)
      else None)"

definition GetAll :: "'e HealthHistory \<Rightarrow> 'e list" where
  "GetAll h =
     (let start = (if hh_size h = hh_cap h then hh_head h else 0)
      in map (\<lambda>i. hh_entries h ! ((start + i) mod hh_cap h)) [0..<hh_size h])"

definition GetRecent :: "int \<Rightarrow> 'e HealthHistory \<Rightarrow> 'e list option" where
  "GetRecent n h =
     (let n' = (if n > int (hh_size h) then int (hh_size h) else n)
      in if n' < 0 then None
         else Some (map (\<lambda>i. hh_entries h ! nat ((int (hh_head h) - 1 - int i + int (hh_cap h)) mod int (hh_cap h)))
                [0..<nat n']))"

record HistoryStats =
  total_checks :: nat
  success_count :: nat
  failure_count :: nat
  success_rate :: rat
  avg_duration_ms :: rat

fun stats_loop :: "HealthCheckEntry list \<Rightarrow> nat \<times> nat \<times> duration \<Rightarrow> nat \<times> nat \<times> duration" where
  "stats_loop [] acc = acc"
| "stats_loop (e # es) (ok, bad, tot) =
     stats_loop es (if Healthy (he_Status e) then ok + 1 else ok,
                    if Healthy (he_Status e) then bad else bad + 1,
                    wrap64 (tot + he_Duration e))"

definition Stats :: "HealthCheckEntry HealthHistory \<Rightarrow> HistoryStats" where
  "Stats h =
     (if hh_size h = 0
      then \<lparr>total_checks = 0, success_count = 0, failure_count = 0, success_rate = 0, avg_duration_ms = 0\<rparr>
      else case stats_loop (take (hh_size h) (hh_entries h)) (0, 0, 0) of (ok, bad, tot) \<Rightarrow>
        \<lparr>total_checks = hh_size h, success_count = ok, failure_count = bad,
         success_rate = float64 (float64 (of_nat ok / of_nat (hh_size h)) * 100),
         avg_duration_ms = float64 (of_int (sgn tot * (\<bar>tot\<bar> div Millisecond)) / of_nat (hh_size h))\<rparr>)"

section \<open>The checker\<close>

record HealthChecker =
  hc_dsn :: string
  hc_interval :: duration
  hc_maxBackoff :: duration
  hc_backoffMultiplier :: rat
  hc_healthTimeout :: duration
  hc_status :: HealthStatus
  hc_history :: "HealthCheckEntry HealthHistory"
  hc_ready :: bool
  consecutiveFailures :: int
  currentInterval :: duration
  hc_conn :: bool

definition zero_entry :: HealthCheckEntry where
  "zero_entry = \<lparr>he_Status = zero_HealthStatus, he_Timestamp = zero_time, he_Duration = 0\<rparr>"

definition NewHealthChecker :: "string \<Rightarrow> duration \<Rightarrow> duration \<Rightarrow> rat \<Rightarrow> duration \<Rightarrow> HealthChecker" where
  "NewHealthChecker dsn interval maxBackoff backoffMultiplier healthTimeout =
     \<lparr>hc_dsn = dsn, hc_interval = interval,
      hc_maxBackoff = (if maxBackoff = 0 then 30 * Second else maxBackoff),
      hc_backoffMultiplier = (if backoffMultiplier = 0 then 2 else backoffMultiplier),
      hc_healthTimeout = (if healthTimeout = 0 then DefaultHealthTimeout else healthTimeout),
      hc_status = zero_HealthStatus, hc_history = NewHealthHistory zero_entry DefaultHistorySize,
      hc_ready = False, consecutiveFailures = 0, currentInterval = interval, hc_conn = False\<rparr>"

text \<open>
  What PostgreSQL answers during one check: errors of the ping of an open connection and
  of connecting, the recovery query, the lag (None when the query fails or is null), the
  rows of the two listings (None when the query fails; a row is None when it does not
  scan) and the number of active connections.
\<close>

record pg_answers =
  a_ping :: "string option"
  a_connect :: "string option"
  a_recovery :: "string + bool"
  a_lag :: "int option"
  a_replicas :: "ReplicaInfo option list option"
  a_slots :: "SlotInfo option list option"
  a_active :: "int option"

definition getConn :: "pg_answers \<Rightarrow> HealthChecker \<Rightarrow> string option \<times> HealthChecker" where
  "getConn a h =
     (if hc_conn h \<and> a_ping a = None then (None, h)
      else case a_connect a of
          Some e \<Rightarrow> (Some e, h\<lparr>hc_conn := False\<rparr>)
        | None \<Rightarrow> (None, h\<lparr>hc_conn := True\<rparr>))"

definition closeConn :: "HealthChecker \<Rightarrow> HealthChecker" where
  "closeConn h = h\<lparr>hc_conn := False\<rparr>"

definition float64_to_int64 :: "(rat \<Rightarrow> int) \<Rightarrow> rat \<Rightarrow> int" where
  "float64_to_int64 ovf x =
     (let t = (if x < 0 then \<lceil>x\<rceil> else \<lfloor>x\<rfloor>) in if in_int64 t then t else ovf x)"

definition backoff_interval :: "(rat \<Rightarrow> int) \<Rightarrow> HealthChecker \<Rightarrow> int \<Rightarrow> duration" where
  "backoff_interval ovf h failures =
     float64_to_int64 ovf (float64 (float64 (float64 (of_int (hc_interval h)) * hc_backoffMultiplier h)
       * float64 (of_int failures)))"

definition recordFailure :: "(rat \<Rightarrow> int) \<Rightarrow> HealthChecker \<Rightarrow> HealthChecker" where
  "recordFailure ovf h =
     (let h1 = h\<lparr>consecutiveFailures := consecutiveFailures h + 1\<rparr>;
          n0 = backoff_interval ovf h1 (consecutiveFailures h1);
          newInterval = (if n0 > hc_maxBackoff h1 then hc_maxBackoff h1 else n0)
      in if newInterval \<noteq> currentInterval h1 then h1\<lparr>currentInterval := newInterval\<rparr> else h1)"

definition recordSuccess :: "HealthChecker \<Rightarrow> HealthChecker" where
  "recordSuccess h =
     (if consecutiveFailures h > 0 then h\<lparr>consecutiveFailures := 0, currentInterval := hc_interval h\<rparr> else h)"

definition setStatus :: "HealthStatus \<Rightarrow> duration \<Rightarrow> HealthChecker \<Rightarrow> HealthChecker option" where
  "setStatus s d h =
     (case Add \<lparr>he_Status = s, he_Timestamp = LastCheck s, he_Duration = d\<rparr> (hc_history h) of
        None \<Rightarrow> None
      | Some hist \<Rightarrow> Some (h\<lparr>hc_status := s, hc_history := hist, hc_ready := True\<rparr>))"

definition healthy_status :: "pg_answers \<Rightarrow> bool \<Rightarrow> time \<Rightarrow> HealthStatus" where
  "healthy_status a rec start =
     (let s = zero_HealthStatus\<lparr>LastCheck := start, AcceptingConns := True, IsInRecovery := rec, Healthy := True\<rparr>;
          s1 = (if rec then (case a_lag a of None \<Rightarrow> s | Some lag \<Rightarrow> s\<lparr>ReplicationLag := lag\<rparr>)
                else s\<lparr>Replicas := (case a_replicas a of None \<Rightarrow> [] | Some rs \<Rightarrow> List.map_filter id rs),
                       ReplicationSlots := (case a_slots a of None \<Rightarrow> [] | Some ss \<Rightarrow> List.map_filter id ss)\<rparr>)
      in case a_active a of None \<Rightarrow> s1 | Some n \<Rightarrow> s1\<lparr>ActiveConns := n\<rparr>)"

text \<open>One check. \<open>start\<close> and \<open>now\<close> are the clock readings at its start and end.\<close>

definition check :: "(rat \<Rightarrow> int) \<Rightarrow> bool \<Rightarrow> time \<Rightarrow> time \<Rightarrow> pg_answers \<Rightarrow> HealthChecker \<Rightarrow> HealthChecker option" where
  "check ovf ctxErr start now a h =
     (if ctxErr then Some h
      else let duration = time_sub now start;
               failed = (\<lambda>s h. map_option (recordFailure ovf) (setStatus s duration h))
        in case getConn a h of
             (Some e, h1) \<Rightarrow> failed (zero_HealthStatus\<lparr>LastCheck := start, StatusError := ''connect: '' @ e\<rparr>) h1
           | (None, h1) \<Rightarrow>
               (case a_recovery a of
                  Inl e \<Rightarrow> failed (zero_HealthStatus\<lparr>LastCheck := start, AcceptingConns := True,
                             StatusError := ''pg_is_in_recovery: '' @ e\<rparr>) h1
                | Inr rec \<Rightarrow> setStatus (healthy_status a rec start) duration (recordSuccess h1)))"

section \<open>The ring buffer is a bounded history\<close>

text \<open>
  The contract of a bounded buffer: it holds the last \<open>cap\<close> entries added and is read oldest
  first; \<open>ok\<close> is its invariant.
\<close>

definition last_n :: "nat \<Rightarrow> 'e list \<Rightarrow> 'e list" where
  "last_n n xs = drop (length xs - n) xs"

fun add_all :: "('e \<Rightarrow> 'h \<Rightarrow> 'h option) \<Rightarrow> 'e list \<Rightarrow> 'h \<Rightarrow> 'h option" where
  "add_all add [] h = Some h"
| "add_all add (e # es) h = (case add e h of None \<Rightarrow> None | Some h' \<Rightarrow> add_all add es h')"

locale bounded_buffer =
  fixes empty :: 'h
    and add :: "'e \<Rightarrow> 'h \<Rightarrow> 'h option"
    and all_entries :: "'h \<Rightarrow> 'e list"
    and ok :: "'h \<Rightarrow> bool"
    and cap :: nat
  assumes ok_empty: "ok empty"
    and empty_view: "all_entries empty = []"
    and add_ok: "ok h \<Longrightarrow> \<exists>h'. add e h = Some h' \<and> ok h' \<and> all_entries h' = last_n cap (all_entries h @ [e])"
begin

lemma last_n_append: "last_n n (last_n n xs @ ys) = last_n n (xs @ ys)"
  by (cases "length xs \<le> n") (auto simp: last_n_def add.commute)

lemma add_all_view:
  "ok h \<Longrightarrow> \<exists>h'. add_all add es h = Some h' \<and> ok h' \<and> last_n cap (all_entries h') = last_n cap (all_entries h @ es) \<and>
     (es = [] \<or> all_entries h' = last_n cap (all_entries h @ es))"
proof (induction es arbitrary: h)
  case Nil
  then show ?case by simp
next
  case (Cons e es)
  from add_ok [OF Cons.prems, of e] obtain h1
    where h1: "add e h = Some h1" "ok h1" "all_entries h1 = last_n cap (all_entries h @ [e])" by blast
  from Cons.IH [OF h1(2)] obtain h' where h': "add_all add es h1 = Some h'" "ok h'"
    "last_n cap (all_entries h') = last_n cap (all_entries h1 @ es)" "es = [] \<or> all_entries h' = last_n cap (all_entries h1 @ es)"
    by blast
  have "last_n cap (all_entries h1 @ es) = last_n cap (all_entries h @ e # es)"
    unfolding h1(3) last_n_append by simp
  moreover have "es = [] \<Longrightarrow> all_entries h' = last_n cap (all_entries h @ [e])" using h' h1 by simp
  ultimately show ?case using h1 h' by auto
qed

lemma history_of: "\<exists>h. add_all add es empty = Some h \<and> ok h \<and> all_entries h = last_n cap es"
  using add_all_view [OF ok_empty, of es] empty_view by (auto simp: last_n_def)

end

text \<open>A bounded buffer that can also be read from its newest entry back.\<close>

locale bounded_history = bounded_buffer +
  fixes recent :: "int \<Rightarrow> 'a \<Rightarrow> 'b list option"
  assumes recent_view: "ok h \<Longrightarrow> 0 \<le> n \<Longrightarrow> recent n h = Some (take (nat n) (rev (all_entries h)))"
begin

lemma recent_of: "\<exists>h. add_all add es empty = Some h \<and> recent (int n) h = Some (take n (rev (last_n cap es)))"
  using history_of [of es] recent_view [of _ "int n"] by auto

end

definition history_ok :: "nat \<Rightarrow> 'e HealthHistory \<Rightarrow> bool" where
  "history_ok cap h \<longleftrightarrow> cap > 0 \<and> hh_cap h = cap \<and> length (hh_entries h) = cap \<and> hh_size h \<le> cap \<and>
     hh_head h < cap \<and> (hh_size h < cap \<longrightarrow> hh_head h = hh_size h)"

lemma GetAll_full: "history_ok cap h \<Longrightarrow> hh_size h = cap \<Longrightarrow> GetAll h = rotate (hh_head h) (hh_entries h)"
  by (rule nth_equalityI) (auto simp: GetAll_def history_ok_def nth_rotate Let_def)

lemma GetAll_partial: "history_ok cap h \<Longrightarrow> hh_size h < cap \<Longrightarrow> GetAll h = take (hh_size h) (hh_entries h)"
  by (rule nth_equalityI) (auto simp: GetAll_def history_ok_def Let_def)

lemma rotate_update:
  assumes "i < length xs"
  shows "rotate (Suc i mod length xs) (xs[i := e]) = tl (rotate i xs) @ [e]"
proof -
  have "rotate (Suc i mod length xs) (xs[i := e]) = rotate (Suc i) (xs[i := e])"
    by (metis length_list_update rotate_conv_mod)
  also have "\<dots> = rotate1 (rotate i (xs[i := e]))" by simp
  also have "rotate i (xs[i := e]) = e # drop (Suc i) xs @ take i xs"
    using assms by (simp add: rotate_drop_take upd_conv_take_nth_drop)
  finally have "rotate (Suc i mod length xs) (xs[i := e]) = (drop (Suc i) xs @ take i xs) @ [e]" by simp
  moreover have "rotate i xs = xs ! i # drop (Suc i) xs @ take i xs"
    using assms by (simp add: rotate_drop_take Cons_nth_drop_Suc)
  ultimately show ?thesis by simp
qed

lemma Add_view:
  assumes "history_ok cap h"
  shows "\<exists>h'. Add e h = Some h' \<and> history_ok cap h' \<and> GetAll h' = last_n cap (GetAll h @ [e])"
proof -
  let ?h = "h\<lparr>hh_entries := (hh_entries h)[hh_head h := e], hh_head := (hh_head h + 1) mod hh_cap h,
    hh_size := (if hh_size h < hh_cap h then hh_size h + 1 else hh_size h)\<rparr>"
  have add: "Add e h = Some ?h" using assms by (simp add: Add_def history_ok_def)
  have ok: "history_ok cap ?h" using assms by (auto simp: history_ok_def)
  have "GetAll ?h = last_n cap (GetAll h @ [e])"
  proof (cases "hh_size h < cap")
    case True
    then have part: "GetAll h = take (hh_size h) (hh_entries h)" "hh_head h = hh_size h" "length (hh_entries h) = cap" "hh_cap h = cap"
      using assms GetAll_partial [OF assms True] by (auto simp: history_ok_def)
    have new: "take (Suc (hh_size h)) ((hh_entries h)[hh_size h := e]) = take (hh_size h) (hh_entries h) @ [e]"
      using True part by (simp add: take_Suc_conv_app_nth)
    show ?thesis
    proof (cases "Suc (hh_size h) < cap")
      case True
      then show ?thesis using GetAll_partial [OF ok] part new by (simp add: last_n_def)
    next
      case False
      with True have full: "Suc (hh_size h) = cap" using \<open>hh_size h < cap\<close> by simp
      with GetAll_full [OF ok] part new show ?thesis by (simp add: last_n_def)
    qed
  next
    case False
    then have f: "hh_size h = cap" "length (hh_entries h) = cap" "hh_cap h = cap" "hh_head h < cap"
      using assms by (auto simp: history_ok_def)
    have "GetAll ?h = tl (GetAll h) @ [e]"
      using GetAll_full [OF ok] GetAll_full [OF assms f(1)] f rotate_update [of "hh_head h" "hh_entries h" e] by simp
    moreover have "length (GetAll h) = cap" using GetAll_full [OF assms f(1)] f by simp
    ultimately show ?thesis using assms by (cases cap) (simp_all add: last_n_def drop_Suc history_ok_def)
  qed
  with add ok show ?thesis by blast
qed

lemma GetAll_length: "history_ok cap h \<Longrightarrow> length (GetAll h) = hh_size h"
  by (simp add: GetAll_def Let_def)

lemma recent_index:
  assumes "history_ok cap h" and "i < hh_size h"
  shows "nat ((int (hh_head h) - 1 - int i + int (hh_cap h)) mod int (hh_cap h))
    = ((if hh_size h = cap then hh_head h else 0) + (hh_size h - 1 - i)) mod cap"
proof -
  have c: "hh_cap h = cap" "i < cap" using assms by (auto simp: history_ok_def)
  have "int (hh_head h) - 1 - int i + int cap = int (hh_head h + (cap - 1 - i))" using c by simp
  then have "nat ((int (hh_head h) - 1 - int i + int cap) mod int cap) = (hh_head h + (cap - 1 - i)) mod cap"
    by (simp only: nat_int zmod_int [symmetric])
  moreover have "hh_size h < cap \<Longrightarrow> hh_head h + (cap - 1 - i) = (hh_size h - 1 - i) + cap"
    using assms c by (simp add: history_ok_def)
  ultimately show ?thesis using assms c by (auto simp: history_ok_def)
qed

lemma GetRecent_view:
  assumes "history_ok cap h" and "0 \<le> n"
  shows "GetRecent n h = Some (take (nat n) (rev (GetAll h)))"
proof -
  let ?m = "min (nat n) (hh_size h)"
  have "hh_cap h = cap" using assms by (simp add: history_ok_def)
  then have "map (\<lambda>i. hh_entries h ! nat ((int (hh_head h) - 1 - int i + int (hh_cap h)) mod int (hh_cap h))) [0..<?m]
      = take (nat n) (rev (GetAll h))"
    using recent_index [OF assms(1)]
    by (intro nth_equalityI) (auto simp: GetAll_length [OF assms(1)] rev_nth GetAll_def Let_def)
  moreover have "nat (if n > int (hh_size h) then int (hh_size h) else n) = ?m" by auto
  ultimately show ?thesis using assms(2) by (simp add: GetRecent_def Let_def)
qed

interpretation history: bounded_history "NewHealthHistory zero (Suc c)" Add GetAll "history_ok (Suc c)" "Suc c" GetRecent
  for zero c
proof unfold_locales
  show "history_ok (Suc c) (NewHealthHistory zero (Suc c))" by (simp add: history_ok_def NewHealthHistory_def)
  show "GetAll (NewHealthHistory zero (Suc c)) = []" by (simp add: GetAll_def NewHealthHistory_def)
  show "\<exists>h'. Add e h = Some h' \<and> history_ok (Suc c) h' \<and> GetAll h' = last_n (Suc c) (GetAll h @ [e])"
    if "history_ok (Suc c) h" for h :: "'a HealthHistory" and e by (rule Add_view [OF that])
  show "GetRecent n h = Some (take (nat n) (rev (GetAll h)))"
    if "history_ok (Suc c) h" "0 \<le> n" for h :: "'a HealthHistory" and n by (rule GetRecent_view [OF that])
qed

text \<open>
  (C13) The ring buffer is a bounded history: whatever results are added to a new buffer of
  positive capacity, adding never fails, reading it all gives the most recent results up
  to the capacity, oldest first, and reading the n most recent gives these newest first.
\<close>

theorem history_bounded:
  assumes "0 < cap"
  shows "\<exists>h. add_all Add es (NewHealthHistory zero cap) = Some h \<and> GetAll h = last_n cap es \<and>
    (\<forall>n. GetRecent (int n) h = Some (take n (rev (last_n cap es))))"
proof -
  obtain c where c: "cap = Suc c" using assms by (cases cap) auto
  from history.history_of [where zero = zero and c = c and es = es]
  obtain h where "add_all Add es (NewHealthHistory zero cap) = Some h" "history_ok cap h" "GetAll h = last_n cap es"
    unfolding c by blast
  moreover from this have "GetRecent (int n) h = Some (take n (rev (last_n cap es)))" for n
    using GetRecent_view [of cap h "int n"] by simp
  ultimately show ?thesis by blast
qed

theorem history_bounded_witness:
  "\<exists>h. add_all Add [1, 2, 3, 4, 5] (NewHealthHistory (0::int) 3) = Some h \<and> GetAll h = [3, 4, 5] \<and>
    (\<forall>n. GetRecent (int n) h = Some (take n [5, 4, 3]))"
  using history_bounded [of 3 "[1, 2, 3, 4, 5]" "0::int"] by (simp add: last_n_def)

section \<open>Statistics\<close>

lemma stats_loop_counts:
  "stats_loop es (ok, bad, d) = (ok', bad', d') \<Longrightarrow>
     ok' = ok + length (filter (\<lambda>e. Healthy (he_Status e)) es) \<and> ok' + bad' = ok + bad + length es"
  by (induction es arbitrary: ok bad d) (auto split: if_splits, fastforce+)

lemma GetAll_mset: "history_ok cap h \<Longrightarrow> mset (GetAll h) = mset (take (hh_size h) (hh_entries h))"
proof -
  assume h: "history_ok cap h"
  show ?thesis
  proof (cases "hh_size h < cap")
    case True
    with GetAll_partial [OF h] show ?thesis by simp
  next
    case False
    with h have "hh_size h = cap" "length (hh_entries h) = cap" by (auto simp: history_ok_def)
    with GetAll_full [OF h] show ?thesis
      by (simp add: rotate_drop_take) (metis append_take_drop_id mset_append union_commute)
  qed
qed

text \<open>
  The statistics count the results in the buffer: as many checks as the buffer holds,
  the successes among them, and the rest as failures, although they are summed in storage
  order.
\<close>

theorem stats_count:
  assumes "history_ok cap h"
  shows "total_checks (Stats h) = length (GetAll h) \<and>
    success_count (Stats h) = length (filter (\<lambda>e. Healthy (he_Status e)) (GetAll h)) \<and>
    success_count (Stats h) + failure_count (Stats h) = total_checks (Stats h)"
proof (cases "hh_size h = 0")
  case True
  then show ?thesis by (simp add: Stats_def GetAll_def)
next
  case False
  obtain ok bad d where l: "stats_loop (take (hh_size h) (hh_entries h)) (0, 0, 0) = (ok, bad, d)"
    using prod_cases3 by blast
  have len: "length (take (hh_size h) (hh_entries h)) = hh_size h" using assms by (simp add: history_ok_def)
  have "length (filter P (GetAll h)) = length (filter P (take (hh_size h) (hh_entries h)))" for P
    using GetAll_mset [OF assms] by (metis mset_filter size_mset)
  with stats_loop_counts [OF l] False len show ?thesis
    by (simp add: Stats_def l GetAll_length [OF assms])
qed

theorem stats_count_witness:
  "total_checks (Stats (NewHealthHistory zero_entry 3)) = length (GetAll (NewHealthHistory zero_entry 3))"
proof -
  have "history_ok 3 (NewHealthHistory zero_entry 3)" by (simp add: history_ok_def NewHealthHistory_def)
  from stats_count [OF this] show ?thesis by simp
qed

section \<open>Checks and backoff\<close>

definition checker_inv :: "HealthChecker \<Rightarrow> bool" where
  "checker_inv h \<longleftrightarrow> history_ok DefaultHistorySize (hc_history h) \<and> 0 \<le> consecutiveFailures h \<and>
     (if consecutiveFailures h = 0 then currentInterval h = hc_interval h else currentInterval h \<le> hc_maxBackoff h)"

lemma checker_inv_new: "checker_inv (NewHealthChecker dsn i m b t)"
  by (simp add: checker_inv_def NewHealthChecker_def history_ok_def NewHealthHistory_def DefaultHistorySize_def)

definition connects :: "pg_answers \<Rightarrow> HealthChecker \<Rightarrow> bool" where
  "connects a h \<longleftrightarrow> hc_conn h \<and> a_ping a = None \<or> a_connect a = None"

lemma getConn_cases:
  "getConn a h = (e, h1) \<Longrightarrow> (e = None \<longleftrightarrow> connects a h) \<and> (\<exists>b. h1 = h\<lparr>hc_conn := b\<rparr>)"
  by (auto simp: getConn_def connects_def split: if_splits option.splits) (metis HealthChecker.surjective HealthChecker.update_convs(11))+

definition check_result :: "pg_answers \<Rightarrow> time \<Rightarrow> time \<Rightarrow> HealthChecker \<Rightarrow> HealthChecker \<Rightarrow> bool" where
  "check_result a start now h h' \<longleftrightarrow>
     hc_ready h' \<and> hc_interval h' = hc_interval h \<and> hc_maxBackoff h' = hc_maxBackoff h \<and>
     (Healthy (hc_status h') \<longleftrightarrow> connects a h \<and> (\<exists>b. a_recovery a = Inr b)) \<and>
     (Healthy (hc_status h') \<longleftrightarrow> StatusError (hc_status h') = '''') \<and>
     (if Healthy (hc_status h') then consecutiveFailures h' = 0 \<and> a_recovery a = Inr (IsInRecovery (hc_status h'))
      else consecutiveFailures h' = consecutiveFailures h + 1) \<and>
     GetAll (hc_history h') = last_n DefaultHistorySize (GetAll (hc_history h) @
       [\<lparr>he_Status = hc_status h', he_Timestamp = start, he_Duration = time_sub now start\<rparr>])"

lemma setStatus_ok:
  assumes "history_ok DefaultHistorySize (hc_history h)"
  obtains hist where "setStatus s d h = Some (h\<lparr>hc_status := s, hc_history := hist, hc_ready := True\<rparr>)"
    "history_ok DefaultHistorySize hist"
    "GetAll hist = last_n DefaultHistorySize (GetAll (hc_history h) @
       [\<lparr>he_Status = s, he_Timestamp = LastCheck s, he_Duration = d\<rparr>])"
  using Add_view [OF assms, of "\<lparr>he_Status = s, he_Timestamp = LastCheck s, he_Duration = d\<rparr>"]
  by (auto simp: setStatus_def)

lemma recordFailure_interval: "currentInterval (recordFailure ovf h) \<le> hc_maxBackoff h"
  by (simp add: recordFailure_def Let_def)

lemma recordFailure_fields [simp]:
  "hc_status (recordFailure ovf h) = hc_status h" "hc_history (recordFailure ovf h) = hc_history h"
  "hc_ready (recordFailure ovf h) = hc_ready h" "hc_interval (recordFailure ovf h) = hc_interval h"
  "hc_maxBackoff (recordFailure ovf h) = hc_maxBackoff h"
  "consecutiveFailures (recordFailure ovf h) = consecutiveFailures h + 1"
  by (simp_all add: recordFailure_def Let_def)

lemma healthy_status_fields [simp]:
  "Healthy (healthy_status a r t)" "StatusError (healthy_status a r t) = ''''" "LastCheck (healthy_status a r t) = t"
  "IsInRecovery (healthy_status a r t) = r"
  by (simp_all add: healthy_status_def zero_HealthStatus_def Let_def split: option.split)

lemma check_step:
  assumes inv: "checker_inv h"
  shows "\<exists>h'. check ovf False start now a h = Some h' \<and> checker_inv h' \<and> check_result a start now h h'"
proof -
  obtain e h1 where g: "getConn a h = (e, h1)" by fastforce
  from getConn_cases [OF g] obtain b where c: "e = None \<longleftrightarrow> connects a h" and h1: "h1 = h\<lparr>hc_conn := b\<rparr>" by blast
  have hist1: "history_ok DefaultHistorySize (hc_history h1)" "history_ok DefaultHistorySize (hc_history (recordSuccess h1))"
    using inv by (simp_all add: checker_inv_def h1 recordSuccess_def)
  have fail: "\<exists>h'. map_option (recordFailure ovf) (setStatus s (time_sub now start) h1) = Some h' \<and> checker_inv h' \<and>
      check_result a start now h h'"
    if s: "\<not> Healthy s" "StatusError s \<noteq> ''''" "LastCheck s = start" and bad: "\<not> (connects a h \<and> (\<exists>b. a_recovery a = Inr b))" for s
    by (rule setStatus_ok [OF hist1(1), of s "time_sub now start"])
      (use s bad inv in \<open>auto simp: check_result_def h1 checker_inv_def recordFailure_interval [THEN order_trans]\<close>)
  show ?thesis
  proof (cases "e = None \<and> (\<exists>r. a_recovery a = Inr r)")
    case True
    then obtain r where r: "e = None" "a_recovery a = Inr r" by blast
    show ?thesis
      by (rule setStatus_ok [OF hist1(2), of "healthy_status a r start" "time_sub now start"])
        (use r c inv in \<open>auto simp: check_def g Let_def check_result_def h1 checker_inv_def recordSuccess_def\<close>)
  next
    case False
    define s where "s = (case e of
        Some x \<Rightarrow> zero_HealthStatus\<lparr>LastCheck := start, StatusError := ''connect: '' @ x\<rparr>
      | None \<Rightarrow> zero_HealthStatus\<lparr>LastCheck := start, AcceptingConns := True,
          StatusError := ''pg_is_in_recovery: '' @ projl (a_recovery a)\<rparr>)"
    have "check ovf False start now a h = map_option (recordFailure ovf) (setStatus s (time_sub now start) h1)"
      using False by (auto simp: check_def g Let_def s_def split: option.split sum.split)
    moreover have "\<not> Healthy s" "StatusError s \<noteq> ''''" "LastCheck s = start"
      by (simp_all add: s_def zero_HealthStatus_def split: option.split)
    ultimately show ?thesis using fail [of s] c False by simp
  qed
qed

text \<open>One check as the loop of the checker runs it: whether the context is over, the two
  clock readings, and the answers.\<close>

type_synonym check_input = "bool \<times> time \<times> time \<times> pg_answers"

fun run_checks :: "(rat \<Rightarrow> int) \<Rightarrow> check_input list \<Rightarrow> HealthChecker \<Rightarrow> HealthChecker option" where
  "run_checks ovf [] h = Some h"
| "run_checks ovf ((c, t0, t1, a) # is) h =
     (case check ovf c t0 t1 a h of None \<Rightarrow> None | Some h' \<Rightarrow> run_checks ovf is h')"

lemma run_checks_inv:
  "checker_inv h \<Longrightarrow> \<exists>h'. run_checks ovf is h = Some h' \<and> checker_inv h' \<and> hc_interval h' = hc_interval h \<and> hc_maxBackoff h' = hc_maxBackoff h"
proof (induction "is" arbitrary: h)
  case Nil
  then show ?case by simp
next
  case (Cons i "is")
  obtain c t0 t1 a where i: "i = (c, t0, t1, a)" by (cases i)
  have "\<exists>h'. check ovf c t0 t1 a h = Some h' \<and> checker_inv h' \<and> hc_interval h' = hc_interval h \<and> hc_maxBackoff h' = hc_maxBackoff h"
  proof (cases c)
    case True
    with Cons.prems show ?thesis by (simp add: check_def)
  next
    case False
    with check_step [OF Cons.prems, of ovf t0 t1 a] show ?thesis by (auto simp: check_result_def)
  qed
  with Cons.IH show ?case unfolding i by fastforce
qed

text \<open>
  Whatever PostgreSQL answers, a run of checks never fails, and the interval to the
  next check is the base interval after a success and never above the maximum backoff
  after a failure.
\<close>

theorem backoff_bounded:
  "\<exists>h. run_checks ovf is (NewHealthChecker dsn i m b t) = Some h \<and>
     (if consecutiveFailures h = 0 then currentInterval h = i
      else currentInterval h \<le> (if m = 0 then 30 * Second else m))"
proof -
  obtain h where "run_checks ovf is (NewHealthChecker dsn i m b t) = Some h" "checker_inv h" "hc_interval h = i"
    "hc_maxBackoff h = (if m = 0 then 30 * Second else m)"
    using run_checks_inv [OF checker_inv_new] by (fastforce simp: NewHealthChecker_def)
  then show ?thesis by (auto simp: checker_inv_def)
qed

text \<open>
  A check reports healthy exactly when it got a connection and the recovery query
  succeeded, and otherwise an error; a success clears the failure count and a failure
  adds one to it; every check adds exactly its own result to the history.
\<close>

theorem check_outcome:
  assumes "checker_inv h"
  shows "\<exists>h'. check ovf False start now a h = Some h' \<and>
     (Healthy (hc_status h') \<longleftrightarrow> connects a h \<and> (\<exists>b. a_recovery a = Inr b)) \<and>
     (Healthy (hc_status h') \<longleftrightarrow> StatusError (hc_status h') = '''') \<and>
     consecutiveFailures h' = (if Healthy (hc_status h') then 0 else consecutiveFailures h + 1) \<and>
     GetAll (hc_history h') = last_n DefaultHistorySize (GetAll (hc_history h) @
       [\<lparr>he_Status = hc_status h', he_Timestamp = start, he_Duration = time_sub now start\<rparr>]) \<and> hc_ready h'"
  using check_step [OF assms, of ovf start now a] unfolding check_result_def by (auto split: if_splits)

definition dead_pg :: pg_answers where
  "dead_pg = \<lparr>a_ping = None, a_connect = Some ''refused'', a_recovery = Inl ''down'', a_lag = None, a_replicas = None,
     a_slots = None, a_active = None\<rparr>"

theorem check_outcome_witness:
  "\<exists>h'. check (\<lambda>_. 0) False 10 20 dead_pg (NewHealthChecker ''d'' Second 0 0 0) = Some h' \<and>
     \<not> Healthy (hc_status h') \<and> consecutiveFailures h' = 1"
proof -
  let ?h = "NewHealthChecker ''d'' Second 0 0 0"
  have "\<not> connects dead_pg ?h" "consecutiveFailures ?h = 0"
    by (simp_all add: connects_def dead_pg_def NewHealthChecker_def)
  with check_outcome [OF checker_inv_new, of "\<lambda>_. 0" 10 20 dead_pg "''d''" Second 0 0 0] show ?thesis by fastforce
qed

text \<open>
  The backoff grows linearly with the number of failures: with a base interval of two
  seconds and a multiplier of two, the third and fourth failures in a row give twelve and
  sixteen seconds, where doubling would give sixteen and thirty-two.
\<close>

theorem backoff_linear:
  "map (\<lambda>n. map_option currentInterval (run_checks (\<lambda>_. 0) (replicate n (False, 0, 0, dead_pg))
      (NewHealthChecker ''d'' (2 * Second) Hour 2 Second))) [1, 2, 3, 4]
   = map Some [4 * Second, 8 * Second, 12 * Second, 16 * Second]"
  by code_simp

end
