(* ===== verification/Replication.thy ===== *)
theory Replication
  imports StoreProps Config
begin

text \<open>
  Replication slots and the managed block of pg_hba.conf,
  src/internal/cluster/replication.go.
\<close>

section \<open>Replication slots\<close>

definition CreateReplicationSlot :: "env \<Rightarrow> string \<Rightarrow> ('z, string option) act" where
  "CreateReplicationSlot E slotName = do {
     err \<leftarrow> pg_CreateSlot E slotName;
     return (map_option (\<lambda>e. ''creating replication slot '' @ slotName @ '': '' @ e) err) }"

text \<open>\<open>rows_open\<close> says that the connection is still reading the rows of an earlier query.\<close>

definition DropReplicationSlot :: "env \<Rightarrow> bool \<Rightarrow> string \<Rightarrow> ('z, string option) act" where
  "DropReplicationSlot E rows_open slotName = do {
     err \<leftarrow> pg_DropSlot E rows_open slotName;
     return (map_option (\<lambda>e. ''dropping replication slot '' @ slotName @ '': '' @ e) err) }"

text \<open>
  The loop over the rows of the listing. Its drops go through the connection that is reading
  these rows.
\<close>

fun cleanup_rows :: "env \<Rightarrow> (string, NodeInfo) fmap \<Rightarrow> (string \<times> bool) option list \<Rightarrow> ('z, unit) act" where
  "cleanup_rows E knownNodes [] = return ()"
| "cleanup_rows E knownNodes (None # rows) = cleanup_rows E knownNodes rows"
| "cleanup_rows E knownNodes (Some (slotName, active) # rows) = do {
     (if fmlookup knownNodes slotName = None \<and> \<not> active
      then do { err \<leftarrow> DropReplicationSlot E True slotName; return () }
      else return ());
     cleanup_rows E knownNodes rows }"

definition CleanupOrphanedSlots :: "env \<Rightarrow> bool \<Rightarrow> ('z, string option) act" where
  "CleanupOrphanedSlots E has_store =
     (if \<not> has_store then return None
      else do {
        knownNodes \<leftarrow> read_fsm E (\<lambda>r. GetAllNodes);
        rows \<leftarrow> pg_QuerySlots E;
        case rows of
          Inl e \<Rightarrow> return (Some (''querying replication slots: '' @ e))
        | Inr rows \<Rightarrow> do { cleanup_rows E knownNodes rows; return None } })"

section \<open>Commands\<close>

definition ReloadPostgreSQL :: "env \<Rightarrow> Config \<Rightarrow> ('z, string option) act" where
  "ReloadPostgreSQL E cfg = do {
     (output, err) \<leftarrow> executor_Run E [filepath_Join [pg_BinDir (c_PostgreSQL cfg), ''pg_ctl''], ''reload'', ''-D'',
       pg_DataDir (c_PostgreSQL cfg)];
     return (map_option (\<lambda>e. ''pg_ctl reload: '' @ output @ '': '' @ e) err) }"

definition basebackup_args :: "Config \<Rightarrow> string \<Rightarrow> string list" where
  "basebackup_args cfg primaryHost =
     (let pg = c_PostgreSQL cfg
      in [filepath_Join [pg_BinDir pg, ''pg_basebackup''], ''-h'', primaryHost, ''-p'', show_int (pg_Port pg),
          ''-U'', pg_ReplicationUser pg, ''-D'', pg_DataDir pg, ''-Fp'', ''-Xs'', ''-P'', ''-R''])"

definition Reinitialize :: "env \<Rightarrow> Config \<Rightarrow> string \<Rightarrow> ('z, string option) act" where
  "Reinitialize E cfg primaryHost = do {
     (output, err) \<leftarrow> executor_Run E (basebackup_args cfg primaryHost);
     return (map_option (\<lambda>e. ''pg_basebackup: '' @ output @ '': '' @ e) err) }"

section \<open>pg_hba.conf\<close>

definition pgHBAMarkerBegin :: string where
  "pgHBAMarkerBegin = ''# BEGIN pgbastion managed block - do not edit between markers''"

definition pgHBAMarkerEnd :: string where
  "pgHBAMarkerEnd = ''# END pgbastion managed block''"

abbreviation nl :: char where "nl \<equiv> CHR 0x0A"

text \<open>The rendering of the template: its trim markers remove the line ends after the range
  and after its end.\<close>

definition render_pg_hba :: "string \<Rightarrow> string \<Rightarrow> string list \<Rightarrow> string" where
  "render_pg_hba su ru hosts =
     ''# TYPE  DATABASE        USER            ADDRESS                 METHOD'' @ [nl]
     @ ''local   all             '' @ su @ ''                          trust'' @ [nl]
     @ ''host    all             '' @ su @ ''  127.0.0.1/32            trust'' @ [nl]
     @ ''host    all             '' @ su @ ''  ::1/128                 trust'' @ [nl]
     @ concat (map (\<lambda>h. ''host    replication     '' @ ru @ ''  '' @ h @ ''/32    trust'' @ [nl]
         @ ''host    all             '' @ su @ ''        '' @ h @ ''/32    trust'' @ [nl]) hosts)"

text \<open>strings.Index: the position of the first occurrence.\<close>

fun str_index :: "string \<Rightarrow> string \<Rightarrow> nat option" where
  "str_index p [] = (if p = [] then Some 0 else None)"
| "str_index p (c # s) = (if take (length p) (c # s) = p then Some 0 else map_option Suc (str_index p s))"

definition managed :: "string \<Rightarrow> string" where
  "managed block = pgHBAMarkerBegin @ [nl] @ block @ pgHBAMarkerEnd"

definition new_pg_hba :: "string \<Rightarrow> string \<Rightarrow> string" where
  "new_pg_hba content block =
     (if content = [] then managed block @ [nl]
      else case (str_index pgHBAMarkerBegin content, str_index pgHBAMarkerEnd content) of
          (Some b, Some e) \<Rightarrow>
            if e > b then take b content @ managed block @ drop (e + length pgHBAMarkerEnd) content
            else content @ [nl] @ managed block @ [nl]
        | (None, None) \<Rightarrow>
            content @ (if last content = nl then [] else [nl]) @ [nl] @ managed block @ [nl]
        | _ \<Rightarrow> content @ [nl] @ managed block @ [nl])"

text \<open>The file as it is found, and what creating and writing it return.\<close>

datatype hba_file = Absent | Unreadable | Present string

record hba_fs =
  fs_file :: hba_file
  fs_create :: "string option"
  fs_write :: "string option"

text \<open>The error, and what was handed to the file system: the backup and the new content.\<close>

record hba_result =
  hba_error :: "string option"
  hba_backup :: "string option"
  hba_written :: "string option"

definition WritePGHBA :: "env \<Rightarrow> Config \<Rightarrow> bool \<Rightarrow> hba_fs \<Rightarrow> ('z, hba_result) act" where
  "WritePGHBA E cfg has_store fs =
     (if \<not> has_store
      then return \<lparr>hba_error = Some ''no consensus store available'', hba_backup = None, hba_written = None\<rparr>
      else do {
        hosts \<leftarrow> read_fsm E (\<lambda>r s. map ni_Host (range_vals r (Nodes s)));
        let pg = c_PostgreSQL cfg;
        let block = render_pg_hba (pg_Superuser pg) (pg_ReplicationUser pg) hosts;
        let existing = (case fs_file fs of Present c \<Rightarrow> c | _ \<Rightarrow> []);
        let backup = (case fs_file fs of Present c \<Rightarrow> Some c | _ \<Rightarrow> None);
        let content = new_pg_hba existing block;
        return (case fs_create fs of
            Some e \<Rightarrow> \<lparr>hba_error = Some (''creating pg_hba.conf: '' @ e), hba_backup = backup, hba_written = None\<rparr>
          | None \<Rightarrow> (case fs_write fs of
              Some e \<Rightarrow> \<lparr>hba_error = Some (''writing pg_hba.conf: '' @ e), hba_backup = backup, hba_written = None\<rparr>
            | None \<Rightarrow> \<lparr>hba_error = None, hba_backup = backup, hba_written = Some content\<rparr>)) })"

section \<open>What the operations keep\<close>

lemma cleanup_rows_keeps [keeps_intros]: "stable I \<Longrightarrow> keeps_inv I (cleanup_rows E m rows)"
  by (induction E m rows rule: cleanup_rows.induct)
    (auto simp: DropReplicationSlot_def intro!: keeps_intros)

lemma CleanupOrphanedSlots_keeps [keeps_intros]: "stable I \<Longrightarrow> keeps_inv I (CleanupOrphanedSlots E b)"
  unfolding CleanupOrphanedSlots_def by (intro keeps_intros)

section \<open>Orphaned slots\<close>

definition orphaned :: "(string, NodeInfo) fmap \<Rightarrow> (string \<times> bool) option \<Rightarrow> string option" where
  "orphaned m row = (case row of Some (n, active) \<Rightarrow> if fmlookup m n = None \<and> \<not> active then Some n else None
     | None \<Rightarrow> None)"

text \<open>The slots PostgreSQL was asked to drop, and those of them it dropped.\<close>

definition asked_names :: "event list \<Rightarrow> string list" where
  "asked_names t = List.map_filter (\<lambda>e. case e of DroppedSlot n _ \<Rightarrow> Some n | _ \<Rightarrow> None) t"

definition dropped_names :: "event list \<Rightarrow> string list" where
  "dropped_names t = List.map_filter (\<lambda>e. case e of DroppedSlot n None \<Rightarrow> Some n | _ \<Rightarrow> None) t"

lemma slot_names_append [simp]:
  "asked_names (s @ t) = asked_names s @ asked_names t" "dropped_names (s @ t) = dropped_names s @ dropped_names t"
  by (simp_all add: asked_names_def dropped_names_def List.map_filter_def)

lemma slot_names_simps [simp]:
  "asked_names [] = []" "asked_names (DroppedSlot n e # t) = n # asked_names t"
  "dropped_names [] = []" "dropped_names (DroppedSlot n e # t) = (if e = None then [n] else []) @ dropped_names t"
  by (simp_all add: asked_names_def dropped_names_def List.map_filter_def split: option.split)

lemma cleanup_rows_asks:
  "asked_names (w_trace (snd (run_state (cleanup_rows E m rows) w)))
     = asked_names (w_trace w) @ List.map_filter (orphaned m) rows"
proof (induction E m rows arbitrary: w rule: cleanup_rows.induct)
  case (3 E m n a rows)
  then show ?case
    by (auto simp: DropReplicationSlot_def pg_DropSlot_def Let_def orphaned_def List.map_filter_def)
qed (simp_all add: orphaned_def List.map_filter_def)

lemma cleanup_rows_busy:
  assumes "\<And>k n. e_open_rows E k n \<noteq> None"
  shows "dropped_names (w_trace (snd (run_state (cleanup_rows E m rows) w))) = dropped_names (w_trace w)"
  using assms
proof (induction E m rows arbitrary: w rule: cleanup_rows.induct)
  case (3 E m n a rows)
  obtain e where "e_open_rows E (w_k w) n = Some e" using "3.prems" by fastforce
  with "3.IH" "3.prems" show ?case by (simp add: DropReplicationSlot_def pg_DropSlot_def Let_def)
qed simp_all

text \<open>
  (C14) The cleanup asks PostgreSQL to drop exactly the physical slots that are inactive and carry
  no known node's name, once each and in the order listed, and no other slot, whatever it is
  answered. But it asks on the connection that is still reading the list: with a driver that
  refuses queries on such a connection, as pgx documents, no slot is ever dropped, and the
  cleanup reports no error.
\<close>

theorem orphaned_slots_exact:
  "let (err, w') = run_state (CleanupOrphanedSlots E True) w;
       nodes = GetAllNodes (apply_log (e_arrive E (w_k w)) (w_fsm w))
   in case e_slots E (w_k w + 1) of
        Inl e \<Rightarrow> err = Some (''querying replication slots: '' @ e) \<and> w_trace w' = w_trace w
      | Inr rows \<Rightarrow> err = None \<and>
          asked_names (w_trace w') = asked_names (w_trace w) @ List.map_filter (orphaned nodes) rows \<and>
          ((\<forall>k n. e_open_rows E k n \<noteq> None) \<longrightarrow> dropped_names (w_trace w') = dropped_names (w_trace w))"
proof (cases "e_slots E (w_k w + 1)")
  case (Inr rows)
  let ?nodes = "GetAllNodes (apply_log (e_arrive E (w_k w)) (w_fsm w))"
  have "run_state (CleanupOrphanedSlots E True) w = (None, snd (run_state (cleanup_rows E ?nodes rows) (arrive E (arrive E w))))"
    using Inr by (simp add: CleanupOrphanedSlots_def split: prod.split)
  then show ?thesis
    using Inr cleanup_rows_asks [of E ?nodes rows "arrive E (arrive E w)"] cleanup_rows_busy [of E ?nodes rows "arrive E (arrive E w)"]
    by simp
qed (simp add: CleanupOrphanedSlots_def)

definition ex_slots :: env where
  "ex_slots = quiet_env\<lparr>e_slots := (\<lambda>_. Inr [Some (''old'', False), Some (''live'', True)])\<rparr>"

theorem orphaned_slots_exact_witness:
  "dropped_names (w_trace (snd (run_state (CleanupOrphanedSlots ex_slots True) \<lparr>w_k = 0, w_fsm = NewClusterFSM, w_trace = []\<rparr>))) = []"
  using orphaned_slots_exact [of ex_slots "\<lparr>w_k = 0, w_fsm = NewClusterFSM, w_trace = []\<rparr>"]
  by (simp add: ex_slots_def quiet_env_def Let_def split: prod.splits)

section \<open>The managed block\<close>

lemma take_prefix_iff:
  assumes "nl \<notin> set p"
  shows "take (length p) (xs @ nl # ys) = p \<longleftrightarrow> take (length p) xs = p"
proof (cases "length p \<le> length xs")
  case True
  then show ?thesis by simp
next
  case False
  then have "nl \<in> set (take (length p) (xs @ nl # ys))" by (simp add: take_Cons')
  moreover have "take (length p) xs \<noteq> p" using False by (metis length_take min.absorb_iff1 nle_le take_all)
  ultimately show ?thesis using assms by metis
qed

lemma str_index_nl:
  assumes "nl \<notin> set p" and "p \<noteq> []"
  shows "str_index p (xs @ nl # ys) =
    (case str_index p xs of Some i \<Rightarrow> Some i | None \<Rightarrow> map_option (\<lambda>j. length xs + 1 + j) (str_index p ys))"
proof (induction xs)
  case Nil
  have "take (length p) (nl # ys) \<noteq> p" using assms by (cases p) auto
  with assms show ?case by (cases "str_index p ys") auto
next
  case (Cons c xs)
  have "take (length p) ((c # xs) @ nl # ys) = p \<longleftrightarrow> take (length p) (c # xs) = p"
    by (rule take_prefix_iff [OF assms(1)])
  with Cons show ?case by (cases "str_index p xs"; cases "str_index p ys") auto
qed

lemma str_index_prefix: "str_index p (p @ s) = Some 0"
  by (cases "p @ s") (auto split: if_splits, metis append_eq_conv_conj)

definition no_marker :: "string \<Rightarrow> bool" where
  "no_marker s \<longleftrightarrow> str_index pgHBAMarkerBegin s = None \<and> str_index pgHBAMarkerEnd s = None"

definition line_end :: "string \<Rightarrow> bool" where
  "line_end s \<longleftrightarrow> s = [] \<or> last s = nl"

lemma markers: "nl \<notin> set pgHBAMarkerBegin" "pgHBAMarkerBegin \<noteq> []" "nl \<notin> set pgHBAMarkerEnd" "pgHBAMarkerEnd \<noteq> []"
  "str_index pgHBAMarkerEnd pgHBAMarkerBegin = None"
  by (code_simp+)

lemma index_after_lines:
  assumes "nl \<notin> set p" "p \<noteq> []" "line_end pre" "str_index p pre = None"
  shows "str_index p (pre @ s) = map_option ((+) (length pre)) (str_index p s)"
proof (cases "pre = []")
  case True
  then show ?thesis by (cases "str_index p s") auto
next
  case False
  with assms(3) obtain q where q: "pre = q @ [nl]" unfolding line_end_def by (metis append_butlast_last_id)
  have "str_index p q = None"
    using assms(4) str_index_nl [OF assms(1,2), of q "[]"] unfolding q by (auto split: option.splits)
  with str_index_nl [OF assms(1,2), of q s] show ?thesis unfolding q by (auto simp: comp_def)
qed

lemma index_managed:
  assumes "line_end pre" "no_marker pre" "line_end m" "no_marker m"
  shows "str_index pgHBAMarkerBegin (pre @ managed m @ post) = Some (length pre)"
    and "str_index pgHBAMarkerEnd (pre @ managed m @ post) = Some (length pre + (length pgHBAMarkerBegin + (1 + length m)))"
proof -
  show "str_index pgHBAMarkerBegin (pre @ managed m @ post) = Some (length pre)"
    using assms index_after_lines [OF markers(1,2) assms(1)] str_index_prefix [of pgHBAMarkerBegin]
    by (simp add: no_marker_def managed_def)
  have "str_index pgHBAMarkerEnd (m @ pgHBAMarkerEnd @ post) = Some (length m)"
    using assms index_after_lines [OF markers(3,4) assms(3)] str_index_prefix [of pgHBAMarkerEnd] by (simp add: no_marker_def)
  then have "str_index pgHBAMarkerEnd (managed m @ post) = Some (length pgHBAMarkerBegin + (1 + length m))"
    using str_index_nl [OF markers(3,4), of pgHBAMarkerBegin "m @ pgHBAMarkerEnd @ post"] markers(5) by (simp add: managed_def)
  then show "str_index pgHBAMarkerEnd (pre @ managed m @ post) = Some (length pre + (length pgHBAMarkerBegin + (1 + length m)))"
    using assms index_after_lines [OF markers(3,4) assms(1)] by (simp add: no_marker_def)
qed

lemma replace_block:
  assumes "line_end pre" "no_marker pre" "line_end m1" "no_marker m1"
  shows "new_pg_hba (pre @ managed m1 @ post) m2 = pre @ managed m2 @ post"
proof -
  have "pre @ managed m1 @ post \<noteq> []" using markers(2) by (simp add: managed_def)
  moreover have "drop (length pre + (length pgHBAMarkerBegin + (1 + length m1)) + length pgHBAMarkerEnd) (pre @ managed m1 @ post) = post"
    by (simp add: managed_def)
  ultimately show ?thesis
    by (simp add: new_pg_hba_def index_managed [OF assms])
qed

lemma no_marker_line: "no_marker c \<Longrightarrow> no_marker (c @ [nl])"
  using str_index_nl [OF markers(1,2), of c "[]"] str_index_nl [OF markers(3,4), of c "[]"] markers(2,4)
  by (simp add: no_marker_def)

text \<open>
  (C15) Rewriting pg_hba.conf touches nothing but the managed block. In a file without the markers
  the old content stays as it is and the block is appended, after at most two line ends; in a
  file with a block, the lines before the block and whatever comes after it are kept and the
  block between the markers is replaced; so a second rewrite gives what it alone would have
  given. (Lines before the block end with a line end and hold no marker, as do the block's own.)
\<close>

theorem pg_hba_rewrite:
  assumes "no_marker content" and "line_end m1" and "no_marker m1" and "line_end pre" and "no_marker pre"
  shows "(\<exists>gap. gap \<in> {[], [nl], [nl, nl]} \<and> new_pg_hba content m1 = content @ gap @ managed m1 @ [nl]) \<and>
    new_pg_hba (pre @ managed m1 @ post) m2 = pre @ managed m2 @ post \<and>
    new_pg_hba (new_pg_hba content m1) m2 = new_pg_hba content m2"
proof -
  have again: "new_pg_hba (new_pg_hba content m1) m2 = new_pg_hba content m2 \<and>
    (\<exists>gap. gap \<in> {[], [nl], [nl, nl]} \<and> new_pg_hba content m1 = content @ gap @ managed m1 @ [nl])"
  proof (cases "content = []")
    case True
    then show ?thesis
      using replace_block [of "[]" m1 "[nl]" m2] assms markers(2,4) by (simp add: new_pg_hba_def line_end_def no_marker_def)
  next
    case False
    define gap where "gap = (if last content = nl then [] else [nl]) @ [nl]"
    have new: "new_pg_hba content m = content @ gap @ managed m @ [nl]" for m
      using False assms(1) by (simp add: new_pg_hba_def no_marker_def gap_def)
    have "no_marker (content @ (if last content = nl then [] else [nl]))" using assms(1) no_marker_line by simp
    then have "no_marker (content @ gap)" unfolding gap_def using no_marker_line by fastforce
    moreover have "line_end (content @ gap)" by (simp add: line_end_def gap_def)
    ultimately have "new_pg_hba ((content @ gap) @ managed m1 @ [nl]) m2 = (content @ gap) @ managed m2 @ [nl]"
      using replace_block assms(2,3) by blast
    then show ?thesis using new by (auto simp: gap_def)
  qed
  with replace_block [OF assms(4,5,2,3)] show ?thesis by blast
qed

theorem pg_hba_rewrite_witness:
  "new_pg_hba (''# mine'' @ [nl] @ managed (''a'' @ [nl]) @ ''local all all peer'') (''b'' @ [nl])
     = ''# mine'' @ [nl] @ managed (''b'' @ [nl]) @ ''local all all peer''"
proof -
  have "no_marker ''local all all peer''" "line_end (''a'' @ [nl])" "no_marker (''a'' @ [nl])"
    "line_end (''# mine'' @ [nl])" "no_marker (''# mine'' @ [nl])" by code_simp+
  from pg_hba_rewrite [OF this] show ?thesis by simp
qed

end
