(* ===== verification/Manager.thy ===== *)
theory Manager
  imports FailoverProps Health Replication
begin

text \<open>
  The cluster manager of one node, src/internal/cluster/manager.go: its state machine,
  the execution of directives, Raft error backoff, failover detection, and self-fencing.

  One turn of the manager's loop is \<open>evaluate\<close>, given the health status it reads. The
  fields are guarded by one mutex that is held around single accesses, so each access is
  a step. Turns and API calls of one node interleave as whole operations here.
\<close>

section \<open>State\<close>

datatype node_state =
    StateInitializing
  | StateRunningPrimary
  | StateRunningReplica
  | StateFailoverInProgress
  | StateDemoting
  | StatePromoting
  | StateReplicaLagging
  | StateRecovering
  | StateFenced

fun state_string :: "node_state \<Rightarrow> string" where
  "state_string StateInitializing = ''INITIALIZING''"
| "state_string StateRunningPrimary = ''RUNNING_PRIMARY''"
| "state_string StateRunningReplica = ''RUNNING_REPLICA''"
| "state_string StateFailoverInProgress = ''FAILOVER_IN_PROGRESS''"
| "state_string StateDemoting = ''DEMOTING''"
| "state_string StatePromoting = ''PROMOTING''"
| "state_string StateReplicaLagging = ''REPLICA_LAGGING''"
| "state_string StateRecovering = ''RECOVERING''"
| "state_string StateFenced = ''FENCED''"

definition SlotCleanupInterval :: duration where "SlotCleanupInterval = Hour"

record mworld = fworld +
  m_cfg :: Config
  m_has_store :: bool
  m_has_failover :: bool
  m_has_replication :: bool
  m_state :: node_state
  paused :: bool
  raftErrorCount :: int
  raftErrorBackoff :: duration
  lastRaftError :: time
  lastSlotCleanup :: time
  quorumLostAt :: time

type_synonym ('z, 'a) mact = "('z mworld_scheme, 'a) state"

section \<open>Accessors\<close>

definition Manager_State :: "('z, node_state) mact" where "Manager_State = gets m_state"

definition IsPaused :: "('z, bool) mact" where "IsPaused = gets paused"

definition Pause :: "('z, unit) mact" where "Pause = modify (paused_update (\<lambda>_. True))"

definition Resume :: "('z, unit) mact" where "Resume = modify (paused_update (\<lambda>_. False))"

section \<open>Raft errors\<close>

definition recordRaftError :: "env \<Rightarrow> error \<Rightarrow> ('z, unit) mact" where
  "recordRaftError E err =
     (if err = None
      then modify (\<lambda>w. w\<lparr>raftErrorCount := 0, raftErrorBackoff := 0\<rparr>)
      else do {
        modify (raftErrorCount_update (\<lambda>n. n + 1));
        now \<leftarrow> time_Now E;
        modify (lastRaftError_update (\<lambda>_. now));
        modify (raftErrorBackoff_update (\<lambda>b.
          if b = 0 then Second else if b < 30 * Second then b * 2 else b)) })"

definition isRaftBackoff :: "env \<Rightarrow> ('z, bool) mact" where
  "isRaftBackoff E = do {
     n \<leftarrow> gets raftErrorCount;
     if n = 0 then return False
     else do {
       now \<leftarrow> time_Now E;
       last \<leftarrow> gets lastRaftError;
       backoff \<leftarrow> gets raftErrorBackoff;
       return (time_sub now last < backoff) } }"

section \<open>State changes\<close>

definition setState :: "env \<Rightarrow> node_state \<Rightarrow> ('z, unit) mact" where
  "setState E newState = do {
     oldState \<leftarrow> gets m_state;
     modify (m_state_update (\<lambda>_. newState));
     hs \<leftarrow> gets m_has_store;
     if oldState \<noteq> newState \<and> hs then do {
       now \<leftarrow> time_Now E;
       cfg \<leftarrow> gets m_cfg;
       err \<leftarrow> UpdateNodeHealth E (zero_NodeInfo\<lparr>ni_Name := nc_Name (c_Node cfg), ni_State := state_string newState,
           ni_LastSeen := now\<rparr>);
       return () }
     else return () }"

section \<open>Directives\<close>

fun completeDirectiveWithRetry :: "env \<Rightarrow> nat \<Rightarrow> string \<Rightarrow> string \<Rightarrow> ('z, unit) mact" where
  "completeDirectiveWithRetry E 0 directiveID errMsg = return ()"
| "completeDirectiveWithRetry E (Suc left) directiveID errMsg = do {
     err \<leftarrow> CompleteDirective E directiveID errMsg;
     case err of
       None \<Rightarrow> recordRaftError E None
     | Some e \<Rightarrow> do {
         (if e = ErrNotLeader then recordRaftError E err else return ());
         if left = 0 then return ()
         else do {
           ctxDone \<leftarrow> ctx_Done E;
           if ctxDone then return ()
           else completeDirectiveWithRetry E left directiveID errMsg } } }"

definition maxRetries :: nat where "maxRetries = 5"

definition failed_run :: "string \<Rightarrow> string \<Rightarrow> string \<Rightarrow> string" where
  "failed_run what output err = what @ '': '' @ output @ '': '' @ err"

definition pg_ctl :: "Config \<Rightarrow> string list \<Rightarrow> string list" where
  "pg_ctl cfg args = filepath_Join [pg_BinDir (c_PostgreSQL cfg), ''pg_ctl''] # args"

definition stop_args :: "Config \<Rightarrow> string list" where
  "stop_args cfg = pg_ctl cfg [''stop'', ''-D'', pg_DataDir (c_PostgreSQL cfg), ''-m'', ''fast'']"

definition exec_fence :: "env \<Rightarrow> Config \<Rightarrow> ('z, string option) mact" where
  "exec_fence E cfg = do {
     setState E StateFenced;
     (output, err) \<leftarrow> executor_Run E (stop_args cfg);
     return (map_option (failed_run ''pg_ctl stop'' output) err) }"

definition exec_promote :: "env \<Rightarrow> Config \<Rightarrow> ('z, string option) mact" where
  "exec_promote E cfg = do {
     setState E StatePromoting;
     (output, err) \<leftarrow> executor_Run E (pg_ctl cfg [''promote'', ''-D'', pg_DataDir (c_PostgreSQL cfg)]);
     case err of
       Some e \<Rightarrow> return (Some (failed_run ''pg_ctl promote'' output e))
     | None \<Rightarrow> do {
         hs \<leftarrow> gets m_has_store;
         (if hs then do {
            now \<leftarrow> time_Now E;
            e \<leftarrow> SetPrimary E (zero_NodeInfo\<lparr>ni_Name := nc_Name (c_Node cfg), ni_Host := nc_Address (c_Node cfg),
                ni_Port := pg_Port (c_PostgreSQL cfg), ni_State := ''running'', ni_LastSeen := now\<rparr>);
            return () }
          else return ());
         setState E StateRunningPrimary;
         return None } }"

definition exec_demote :: "env \<Rightarrow> Config \<Rightarrow> ('z, string option) mact" where
  "exec_demote E cfg = do {
     setState E StateDemoting;
     (output, err) \<leftarrow> executor_Run E (stop_args cfg);
     case err of
       Some e \<Rightarrow> return (Some (failed_run ''pg_ctl stop for demote'' output e))
     | None \<Rightarrow> do {
         (output, err) \<leftarrow> executor_Run E [''touch'', filepath_Join [pg_DataDir (c_PostgreSQL cfg), ''standby.signal'']];
         case err of
           Some e \<Rightarrow> return (Some (''creating standby.signal: '' @ e))
         | None \<Rightarrow> do {
             (output, err) \<leftarrow> executor_Run E (pg_ctl cfg [''start'', ''-D'', pg_DataDir (c_PostgreSQL cfg)]);
             case err of
               Some e \<Rightarrow> return (Some (failed_run ''pg_ctl start after demote'' output e))
             | None \<Rightarrow> do { setState E StateRunningReplica; return None } } } }"

definition exec_checkpoint :: "env \<Rightarrow> Config \<Rightarrow> ('z, string option) mact" where
  "exec_checkpoint E cfg = do {
     (output, err) \<leftarrow> executor_Run E [filepath_Join [pg_BinDir (c_PostgreSQL cfg), ''psql''], ''-h'', ''localhost'', ''-p'',
       show_int (pg_Port (c_PostgreSQL cfg)), ''-U'', pg_Superuser (c_PostgreSQL cfg), ''-c'', ''CHECKPOINT''];
     return (map_option (failed_run ''CHECKPOINT'' output) err) }"

definition param :: "Directive \<Rightarrow> string \<Rightarrow> string" where
  "param d k = (case mget (d_Params d) k of None \<Rightarrow> '''' | Some v \<Rightarrow> v)"

definition exec_rewind :: "env \<Rightarrow> Config \<Rightarrow> Directive \<Rightarrow> ('z, string option) mact" where
  "exec_rewind E cfg d =
     (let targetPrimary = param d ''target_primary''; pg = c_PostgreSQL cfg
      in if targetPrimary = '''' then return (Some ''pg_rewind: target_primary param required'')
         else do {
           (output, err) \<leftarrow> executor_Run E [filepath_Join [pg_BinDir pg, ''pg_rewind''],
             ''--target-pgdata='' @ pg_DataDir pg,
             ''--source-server='' @ ''host='' @ targetPrimary @ '' port='' @ show_int (pg_Port pg) @ '' user='' @ pg_Superuser pg];
           return (map_option (failed_run ''pg_rewind'' output) err) })"

definition exec_basebackup :: "env \<Rightarrow> Config \<Rightarrow> Directive \<Rightarrow> ('z, string option) mact" where
  "exec_basebackup E cfg d =
     (let primaryHost = param d ''primary_host''
      in if primaryHost = '''' then return (Some ''pg_basebackup: primary_host param required'')
         else do {
           (output, err) \<leftarrow> executor_Run E (basebackup_args cfg primaryHost);
           return (map_option (failed_run ''pg_basebackup'' output) err) })"

definition executeDirective :: "env \<Rightarrow> Directive \<Rightarrow> ('z, string option) mact" where
  "executeDirective E d = do {
     cfg \<leftarrow> gets m_cfg;
     let t = d_Type d;
     if t = DirectiveFence then exec_fence E cfg
     else if t = DirectivePromote then exec_promote E cfg
     else if t = DirectiveDemote then exec_demote E cfg
     else if t = DirectiveCheckpoint then exec_checkpoint E cfg
     else if t = DirectiveRewind then exec_rewind E cfg d
     else if t = DirectiveBasebackup then exec_basebackup E cfg d
     else return (Some (''unknown directive type: '' @ t)) }"

fun process_loop :: "env \<Rightarrow> Directive list \<Rightarrow> ('z, unit) mact" where
  "process_loop E [] = return ()"
| "process_loop E (d # ds) = do {
     err \<leftarrow> executeDirective E d;
     completeDirectiveWithRetry E maxRetries (d_ID d) (case err of None \<Rightarrow> '''' | Some e \<Rightarrow> e);
     process_loop E ds }"

definition processDirectives :: "env \<Rightarrow> ('z, unit) mact" where
  "processDirectives E = do {
     hs \<leftarrow> gets m_has_store;
     if \<not> hs then return ()
     else do {
       cfg \<leftarrow> gets m_cfg;
       ds \<leftarrow> Store_GetDirectivesForNode E (nc_Name (c_Node cfg));
       process_loop E ds } }"

section \<open>Slots and health\<close>

definition maybeCleanupOrphanedSlots :: "env \<Rightarrow> ('z, unit) mact" where
  "maybeCleanupOrphanedSlots E = do {
     st \<leftarrow> gets m_state;
     if st \<noteq> StateRunningPrimary then return ()
     else do {
       lastCleanup \<leftarrow> gets lastSlotCleanup;
       now \<leftarrow> time_Now E;
       if time_sub now lastCleanup < SlotCleanupInterval then return ()
       else do {
         hr \<leftarrow> gets m_has_replication;
         if \<not> hr then return ()
         else do {
           err \<leftarrow> pg_Connect E;
           if err \<noteq> None then return ()
           else do {
             hs \<leftarrow> gets m_has_store;
             err \<leftarrow> CleanupOrphanedSlots E hs;
             if err \<noteq> None then return ()
             else do {
               now \<leftarrow> time_Now E;
               modify (lastSlotCleanup_update (\<lambda>_. now)) } } } } } }"

definition health_role :: "HealthStatus \<Rightarrow> string" where
  "health_role status =
     (if IsInRecovery status then ''replica'' else if Healthy status then ''primary'' else ''unknown'')"

definition updateNodeHealthInFSM :: "env \<Rightarrow> HealthStatus \<Rightarrow> ('z, unit) mact" where
  "updateNodeHealthInFSM E status = do {
     hs \<leftarrow> gets m_has_store;
     if \<not> hs then return ()
     else do {
       cfg \<leftarrow> gets m_cfg;
       st \<leftarrow> gets m_state;
       now \<leftarrow> time_Now E;
       err \<leftarrow> UpdateNodeHealth E \<lparr>ni_Name = nc_Name (c_Node cfg), ni_Host = nc_Address (c_Node cfg),
           ni_Port = pg_Port (c_PostgreSQL cfg), ni_Role = health_role status, ni_State = state_string st,
           ni_Lag = ReplicationLag status, ni_Timeline = 0, ni_LastSeen = now\<rparr>;
       return () } }"

section \<open>Failover detection\<close>

definition checkPrimaryHealth :: "env \<Rightarrow> ('z, unit) mact" where
  "checkPrimaryHealth E = do {
     hf \<leftarrow> gets m_has_failover;
     if \<not> hf then return ()
     else do {
       primary \<leftarrow> read_fsm E (\<lambda>r. GetPrimary);
       cfg \<leftarrow> gets m_cfg;
       case primary of
         None \<Rightarrow> return ()
       | Some primary \<Rightarrow>
           if ni_Name primary = nc_Name (c_Node cfg) then return ()
           else do {
             nodes \<leftarrow> read_fsm E (\<lambda>r. GetAllNodes);
             case fmlookup nodes (ni_Name primary) of
               None \<Rightarrow> return ()
             | Some primaryNode \<Rightarrow> do {
                 now \<leftarrow> time_Now E;
                 if time_sub now (ni_LastSeen primaryNode) > fo_ConfirmationPeriod (c_Failover cfg) then do {
                   should \<leftarrow> ShouldFailover E primaryNode;
                   if should then do {
                     setState E StateFailoverInProgress;
                     err \<leftarrow> ExecuteFailover E (ni_Name primary);
                     (if err \<noteq> None then setState E StateRunningReplica else return ()) }
                   else return () }
                 else return () } } } }"

section \<open>Self-fencing\<close>

definition selfFence :: "env \<Rightarrow> ('z, unit) mact" where
  "selfFence E = do {
     setState E StateFenced;
     cfg \<leftarrow> gets m_cfg;
     (output, err) \<leftarrow> executor_Run E (stop_args cfg);
     return () }"

definition quorum_timeout :: "Config \<Rightarrow> duration" where
  "quorum_timeout cfg =
     (if fo_QuorumLossTimeout (c_Failover cfg) = 0 then 30 * Second else fo_QuorumLossTimeout (c_Failover cfg))"

definition checkQuorumAndSelfFence :: "env \<Rightarrow> ('z, unit) mact" where
  "checkQuorumAndSelfFence E = do {
     cfg \<leftarrow> gets m_cfg;
     if \<not> IsSplitBrainProtectionEnabled (c_Failover cfg) then return ()
     else do {
       hs \<leftarrow> gets m_has_store;
       if \<not> hs then return ()
       else do {
         hasQuorum \<leftarrow> HasQuorum E (quorum_timeout cfg);
         if hasQuorum then modify (quorumLostAt_update (\<lambda>_. zero_time))
         else do {
           lost \<leftarrow> gets quorumLostAt;
           if IsZero lost then do {
             now \<leftarrow> time_Now E;
             modify (quorumLostAt_update (\<lambda>_. now)) }
           else do {
             now \<leftarrow> time_Now E;
             if time_sub now lost \<ge> quorum_timeout cfg then selfFence E else return () } } } } }"

section \<open>One turn of the loop\<close>

definition considers_failover :: "env \<Rightarrow> ('z, bool) mact" where
  "considers_failover E = do {
     hs \<leftarrow> gets m_has_store;
     if \<not> hs then return False
     else do {
       l \<leftarrow> IsLeader E;
       if \<not> l then return False
       else do {
         p \<leftarrow> gets paused;
         if p then return False
         else do { b \<leftarrow> isRaftBackoff E; return (\<not> b) } } } }"

definition evaluate_replica :: "env \<Rightarrow> HealthStatus \<Rightarrow> ('z, unit) mact" where
  "evaluate_replica E status =
     (if \<not> Healthy status then setState E StateRecovering
      else if \<not> IsInRecovery status then setState E StateRunningPrimary
      else do {
        cfg \<leftarrow> gets m_cfg;
        let threshold = fo_MaxLagThreshold (c_Failover cfg);
        (if threshold > 0 \<and> ReplicationLag status > threshold then setState E StateReplicaLagging else return ());
        c \<leftarrow> considers_failover E;
        if c then checkPrimaryHealth E else return () })"

definition evaluate_state :: "env \<Rightarrow> HealthStatus \<Rightarrow> node_state \<Rightarrow> ('z, unit) mact" where
  "evaluate_state E status currentState =
     (case currentState of
        StateInitializing \<Rightarrow>
          if \<not> Healthy status then return ()
          else if IsInRecovery status then setState E StateRunningReplica
          else setState E StateRunningPrimary
      | StateRunningPrimary \<Rightarrow>
          if \<not> Healthy status then setState E StateRecovering
          else if IsInRecovery status then setState E StateRunningReplica
          else checkQuorumAndSelfFence E
      | StateRunningReplica \<Rightarrow> evaluate_replica E status
      | StateReplicaLagging \<Rightarrow>
          if \<not> Healthy status then setState E StateRecovering
          else do {
            cfg \<leftarrow> gets m_cfg;
            let threshold = fo_MaxLagThreshold (c_Failover cfg);
            if threshold = 0 \<or> ReplicationLag status \<le> threshold then setState E StateRunningReplica
            else return () }
      | StateRecovering \<Rightarrow>
          if Healthy status
          then if IsInRecovery status then setState E StateRunningReplica else setState E StateRunningPrimary
          else return ()
      | StateFenced \<Rightarrow> return ()
      | StateFailoverInProgress \<Rightarrow> return ()
      | StateDemoting \<Rightarrow> return ()
      | StatePromoting \<Rightarrow> return ())"

definition monitor_failover :: "env \<Rightarrow> ('z, unit) mact" where
  "monitor_failover E = do {
     hf \<leftarrow> gets m_has_failover;
     hs \<leftarrow> gets m_has_store;
     if hf \<and> hs then do {
       l \<leftarrow> IsLeader E;
       if l then do { ended \<leftarrow> MonitorDirectives E; return () } else return () }
     else return () }"

definition evaluate :: "env \<Rightarrow> HealthStatus \<Rightarrow> ('z, unit) mact" where
  "evaluate E status = do {
     processDirectives E;
     monitor_failover E;
     currentState \<leftarrow> gets m_state;
     updateNodeHealthInFSM E status;
     maybeCleanupOrphanedSlots E;
     evaluate_state E status currentState }"

section \<open>Manual operations\<close>

datatype manual_error = FailoverNotInitialized | NotRaftLeader | NoPrimaryKnown | FailoverFailed failover_error

definition current_primary :: "env \<Rightarrow> ('z, manual_error + string) mact" where
  "current_primary E = do {
     hf \<leftarrow> gets m_has_failover;
     if \<not> hf then return (Inl FailoverNotInitialized)
     else do {
       hs \<leftarrow> gets m_has_store;
       l \<leftarrow> (if hs then IsLeader E else return False);
       if \<not> l then return (Inl NotRaftLeader)
       else do {
         primary \<leftarrow> read_fsm E (\<lambda>r. GetPrimary);
         return (case primary of None \<Rightarrow> Inl NoPrimaryKnown | Some p \<Rightarrow> Inr (ni_Name p)) } } }"

definition ManualFailover :: "env \<Rightarrow> string \<Rightarrow> ('z, manual_error option) mact" where
  "ManualFailover E targetNode = do {
     r \<leftarrow> current_primary E;
     case r of
       Inl e \<Rightarrow> return (Some e)
     | Inr p \<Rightarrow> do {
         setState E StateFailoverInProgress;
         err \<leftarrow> ExecuteFailoverTo E p targetNode;
         case err of
           Some e \<Rightarrow> do { setState E StateRunningReplica; return (Some (FailoverFailed e)) }
         | None \<Rightarrow> return None } }"

definition ManualSwitchover :: "env \<Rightarrow> nat \<Rightarrow> string \<Rightarrow> ('z, manual_error option waited) mact" where
  "ManualSwitchover E fuel targetNode = do {
     r \<leftarrow> current_primary E;
     case r of
       Inl e \<Rightarrow> return (Returned (Some e))
     | Inr p \<Rightarrow> do {
         setState E StateFailoverInProgress;
         err \<leftarrow> ExecuteSwitchover E fuel p targetNode;
         return (case err of Waiting \<Rightarrow> Waiting | Returned e \<Rightarrow> Returned (map_option FailoverFailed e)) } }"

end
