(* ===== verification/Pool.thy ===== *)
theory Pool
  imports Prelude "HOL-Library.Multiset"
begin

text \<open>
  The connection pool of one backend (\<open>proxy/pool.go\<close>). A pool is used by many goroutines at
  once, so each operation is split where it gives up the mutex: every definition below is one
  critical section (or one atomic operation on the counter), and the relation \<open>pool_step\<close>
  interleaves them. Connections and channels are numbered in the order in which they are
  created; \<open>mailbox\<close> is the content of the channels' buffers and \<open>net_closed\<close> the connections
  that were closed. Clock readings and the outcome of a dial are arguments.
\<close>

section \<open>State\<close>

record ProxyPoolConfig =
  po_Enabled :: bool
  po_MaxPoolSize :: int
  po_MinIdleConns :: int
  po_IdleTimeout :: duration
  po_MaxConnLifetime :: duration
  po_HealthCheckPeriod :: duration
  po_AcquireTimeout :: duration

definition DefaultPoolConfig :: ProxyPoolConfig where
  "DefaultPoolConfig = \<lparr>po_Enabled = False, po_MaxPoolSize = 20, po_MinIdleConns = 2, po_IdleTimeout = 5 * Minute,
     po_MaxConnLifetime = 30 * Minute, po_HealthCheckPeriod = 30 * Second, po_AcquireTimeout = 5 * Second\<rparr>"

type_synonym conn = nat
type_synonym chan = nat

record pooledConn =
  pc_conn :: conn
  createdAt :: time
  lastUsedAt :: time
  usageCount :: int
  backendAddr :: string

record BackendPool =
  bp_address :: string
  bp_config :: ProxyPoolConfig
  idle :: "pooledConn list"
  inUse :: "(conn, pooledConn) fmap option"
  waiters :: "chan list"
  totalConns :: int
  bp_closed :: bool
  mailbox :: "(chan \<times> pooledConn) list"
  closed_chans :: "chan list"
  next_chan :: chan
  net_next :: conn
  net_closed :: "conn fset"

section \<open>Operations\<close>

definition positive_or :: "int \<Rightarrow> int \<Rightarrow> int" where
  "positive_or x d = (if x \<le> 0 then d else x)"

definition NewBackendPool :: "string \<Rightarrow> ProxyPoolConfig \<Rightarrow> BackendPool" where
  "NewBackendPool address cfg = \<lparr>bp_address = address,
     bp_config = cfg\<lparr>po_HealthCheckPeriod := positive_or (po_HealthCheckPeriod cfg) (30 * Second),
       po_MaxPoolSize := positive_or (po_MaxPoolSize cfg) 20,
       po_IdleTimeout := positive_or (po_IdleTimeout cfg) (5 * Minute),
       po_MaxConnLifetime := positive_or (po_MaxConnLifetime cfg) (30 * Minute),
       po_AcquireTimeout := positive_or (po_AcquireTimeout cfg) (5 * Second)\<rparr>,
     idle = [], inUse = Some fmempty, waiters = [], totalConns = 0, bp_closed = False,
     mailbox = [], closed_chans = [], next_chan = 0, net_next = 0, net_closed = {||}\<rparr>"

definition isConnectionHealthy :: "time \<Rightarrow> ProxyPoolConfig \<Rightarrow> pooledConn \<Rightarrow> bool" where
  "isConnectionHealthy now cfg pc \<longleftrightarrow>
     (if po_MaxConnLifetime cfg > 0 \<and> time_sub now (createdAt pc) > po_MaxConnLifetime cfg then False
      else if po_IdleTimeout cfg > 0 \<and> time_sub now (lastUsedAt pc) > po_IdleTimeout cfg then False
      else True)"

definition net_Close :: "conn \<Rightarrow> BackendPool \<Rightarrow> BackendPool" where
  "net_Close c p = p\<lparr>net_closed := finsert c (net_closed p)\<rparr>"

definition count_conn :: "int \<Rightarrow> BackendPool \<Rightarrow> BackendPool" where
  "count_conn d p = p\<lparr>totalConns := wrap32 (totalConns p + d)\<rparr>"

definition closeConn :: "pooledConn \<Rightarrow> BackendPool \<Rightarrow> BackendPool" where
  "closeConn pc p = count_conn (- 1) (net_Close (pc_conn pc) p)"

text \<open>Writing to a nil map panics.\<close>

definition put_inUse :: "pooledConn \<Rightarrow> BackendPool \<Rightarrow> BackendPool option" where
  "put_inUse pc p = map_option (\<lambda>m. p\<lparr>inUse := Some (fmupd (pc_conn pc) pc m)\<rparr>) (inUse p)"

definition touch :: "time \<Rightarrow> pooledConn \<Rightarrow> pooledConn" where
  "touch now pc = pc\<lparr>lastUsedAt := now, usageCount := wrap64 (usageCount pc + 1)\<rparr>"

datatype acquire_result = Got conn | ErrPoolClosed | ErrPoolExhausted | ErrAcquireTimeout | CtxDone
  | DialFailed | AcquirePanic

datatype acquire_next = Return acquire_result | Dial | Wait chan

text \<open>The loop over the idle connections, newest first; \<open>now\<close> gives the clock readings.\<close>

function acquire_idle :: "(nat \<Rightarrow> time) \<Rightarrow> nat \<Rightarrow> BackendPool \<Rightarrow> acquire_result option \<times> BackendPool" where
  "acquire_idle now k p =
     (if idle p = [] then (None, p)
      else let pc = last (idle p); p1 = p\<lparr>idle := butlast (idle p)\<rparr>
        in if isConnectionHealthy (now k) (bp_config p) pc
           then (case put_inUse (touch (now (Suc k)) pc) p1 of
               None \<Rightarrow> (Some AcquirePanic, p1)
             | Some p2 \<Rightarrow> (Some (Got (pc_conn pc)), p2))
           else acquire_idle now (Suc k) (closeConn pc p1))"
  by pat_completeness auto

termination
  by (relation "measure (\<lambda>(now, k, p). length (idle p))") (auto simp: closeConn_def count_conn_def net_Close_def)

declare acquire_idle.simps [simp del]

definition acquire_enter :: "(nat \<Rightarrow> time) \<Rightarrow> BackendPool \<Rightarrow> acquire_next \<times> BackendPool" where
  "acquire_enter now p =
     (if bp_closed p then (Return ErrPoolClosed, p)
      else case acquire_idle now 0 p of
          (Some r, p1) \<Rightarrow> (Return r, p1)
        | (None, p1) \<Rightarrow>
            if totalConns p1 < po_MaxPoolSize (bp_config p1) then (Dial, count_conn 1 p1)
            else (Wait (next_chan p1), p1\<lparr>waiters := waiters p1 @ [next_chan p1], next_chan := Suc (next_chan p1)\<rparr>))"

definition new_conn :: "time \<Rightarrow> time \<Rightarrow> int \<Rightarrow> BackendPool \<Rightarrow> pooledConn \<times> BackendPool" where
  "new_conn created used n p =
     (\<lparr>pc_conn = net_next p, createdAt = created, lastUsedAt = used, usageCount = n, backendAddr = bp_address p\<rparr>,
      p\<lparr>net_next := Suc (net_next p)\<rparr>)"

definition acquire_dialed :: "bool \<Rightarrow> time \<Rightarrow> time \<Rightarrow> BackendPool \<Rightarrow> acquire_result \<times> BackendPool" where
  "acquire_dialed ok created used p =
     (if \<not> ok then (DialFailed, count_conn (- 1) p)
      else let (pc, p1) = new_conn created used 1 p
        in case put_inUse pc p1 of
             None \<Rightarrow> (AcquirePanic, p1)
           | Some p2 \<Rightarrow> (Got (pc_conn pc), p2))"

text \<open>A receive on the waiter's channel: \<open>None\<close> when it blocks.\<close>

definition acquire_received :: "time \<Rightarrow> chan \<Rightarrow> BackendPool \<Rightarrow> (acquire_result \<times> BackendPool) option" where
  "acquire_received now ch p =
     (case map_of (mailbox p) ch of
        Some pc \<Rightarrow>
          (let p1 = p\<lparr>mailbox := filter (\<lambda>(c, _). c \<noteq> ch) (mailbox p)\<rparr>
           in Some (case put_inUse (touch now pc) p1 of
               None \<Rightarrow> (AcquirePanic, p1)
             | Some p2 \<Rightarrow> (Got (pc_conn pc), p2)))
      | None \<Rightarrow> if ch \<in> set (closed_chans p) then Some (ErrPoolExhausted, p) else None)"

definition acquire_expired :: "chan \<Rightarrow> BackendPool \<Rightarrow> BackendPool" where
  "acquire_expired ch p = p\<lparr>waiters := remove1 ch (waiters p)\<rparr>"

datatype release_result = Released | ReleaseBlocked | ReleasePanic

text \<open>Sending to a channel with a buffer of one: it panics on a closed channel and blocks
  when the buffer is full.\<close>

definition send :: "chan \<Rightarrow> pooledConn \<Rightarrow> BackendPool \<Rightarrow> release_result \<times> BackendPool" where
  "send ch pc p =
     (if ch \<in> set (closed_chans p) then (ReleasePanic, p)
      else if map_of (mailbox p) ch \<noteq> None then (ReleaseBlocked, p)
      else (Released, p\<lparr>mailbox := mailbox p @ [(ch, pc)]\<rparr>))"

definition Release :: "time \<Rightarrow> time \<Rightarrow> conn \<Rightarrow> BackendPool \<Rightarrow> release_result \<times> BackendPool" where
  "Release now used c p =
     (case Option.bind (inUse p) (\<lambda>m. fmlookup m c) of
        None \<Rightarrow> (Released, net_Close c p)
      | Some pc \<Rightarrow>
          (let p1 = p\<lparr>inUse := map_option (fmdrop c) (inUse p)\<rparr>
           in if bp_closed p then (Released, closeConn pc p1)
              else if \<not> isConnectionHealthy now (bp_config p) pc then (Released, closeConn pc p1)
              else case waiters p of
                  w # ws \<Rightarrow> send w pc (p1\<lparr>waiters := ws\<rparr>)
                | [] \<Rightarrow> (Released, p1\<lparr>idle := idle p @ [pc\<lparr>lastUsedAt := used\<rparr>]\<rparr>)))"

definition Discard :: "conn \<Rightarrow> BackendPool \<Rightarrow> BackendPool" where
  "Discard c p =
     (case Option.bind (inUse p) (\<lambda>m. fmlookup m c) of
        Some pc \<Rightarrow> closeConn pc (p\<lparr>inUse := map_option (fmdrop c) (inUse p)\<rparr>)
      | None \<Rightarrow> net_Close c p)"

definition Pool_Close :: "conn ranger \<Rightarrow> BackendPool \<Rightarrow> BackendPool" where
  "Pool_Close r p =
     (if bp_closed p then p
      else let p1 = (fold closeConn (idle p) (p\<lparr>bp_closed := True\<rparr>))\<lparr>idle := []\<rparr>;
               used = (case inUse p1 of None \<Rightarrow> [] | Some m \<Rightarrow> List.map_filter (fmlookup m) (r (fmdom m)));
               p2 = (fold closeConn used p1)\<lparr>inUse := None\<rparr>
        in p2\<lparr>closed_chans := closed_chans p2 @ waiters p2, waiters := []\<rparr>)"

record PoolStats =
  st_address :: string
  st_idle :: nat
  st_in_use :: nat
  st_total :: int
  st_max_size :: int
  st_waiters :: nat
  st_closed :: bool

definition Pool_Stats :: "BackendPool \<Rightarrow> PoolStats" where
  "Pool_Stats p = \<lparr>st_address = bp_address p, st_idle = length (idle p),
     st_in_use = (case inUse p of None \<Rightarrow> 0 | Some m \<Rightarrow> maplen m), st_total = totalConns p,
     st_max_size = po_MaxPoolSize (bp_config p), st_waiters = length (waiters p), st_closed = bp_closed p\<rparr>"

fun cleanup_idle :: "time \<Rightarrow> pooledConn list \<Rightarrow> pooledConn list \<Rightarrow> BackendPool \<Rightarrow> pooledConn list \<times> BackendPool" where
  "cleanup_idle now newIdle [] p = (newIdle, p)"
| "cleanup_idle now newIdle (pc # pcs) p =
     (if po_IdleTimeout (bp_config p) > 0 \<and> time_sub now (lastUsedAt pc) > po_IdleTimeout (bp_config p)
      then cleanup_idle now newIdle pcs (closeConn pc p)
      else if po_MaxConnLifetime (bp_config p) > 0 \<and> time_sub now (createdAt pc) > po_MaxConnLifetime (bp_config p)
      then cleanup_idle now newIdle pcs (closeConn pc p)
      else cleanup_idle now (newIdle @ [pc]) pcs p)"

definition cleanupIdleConnections :: "time \<Rightarrow> BackendPool \<Rightarrow> BackendPool" where
  "cleanupIdleConnections now p =
     (if bp_closed p then p
      else case cleanup_idle now [] (idle p) p of (newIdle, p1) \<Rightarrow> p1\<lparr>idle := newIdle\<rparr>)"

text \<open>The four atomic parts of ensureMinIdleConnections: how many connections to open, the
  check before each dial, counting the dialed connection, and adding it to the pool.\<close>

definition ensure_plan :: "BackendPool \<Rightarrow> int" where
  "ensure_plan p =
     (let needed = po_MinIdleConns (bp_config p) - int (length (idle p));
          canCreate = po_MaxPoolSize (bp_config p) - totalConns p
      in if needed \<le> 0 \<or> canCreate \<le> 0 then 0 else min needed canCreate)"

definition ensure_check :: "BackendPool \<Rightarrow> bool" where
  "ensure_check p \<longleftrightarrow> \<not> (bp_closed p \<or> totalConns p \<ge> po_MaxPoolSize (bp_config p))"

text \<open>The dial and the addition to the counter that follows it are one step here.\<close>

definition ensure_dialed :: "time \<Rightarrow> time \<Rightarrow> BackendPool \<Rightarrow> pooledConn \<times> BackendPool" where
  "ensure_dialed created used p = (case new_conn created used 0 p of (pc, p1) \<Rightarrow> (pc, count_conn 1 p1))"

definition ensure_put :: "pooledConn \<Rightarrow> BackendPool \<Rightarrow> BackendPool" where
  "ensure_put pc p = (if bp_closed p then closeConn pc p else p\<lparr>idle := idle p @ [pc]\<rparr>)"

section \<open>Interleaving\<close>

text \<open>
  What a goroutine that uses the pool is in the middle of, and where the two goroutines that
  fill the pool are: the one that warms it up, started with the pool, and the maintenance
  loop. \<open>Crashed\<close> stands for a panic, which ends the process.
\<close>

datatype proc = Dialing | is_Waiting: Waiting (chan_of: chan) | is_Holding: Holding (held: conn) | Stuck | Crashed

datatype filler = FOff | FStart | FCheck nat | FDial nat | FAdded nat pooledConn

datatype worker = WarmUp | Maintenance

record pool_sys =
  pool :: BackendPool
  procs :: "proc multiset"
  fillers :: "worker \<Rightarrow> filler"

fun after_acquire :: "acquire_result \<Rightarrow> proc multiset" where
  "after_acquire (Got c) = {#Holding c#}"
| "after_acquire AcquirePanic = {#Crashed#}"
| "after_acquire _ = {#}"

fun after_next :: "acquire_next \<Rightarrow> proc multiset" where
  "after_next (Return r) = after_acquire r"
| "after_next Dial = {#Dialing#}"
| "after_next (Wait ch) = {#Waiting ch#}"

fun after_release :: "release_result \<Rightarrow> proc multiset" where
  "after_release Released = {#}"
| "after_release ReleaseBlocked = {#Stuck#}"
| "after_release ReleasePanic = {#Crashed#}"

definition pool_start :: "string \<Rightarrow> ProxyPoolConfig \<Rightarrow> pool_sys" where
  "pool_start a cfg = \<lparr>pool = NewBackendPool a cfg, procs = {#}, fillers = (\<lambda>_. FOff)(WarmUp := FStart)\<rparr>"

inductive pool_step :: "pool_sys \<Rightarrow> pool_sys \<Rightarrow> bool" where
  enter: "acquire_enter now (pool s) = (nx, p') \<Longrightarrow>
    pool_step s (s\<lparr>pool := p', procs := after_next nx + procs s\<rparr>)"
| dialed: "procs s = add_mset Dialing P \<Longrightarrow> acquire_dialed ok t u (pool s) = (r, p') \<Longrightarrow>
    pool_step s (s\<lparr>pool := p', procs := after_acquire r + P\<rparr>)"
| received: "procs s = add_mset (Waiting ch) P \<Longrightarrow> acquire_received t ch (pool s) = Some (r, p') \<Longrightarrow>
    pool_step s (s\<lparr>pool := p', procs := after_acquire r + P\<rparr>)"
| expired: "procs s = add_mset (Waiting ch) P \<Longrightarrow>
    pool_step s (s\<lparr>pool := acquire_expired ch (pool s), procs := P\<rparr>)"
| release: "procs s = add_mset (Holding c) P \<Longrightarrow> Release t u c (pool s) = (r, p') \<Longrightarrow>
    pool_step s (s\<lparr>pool := p', procs := after_release r + P\<rparr>)"
| discard: "procs s = add_mset (Holding c) P \<Longrightarrow>
    pool_step s (s\<lparr>pool := Discard c (pool s), procs := P\<rparr>)"
| close: "is_ranger r \<Longrightarrow> pool_step s (s\<lparr>pool := Pool_Close r (pool s)\<rparr>)"
| tick: "fillers s Maintenance = FOff \<Longrightarrow>
    pool_step s (s\<lparr>pool := cleanupIdleConnections t (pool s), fillers := (fillers s)(Maintenance := FStart)\<rparr>)"
| plan: "fillers s w = FStart \<Longrightarrow>
    pool_step s (s\<lparr>fillers := (fillers s)(w := FCheck (nat (ensure_plan (pool s))))\<rparr>)"
| fill_end: "fillers s w = FCheck 0 \<or> fillers s w = FCheck (Suc n) \<and> \<not> ensure_check (pool s) \<Longrightarrow>
    pool_step s (s\<lparr>fillers := (fillers s)(w := FOff)\<rparr>)"
| fill_check: "fillers s w = FCheck (Suc n) \<Longrightarrow> ensure_check (pool s) \<Longrightarrow>
    pool_step s (s\<lparr>fillers := (fillers s)(w := FDial n)\<rparr>)"
| fill_failed: "fillers s w = FDial n \<Longrightarrow> pool_step s (s\<lparr>fillers := (fillers s)(w := FCheck n)\<rparr>)"
| fill_dialed: "fillers s w = FDial n \<Longrightarrow> ensure_dialed t u (pool s) = (pc, p') \<Longrightarrow>
    pool_step s (s\<lparr>pool := p', fillers := (fillers s)(w := FAdded n pc)\<rparr>)"
| fill_put: "fillers s w = FAdded n pc \<Longrightarrow>
    pool_step s (s\<lparr>pool := ensure_put pc (pool s),
      fillers := (fillers s)(w := (if bp_closed (pool s) then FOff else FCheck n))\<rparr>)"

text \<open>The states that are reached from a new pool; a crashed process takes no more steps.\<close>

inductive pool_reached :: "pool_sys \<Rightarrow> pool_sys \<Rightarrow> bool" for s0 where
  start: "pool_reached s0 s0"
| step: "pool_reached s0 s \<Longrightarrow> Crashed \<notin># procs s \<Longrightarrow> pool_step s s' \<Longrightarrow> pool_reached s0 s'"

end
