(* ===== verification/PoolProps.thy ===== *)
theory PoolProps
  imports Pool
begin

text \<open>
  Properties of the connection pool under every interleaving of its goroutines: the counter
  accounts for every connection, a connection is in one place only and belongs to one client,
  the pool is at most two connections above its limit, and nothing panics or blocks while the
  pool is open; and the runs in which a connection is lost and in which closing the pool
  crashes the process.
\<close>

section \<open>Accounting\<close>

definition in_use :: "BackendPool \<Rightarrow> conn multiset" where
  "in_use p = (case inUse p of None \<Rightarrow> {#} | Some m \<Rightarrow> mset_set (fset (fmdom m)))"

text \<open>The open connections the pool answers for, besides \<open>X\<close>, the ones a filler has dialed but
  not added yet.\<close>

definition owned :: "BackendPool \<Rightarrow> conn multiset \<Rightarrow> conn multiset" where
  "owned p X = mset (map pc_conn (idle p)) + in_use p + mset (map (pc_conn \<circ> snd) (mailbox p)) + X"

definition chans :: "BackendPool \<Rightarrow> chan multiset" where
  "chans p = mset (waiters p) + mset (map fst (mailbox p)) + mset (closed_chans p)"

definition holders :: "proc multiset \<Rightarrow> conn multiset" where
  "holders P = image_mset held (filter_mset is_Holding P)"

definition waiting :: "proc multiset \<Rightarrow> chan multiset" where
  "waiting P = image_mset chan_of (filter_mset is_Waiting P)"

lemma holders_simps [simp]:
  "holders {#} = {#}" "holders (P + Q) = holders P + holders Q"
  "holders (add_mset x P) = (if is_Holding x then add_mset (held x) (holders P) else holders P)"
  by (simp_all add: holders_def)

lemma waiting_simps [simp]:
  "waiting {#} = {#}" "waiting (P + Q) = waiting P + waiting Q"
  "waiting (add_mset x P) = (if is_Waiting x then add_mset (chan_of x) (waiting P) else waiting P)"
  by (simp_all add: waiting_def)

definition acct :: "BackendPool \<Rightarrow> nat \<Rightarrow> conn multiset \<Rightarrow> nat \<Rightarrow> bool" where
  "acct p D X B \<longleftrightarrow> totalConns p = int (size (owned p X) + D) \<and>
     totalConns p + int B \<le> po_MaxPoolSize (bp_config p) + 2 \<and> po_MaxPoolSize (bp_config p) \<le> 2 ^ 31 - 4"

definition own_ok :: "BackendPool \<Rightarrow> conn multiset \<Rightarrow> conn multiset \<Rightarrow> bool" where
  "own_ok p H X \<longleftrightarrow> (\<forall>c. count (owned p X) c \<le> 1) \<and> (\<forall>c. c \<in># owned p X \<longrightarrow> c < net_next p \<and> c |\<notin>| net_closed p) \<and>
     (\<forall>c. c |\<in>| net_closed p \<longrightarrow> c < net_next p) \<and>
     (\<forall>m c pc. inUse p = Some m \<longrightarrow> fmlookup m c = Some pc \<longrightarrow> pc_conn pc = c) \<and> (bp_closed p \<longleftrightarrow> inUse p = None) \<and>
     (if bp_closed p then idle p = [] \<and> (\<forall>c. c \<in># H \<longrightarrow> c |\<in>| net_closed p) else H = in_use p)"

definition chan_ok :: "BackendPool \<Rightarrow> chan multiset \<Rightarrow> bool" where
  "chan_ok p W \<longleftrightarrow> (\<forall>ch. count (chans p) ch \<le> 1) \<and> (\<forall>ch. ch \<in># chans p \<longrightarrow> ch < next_chan p) \<and> W \<subseteq># chans p \<and>
     mset (waiters p) \<subseteq># W \<and> (if bp_closed p then waiters p = [] else closed_chans p = [])"

definition core :: "BackendPool \<Rightarrow> conn multiset \<Rightarrow> chan multiset \<Rightarrow> nat \<Rightarrow> conn multiset \<Rightarrow> nat \<Rightarrow> bool" where
  "core p H W D X B \<longleftrightarrow> acct p D X B \<and> own_ok p H X \<and> chan_ok p W"

section \<open>Closed forms of the critical sections\<close>

lemma fold_closeConn:
  "int (length pcs) \<le> totalConns p \<Longrightarrow> totalConns p < 2 ^ 31 \<Longrightarrow> fold closeConn pcs p =
     p\<lparr>totalConns := totalConns p - int (length pcs), net_closed := fset_of_list (map pc_conn pcs) |\<union>| net_closed p\<rparr>"
proof (induction pcs arbitrary: p)
  case (Cons pc pcs)
  let ?p = "closeConn pc p"
  have "wrap32 (totalConns p - 1) = totalConns p - 1" using Cons.prems by (intro wrap32_id) auto
  then have p: "?p = p\<lparr>totalConns := totalConns p - 1, net_closed := finsert (pc_conn pc) (net_closed p)\<rparr>"
    by (simp add: closeConn_def count_conn_def net_Close_def)
  have "fold closeConn pcs ?p = ?p\<lparr>totalConns := totalConns ?p - int (length pcs),
      net_closed := fset_of_list (map pc_conn pcs) |\<union>| net_closed ?p\<rparr>"
    using Cons.prems by (intro Cons.IH) (simp_all add: p)
  then show ?case by (simp add: p)
qed simp

text \<open>The search closes the unhealthy connections \<open>dropped\<close> at the end and takes \<open>pc\<close>.\<close>

definition took ::
    "BackendPool \<Rightarrow> pooledConn list \<Rightarrow> pooledConn \<Rightarrow> pooledConn list \<Rightarrow> time \<Rightarrow> acquire_result option \<Rightarrow> BackendPool \<Rightarrow> bool" where
  "took p rest pc dropped u r p' \<longleftrightarrow> idle p = rest @ pc # dropped \<and>
     (let p1 = (fold closeConn (rev dropped) p)\<lparr>idle := rest\<rparr>
      in case put_inUse (touch u pc) p1 of
           None \<Rightarrow> r = Some AcquirePanic \<and> p' = p1
         | Some q \<Rightarrow> r = Some (Got (pc_conn pc)) \<and> p' = q)"

lemma fold_closeConn_idle: "fold closeConn cs (q\<lparr>idle := l\<rparr>) = (fold closeConn cs q)\<lparr>idle := l\<rparr>"
proof -
  have "closeConn c (q\<lparr>idle := l\<rparr>) = (closeConn c q)\<lparr>idle := l\<rparr>" for c q
    by (simp add: closeConn_def count_conn_def net_Close_def)
  then show ?thesis by (induction cs arbitrary: q) simp_all
qed

lemma acquire_idle_cases:
  "acquire_idle now k p = (r, p') \<Longrightarrow>
     r = None \<and> p' = (fold closeConn (rev (idle p)) p)\<lparr>idle := []\<rparr> \<or> (\<exists>rest pc dropped u. took p rest pc dropped u r p')"
proof (induction now k p rule: acquire_idle.induct)
  case (1 now k p)
  show ?case
  proof (cases "idle p = []")
    case True
    with "1.prems" show ?thesis by (simp add: acquire_idle.simps [of now k p])
  next
    case False
    let ?pc = "last (idle p)" and ?p1 = "p\<lparr>idle := butlast (idle p)\<rparr>"
    have split: "idle p = butlast (idle p) @ [?pc]" using False by simp
    show ?thesis
    proof (cases "isConnectionHealthy (now k) (bp_config p) ?pc")
      case True
      with False "1.prems" have "took p (butlast (idle p)) ?pc [] (now (Suc k)) r p'"
        by (auto simp: took_def acquire_idle.simps [of now k p] Let_def split: option.splits)
      then show ?thesis by blast
    next
      case unhealthy: False
      let ?q = "closeConn ?pc ?p1"
      have q: "idle ?q = butlast (idle p)" "?q = (closeConn ?pc p)\<lparr>idle := butlast (idle p)\<rparr>"
        by (simp_all add: closeConn_def count_conn_def net_Close_def)
      have "acquire_idle now (Suc k) ?q = (r, p')"
        using unhealthy False "1.prems" by (simp add: acquire_idle.simps [of now k p] Let_def)
      then consider "r = None" "p' = (fold closeConn (rev (idle ?q)) ?q)\<lparr>idle := []\<rparr>"
        | rest pc dropped u where "took ?q rest pc dropped u r p'"
        using "1.IH" [OF False refl refl unhealthy] by blast
      then show ?thesis
      proof cases
        case 1
        moreover have "fold closeConn (rev (idle p)) p = fold closeConn (rev (butlast (idle p))) (closeConn ?pc p)"
          by (subst split) simp
        ultimately show ?thesis by (simp add: q fold_closeConn_idle)
      next
        case 2
        then have "took p rest pc (dropped @ [?pc]) u r p'"
          using split by (simp add: took_def q fold_closeConn_idle)
        then show ?thesis by blast
      qed
    qed
  qed
qed

lemma cleanup_idle_eq:
  "\<exists>kept gone. cleanup_idle now acc pcs p = (acc @ kept, fold closeConn gone p) \<and> mset pcs = mset kept + mset gone"
proof (induction pcs arbitrary: acc p)
  case (Cons pc pcs)
  show ?case
    using Cons.IH [of acc "closeConn pc p"] Cons.IH [of "acc @ [pc]" p]
    by (force intro: exI [of _ "pc # _"])
qed simp

section \<open>What the critical sections keep\<close>

lemma acct_range: "acct p D X B \<Longrightarrow> 0 \<le> totalConns p \<and> totalConns p < 2 ^ 31 - 1 \<and> length (idle p) \<le> nat (totalConns p)"
  by (auto simp: acct_def owned_def)

lemma count_conn_eq: "acct p D X B \<Longrightarrow> d = 1 \<or> d = - 1 \<Longrightarrow> count_conn d p = p\<lparr>totalConns := totalConns p + d\<rparr>"
proof -
  assume "acct p D X B" "d = 1 \<or> d = - 1"
  then have "wrap32 (totalConns p + d) = totalConns p + d" using acct_range [of p D X B] by (intro wrap32_id) auto
  then show ?thesis by (simp add: count_conn_def)
qed

text \<open>Which fields the three views of a pool depend on.\<close>

lemma views_frame [simp]:
  "owned (p\<lparr>totalConns := t\<rparr>) X = owned p X" "owned (p\<lparr>net_closed := nc\<rparr>) X = owned p X"
  "owned (p\<lparr>net_next := nn\<rparr>) X = owned p X" "owned (p\<lparr>waiters := w\<rparr>) X = owned p X"
  "owned (p\<lparr>next_chan := nch\<rparr>) X = owned p X" "owned (p\<lparr>closed_chans := cc\<rparr>) X = owned p X"
  "owned (p\<lparr>bp_closed := b\<rparr>) X = owned p X"
  "in_use (p\<lparr>totalConns := t\<rparr>) = in_use p" "in_use (p\<lparr>net_closed := nc\<rparr>) = in_use p"
  "in_use (p\<lparr>net_next := nn\<rparr>) = in_use p" "in_use (p\<lparr>waiters := w\<rparr>) = in_use p"
  "in_use (p\<lparr>next_chan := nch\<rparr>) = in_use p" "in_use (p\<lparr>closed_chans := cc\<rparr>) = in_use p"
  "in_use (p\<lparr>bp_closed := b\<rparr>) = in_use p" "in_use (p\<lparr>idle := l\<rparr>) = in_use p" "in_use (p\<lparr>mailbox := mb\<rparr>) = in_use p"
  "chans (p\<lparr>totalConns := t\<rparr>) = chans p" "chans (p\<lparr>net_closed := nc\<rparr>) = chans p"
  "chans (p\<lparr>net_next := nn\<rparr>) = chans p" "chans (p\<lparr>next_chan := nch\<rparr>) = chans p"
  "chans (p\<lparr>bp_closed := b\<rparr>) = chans p" "chans (p\<lparr>idle := l\<rparr>) = chans p" "chans (p\<lparr>inUse := u\<rparr>) = chans p"
  by (simp_all add: owned_def in_use_def chans_def)

lemma close_idle:
  assumes "acct p D X B" and "mset (idle p) = mset kept + mset gone"
  shows "fold closeConn gone p = p\<lparr>totalConns := totalConns p - int (length gone),
    net_closed := fset_of_list (map pc_conn gone) |\<union>| net_closed p\<rparr>"
proof -
  have "length (idle p) = length kept + length gone" by (metis assms(2) size_mset size_union)
  with acct_range [OF assms(1)] show ?thesis by (intro fold_closeConn) auto
qed

lemma drop_idle:
  assumes core: "core p H W D X B" and idle: "mset (idle p) = mset kept + mset gone"
  shows "core ((fold closeConn gone p)\<lparr>idle := kept\<rparr>) H W D X B"
proof -
  define q where "q = p\<lparr>idle := kept\<rparr>"
  have q: "inUse q = inUse p" "bp_closed q = bp_closed p" "net_next q = net_next p" "bp_config q = bp_config p"
    "in_use q = in_use p" "idle q = kept" by (simp_all add: q_def)
  have eq: "owned p X = owned q X + mset (map pc_conn gone)"
    using idle by (simp add: owned_def in_use_def q_def)
  have acct: "acct p D X B" using core by (simp add: core_def)
  note p = close_idle [OF acct idle]
  have q': "(fold closeConn gone p)\<lparr>idle := kept\<rparr> = q\<lparr>totalConns := totalConns p - int (length gone),
      net_closed := fset_of_list (map pc_conn gone) |\<union>| net_closed p\<rparr>"
    unfolding p by (simp add: q_def)
  have dist: "count (owned q X) c + count (mset (map pc_conn gone)) c \<le> 1" for c
  proof -
    have "count (owned p X) c \<le> 1" using core unfolding core_def own_ok_def by blast
    then show ?thesis by (simp add: eq)
  qed
  have "c \<notin> pc_conn ` set gone" if "c \<in># owned q X" for c
    using dist [of c] that count_greater_zero_iff [of "owned q X" c] count_greater_zero_iff [of "mset (map pc_conn gone)" c]
    by (auto simp del: count_greater_zero_iff)
  then have "own_ok (q\<lparr>totalConns := totalConns p - int (length gone),
      net_closed := fset_of_list (map pc_conn gone) |\<union>| net_closed p\<rparr>) H X"
    using core dist idle by (auto simp: core_def own_ok_def eq q fset_of_list.rep_eq intro: le_trans [OF le_add1])
  moreover have "acct (q\<lparr>totalConns := totalConns p - int (length gone),
      net_closed := fset_of_list (map pc_conn gone) |\<union>| net_closed p\<rparr>) D X B"
    using acct by (simp add: acct_def eq q)
  moreover have "chan_ok (q\<lparr>totalConns := totalConns p - int (length gone),
      net_closed := fset_of_list (map pc_conn gone) |\<union>| net_closed p\<rparr>) W"
    using core by (simp add: core_def chan_ok_def q_def)
  ultimately show ?thesis by (simp add: core_def q')
qed

text \<open>
  A connection between two places of the pool is counted in \<open>X\<close>, so each critical section is
  a move into \<open>X\<close>, a move out of it, or both.
\<close>

lemma in_use_put:
  "inUse p = Some m \<Longrightarrow> c |\<notin>| fmdom m \<Longrightarrow> in_use (p\<lparr>inUse := Some (fmupd c pc m)\<rparr>) = add_mset c (in_use p)"
  by (simp add: in_use_def)

lemma in_use_drop:
  "inUse p = Some m \<Longrightarrow> c |\<in>| fmdom m \<Longrightarrow> in_use p = add_mset c (in_use (p\<lparr>inUse := Some (fmdrop c m)\<rparr>))"
  by (simp add: in_use_def mset_set.remove fmdom_drop)

lemma owned_transit: "owned p (add_mset c X) = add_mset c (owned p X)"
  by (simp add: owned_def)

lemma core_move:
  assumes core: "core p H W D X B" and owned: "owned p' X' = owned p X"
    and same: "totalConns p' = totalConns p" "bp_config p' = bp_config p" "net_next p' = net_next p"
      "net_closed p' = net_closed p" "bp_closed p' = bp_closed p" "inUse p' = None \<longleftrightarrow> inUse p = None"
    and keys: "\<And>m c pc. inUse p' = Some m \<Longrightarrow> fmlookup m c = Some pc \<Longrightarrow> pc_conn pc = c"
    and holders: "if bp_closed p then idle p' = [] \<and> H' = H else H' = in_use p'"
    and chans: "chan_ok p' W'"
  shows "core p' H' W' D X' B"
proof -
  have "acct p' D X' B" using core by (simp add: core_def acct_def owned same)
  moreover have "own_ok p' H' X'"
    unfolding own_ok_def owned same using core keys holders by (auto simp: core_def own_ok_def split: if_splits)
  ultimately show ?thesis using chans by (simp add: core_def)
qed

lemma core_chans: "core p H W D X B \<Longrightarrow> chan_ok p W"
  by (simp add: core_def)

lemma core_keys: "core p H W D X B \<Longrightarrow> inUse p = Some m \<Longrightarrow> fmlookup m c = Some pc \<Longrightarrow> pc_conn pc = c"
  by (simp add: core_def own_ok_def)

lemma core_closed: "core p H W D X B \<Longrightarrow> bp_closed p \<longleftrightarrow> inUse p = None"
  by (simp add: core_def own_ok_def)

lemma core_holders: "core p H W D X B \<Longrightarrow> if bp_closed p then idle p = [] \<and> (\<forall>c. c \<in># H \<longrightarrow> c |\<in>| net_closed p) else H = in_use p"
  by (simp add: core_def own_ok_def)

lemma chan_frame [simp]:
  "chan_ok (p\<lparr>inUse := u\<rparr>) W = chan_ok p W" "chan_ok (p\<lparr>idle := l\<rparr>) W = chan_ok p W"
  "chan_ok (p\<lparr>totalConns := t\<rparr>) W = chan_ok p W" "chan_ok (p\<lparr>net_closed := nc\<rparr>) W = chan_ok p W"
  "chan_ok (p\<lparr>net_next := nn\<rparr>) W = chan_ok p W"
  by (simp_all add: chan_ok_def)

lemma from_idle:
  assumes core: "core p H W D X B" and "idle p = rest @ [pc]"
  shows "core (p\<lparr>idle := rest\<rparr>) H W D (add_mset (pc_conn pc) X) B"
proof (rule core_move [OF core])
  show "owned (p\<lparr>idle := rest\<rparr>) (add_mset (pc_conn pc) X) = owned p X" using assms(2) by (simp add: owned_def)
qed (use assms core_keys [OF core] core_holders [OF core] core_chans [OF core] in \<open>auto split: if_splits\<close>)

lemma transit_once: "core p H W D (add_mset c X) B \<Longrightarrow> c \<notin># owned p X"
proof -
  assume "core p H W D (add_mset c X) B"
  then have "count (owned p (add_mset c X)) c \<le> 1" unfolding core_def own_ok_def by blast
  then show ?thesis by (simp add: owned_transit not_in_iff)
qed

lemma to_inUse:
  assumes core: "core p H W D (add_mset (pc_conn pc) X) B" and put: "put_inUse pc p = Some p'"
  shows "core p' (add_mset (pc_conn pc) H) W D X B"
proof -
  let ?c = "pc_conn pc"
  obtain m where m: "inUse p = Some m" and p': "p' = p\<lparr>inUse := Some (fmupd ?c pc m)\<rparr>"
    using put by (auto simp: put_inUse_def)
  have "?c |\<notin>| fmdom m" using transit_once [OF core] m by (auto simp: owned_def in_use_def)
  note u = in_use_put [OF m this, of pc]
  show ?thesis unfolding p'
  proof (rule core_move [OF core])
    show "owned (p\<lparr>inUse := Some (fmupd ?c pc m)\<rparr>) X = owned p (add_mset ?c X)" by (simp add: owned_def u)
    show "pc_conn pc' = c" if "inUse (p\<lparr>inUse := Some (fmupd ?c pc m)\<rparr>) = Some m'" "fmlookup m' c = Some pc'" for m' c pc'
      using that core_keys [OF core m, of c] by (auto split: if_splits)
  qed (use m core_closed [OF core] core_holders [OF core] core_chans [OF core] in \<open>auto simp: u\<close>)
qed

lemma from_inUse:
  assumes core: "core p (add_mset c H) W D X B" and m: "inUse p = Some m"
  obtains pc where "fmlookup m c = Some pc" "pc_conn pc = c"
    "core (p\<lparr>inUse := Some (fmdrop c m)\<rparr>) H W D (add_mset c X) B"
proof -
  have h: "in_use p = add_mset c H" "\<not> bp_closed p" using core_holders [OF core] core_closed [OF core] m by auto
  then have "c \<in># in_use p" by simp
  then have c: "c |\<in>| fmdom m" using m by (simp add: in_use_def)
  then obtain pc where pc: "fmlookup m c = Some pc" by (auto simp: fmlookup_dom_iff)
  note u = in_use_drop [OF m c]
  have "core (p\<lparr>inUse := Some (fmdrop c m)\<rparr>) H W D (add_mset c X) B"
  proof (rule core_move [OF core])
    show "owned (p\<lparr>inUse := Some (fmdrop c m)\<rparr>) (add_mset c X) = owned p X" unfolding owned_def u by simp
    show "pc_conn pc' = c'" if "inUse (p\<lparr>inUse := Some (fmdrop c m)\<rparr>) = Some m'" "fmlookup m' c' = Some pc'" for m' c' pc'
      using that core_keys [OF core m, of c'] by (auto simp: fmlookup_drop split: if_splits)
  qed (use m h u core_chans [OF core] in auto)
  with that pc core_keys [OF core m pc] show thesis by blast
qed

lemma to_closed:
  assumes core: "core p H W D (add_mset (pc_conn pc) X) B"
  shows "core (closeConn pc p) H W D X B"
proof -
  have acct: "acct p D (add_mset (pc_conn pc) X) B" using core by (simp add: core_def)
  have p: "closeConn pc p = p\<lparr>totalConns := totalConns p - 1, net_closed := finsert (pc_conn pc) (net_closed p)\<rparr>"
    using acct_range [OF acct] by (simp add: closeConn_def count_conn_def net_Close_def wrap32_id)
  have acct': "acct (closeConn pc p) D X B" using acct by (simp add: p acct_def owned_transit)
  have "count (add_mset (pc_conn pc) (owned p X)) c \<le> 1" for c
    using core unfolding core_def own_ok_def owned_transit by blast
  then have once: "count (owned p X) c \<le> 1" for c by (metis Suc_leD count_add_mset)
  have "c < net_next p \<and> c |\<notin>| finsert (pc_conn pc) (net_closed p)" if "c \<in># owned p X" for c
    using core that transit_once [OF core] by (auto simp: core_def own_ok_def owned_transit)
  moreover have "c < net_next p" if "c |\<in>| finsert (pc_conn pc) (net_closed p)" for c
    using core that by (auto simp: core_def own_ok_def owned_transit)
  ultimately have "own_ok (closeConn pc p) H X"
    using once core_keys [OF core] core_closed [OF core] core_holders [OF core] unfolding own_ok_def p by auto
  then show ?thesis using acct' core by (simp add: core_def p)
qed

lemma to_idle:
  assumes core: "core p H W D (add_mset (pc_conn pc) X) B" and "\<not> bp_closed p"
  shows "core (p\<lparr>idle := idle p @ [pc]\<rparr>) H W D X B"
proof (rule core_move [OF core])
  show "owned (p\<lparr>idle := idle p @ [pc]\<rparr>) X = owned p (add_mset (pc_conn pc) X)" by (simp add: owned_def)
qed (use assms core_keys [OF core] core_holders [OF core] core_chans [OF core] in auto)

lemma from_mailbox:
  assumes core: "core p H (add_mset ch W) D X B" and mb: "map_of (mailbox p) ch = Some pc"
  shows "core (p\<lparr>mailbox := filter (\<lambda>(c, _). c \<noteq> ch) (mailbox p)\<rparr>) H W D (add_mset (pc_conn pc) X) B"
proof -
  let ?q = "p\<lparr>mailbox := filter (\<lambda>(c, _). c \<noteq> ch) (mailbox p)\<rparr>"
  have chans: "count (chans p) c \<le> 1" for c using core_chans [OF core] by (simp add: chan_ok_def)
  have once: "count (mset (map fst (mailbox p))) ch \<le> 1" using chans [of ch] by (simp add: chans_def)
  have mset_mb: "mset (mailbox p) = add_mset (ch, pc) (mset (mailbox ?q))"
  proof -
    obtain ys zs where l: "mailbox p = ys @ (ch, pc) # zs" using map_of_SomeD [OF mb] by (meson split_list)
    have "ch \<notin> fst ` set ys" "ch \<notin> fst ` set zs" using once by (auto simp: l count_eq_zero_iff)
    then have "filter (\<lambda>(c, _). c \<noteq> ch) ys = ys" "filter (\<lambda>(c, _). c \<noteq> ch) zs = zs"
      by (auto simp: filter_id_conv image_iff)
    then show ?thesis by (simp add: l)
  qed
  have c: "chans p = add_mset ch (chans ?q)"
    using arg_cong [OF mset_mb, of "image_mset fst"] by (simp add: chans_def)
  have "count (chans ?q) ch = 0" using chans [of ch] by (simp add: c)
  then have notw: "count (mset (waiters p)) ch = 0" by (simp add: chans_def)
  have "chan_ok ?q W"
  proof -
    have "count (chans ?q) x \<le> 1" for x using chans [of x] by (simp add: c split: if_splits)
    moreover have "mset (waiters p) \<subseteq># W"
    proof (rule mset_subset_eqI)
      fix x
      have "count (mset (waiters p)) x \<le> count (add_mset ch W) x"
        using core_chans [OF core] unfolding chan_ok_def by (blast intro: mset_subset_eq_count)
      then show "count (mset (waiters p)) x \<le> count W x" by (cases "x = ch") (metis notw le0, simp)
    qed
    ultimately show ?thesis using core_chans [OF core] by (auto simp: chan_ok_def c)
  qed
  then show ?thesis
  proof (intro core_move [OF core])
    show "owned ?q (add_mset (pc_conn pc) X) = owned p X"
      using arg_cong [OF mset_mb, of "image_mset (pc_conn \<circ> snd)"] by (simp add: owned_def)
  qed (use core_keys [OF core] core_holders [OF core] in auto)
qed

lemma to_mailbox:
  assumes core: "core p H W D (add_mset (pc_conn pc) X) B" and w: "waiters p = w # ws"
  shows "send w pc (p\<lparr>waiters := ws\<rparr>) = (Released, p\<lparr>waiters := ws, mailbox := mailbox p @ [(w, pc)]\<rparr>) \<and>
    core (p\<lparr>waiters := ws, mailbox := mailbox p @ [(w, pc)]\<rparr>) H W D X B"
proof -
  let ?q = "p\<lparr>waiters := ws, mailbox := mailbox p @ [(w, pc)]\<rparr>"
  have ch: "chan_ok p W" by (rule core_chans [OF core])
  then have "count (chans p) w \<le> 1" by (simp add: chan_ok_def)
  then have "w \<notin> fst ` set (mailbox p)" "w \<notin> set (closed_chans p)"
    using w by (auto simp: chans_def count_eq_zero_iff)
  then have "send w pc (p\<lparr>waiters := ws\<rparr>) = (Released, ?q)"
    by (simp add: send_def map_of_eq_None_iff)
  moreover have c: "chans ?q = chans p" using w by (simp add: chans_def)
  have "chan_ok ?q W" unfolding chan_ok_def c using ch w
    by (auto simp: chan_ok_def dest: mset_subset_eq_insertD subset_mset.less_imp_le split: if_splits)
  then have "core ?q H W D X B"
  proof (intro core_move [OF core])
    show "owned ?q X = owned p (add_mset (pc_conn pc) X)" by (simp add: owned_def in_use_def)
  qed (use core_keys [OF core] core_holders [OF core] in \<open>auto simp: in_use_def\<close>)
  ultimately show ?thesis by blast
qed

lemma from_network:
  assumes core: "core p H W D X B" and "new_conn t u n p = (pc, p')" and "totalConns q = totalConns p + d"
    and "q = p'\<lparr>totalConns := totalConns q\<rparr>"
    and d: "d = 0 \<and> D = Suc D' \<and> B' = B \<or> d = 1 \<and> D' = D \<and> B = Suc B'"
  shows "core q H W D' (add_mset (pc_conn pc) X) B'"
proof -
  have pc: "pc_conn pc = net_next p" and q: "q = p\<lparr>net_next := Suc (net_next p), totalConns := totalConns p + d\<rparr>"
    using assms(2,3,4) by (auto simp: new_conn_def)
  have new: "net_next p \<notin># owned p X" using core by (auto simp: core_def own_ok_def)
  then have "count (owned p X) (net_next p) = 0" by (simp add: count_eq_zero_iff)
  then have "count (add_mset (net_next p) (owned p X)) c \<le> 1" for c using core by (auto simp: core_def own_ok_def)
  moreover have "net_next p |\<notin>| net_closed p" using core by (auto simp: core_def own_ok_def)
  ultimately have "own_ok q H (add_mset (pc_conn pc) X)"
    using core unfolding core_def own_ok_def q owned_transit pc by (auto split: if_splits simp: less_Suc_eq)
  moreover have "acct q D' (add_mset (pc_conn pc) X) B'" using core d by (auto simp: core_def acct_def q owned_transit)
  ultimately show ?thesis using core by (simp add: core_def q)
qed

lemma reserve: "core p H W D X B \<Longrightarrow> totalConns p < po_MaxPoolSize (bp_config p) \<Longrightarrow> B \<le> 2 \<Longrightarrow>
    core (count_conn 1 p) H W (Suc D) X B"
proof -
  assume core: "core p H W D X B" and m: "totalConns p < po_MaxPoolSize (bp_config p)" "B \<le> 2"
  have "acct p D X B" using core by (simp add: core_def)
  note p = count_conn_eq [OF this, of 1, simplified]
  show ?thesis using core m by (auto simp: core_def acct_def own_ok_def p)
qed

lemma unreserve: "core p H W (Suc D) X B \<Longrightarrow> core (count_conn (- 1) p) H W D X B"
proof -
  assume core: "core p H W (Suc D) X B"
  have "acct p (Suc D) X B" using core by (simp add: core_def)
  note p = count_conn_eq [OF this, of "- 1", simplified]
  show ?thesis using core by (auto simp: core_def acct_def own_ok_def p)
qed

lemma enqueue:
  assumes core: "core p H W D X B" and "\<not> bp_closed p"
  shows "core (p\<lparr>waiters := waiters p @ [next_chan p], next_chan := Suc (next_chan p)\<rparr>) H (add_mset (next_chan p) W) D X B"
proof (rule core_move [OF core])
  let ?q = "p\<lparr>waiters := waiters p @ [next_chan p], next_chan := Suc (next_chan p)\<rparr>"
  have ch: "chan_ok p W" by (rule core_chans [OF core])
  then have "next_chan p \<notin># chans p" by (auto simp: chan_ok_def)
  moreover have "chans ?q = add_mset (next_chan p) (chans p)" by (simp add: chans_def)
  ultimately show "chan_ok ?q (add_mset (next_chan p) W)"
    using ch assms(2) by (auto simp: chan_ok_def less_Suc_eq count_eq_zero_iff)
qed (use core_keys [OF core] core_holders [OF core] in auto)

lemma dequeue:
  assumes core: "core p H (add_mset ch W) D X B"
  shows "core (acquire_expired ch p) H W D X B"
proof (unfold acquire_expired_def, rule core_move [OF core])
  let ?q = "p\<lparr>waiters := remove1 ch (waiters p)\<rparr>"
  have ch: "chan_ok p (add_mset ch W)" by (rule core_chans [OF core])
  then have once: "count (chans p) x \<le> 1" for x by (simp add: chan_ok_def)
  have c: "chans ?q = chans p - (if ch \<in> set (waiters p) then {#ch#} else {#})"
    by (simp add: chans_def)
  have w: "mset (waiters ?q) \<subseteq># W"
    using ch by (simp add: chan_ok_def subset_eq_diff_conv)
  have "W \<subseteq># chans ?q"
  proof (cases "ch \<in> set (waiters p)")
    case True
    then show ?thesis using ch by (simp add: chan_ok_def c insert_subset_eq_iff)
  next
    case False
    then show ?thesis using ch by (auto simp: chan_ok_def c dest: mset_subset_eq_insertD)
  qed
  moreover have "count (chans ?q) x \<le> 1" for x using once [of x] by (simp add: c)
  moreover have "x < next_chan p" if "x \<in># chans ?q" for x
    using that ch by (auto simp: chan_ok_def c dest: in_diffD split: if_splits)
  ultimately show "chan_ok ?q W" using ch w by (auto simp: chan_ok_def split: if_splits)
qed (use core_keys [OF core] core_holders [OF core] in auto)

lemma map_filter_keys:
  assumes "is_ranger r" and keys: "\<And>c pc. fmlookup m c = Some pc \<Longrightarrow> pc_conn pc = c"
  shows "map pc_conn (List.map_filter (fmlookup m) (r (fmdom m))) = r (fmdom m)"
proof -
  have "map pc_conn (List.map_filter (fmlookup m) l) = l" if "set l \<subseteq> fset (fmdom m)" for l
    using that by (induction l) (auto simp: List.map_filter_simps fmlookup_dom_iff dest: keys)
  then show ?thesis by (simp add: ranger_set [OF assms(1)])
qed

lemma Pool_Close_core:
  assumes core: "core p H W D X B" and r: "is_ranger r"
  shows "core (Pool_Close r p) H W D X B"
proof (cases "bp_closed p")
  case True
  with core show ?thesis by (simp add: Pool_Close_def)
next
  case False
  then obtain m where m: "inUse p = Some m" using core_closed [OF core] by auto
  have "closeConn c (q\<lparr>bp_closed := True\<rparr>) = (closeConn c q)\<lparr>bp_closed := True\<rparr>" for c q
    by (simp add: closeConn_def count_conn_def net_Close_def)
  then have comm: "fold closeConn cs (q\<lparr>bp_closed := True\<rparr>) = (fold closeConn cs q)\<lparr>bp_closed := True\<rparr>" for cs q
    by (induction cs arbitrary: q) simp_all
  define p1 where "p1 = (fold closeConn (idle p) p)\<lparr>idle := []\<rparr>"
  have core1: "core p1 H W D X B" unfolding p1_def by (rule drop_idle [OF core]) simp
  have acct: "acct p D X B" using core by (simp add: core_def)
  have eq1: "fold closeConn (idle p) p = p\<lparr>totalConns := totalConns p - int (length (idle p)),
      net_closed := fset_of_list (map pc_conn (idle p)) |\<union>| net_closed p\<rparr>"
    by (rule close_idle [OF acct, of "[]"]) simp
  have m1: "inUse p1 = Some m" "idle p1 = []" "bp_closed p1 = False" using m False by (simp_all add: p1_def eq1)
  let ?used = "List.map_filter (fmlookup m) (r (fmdom m))"
  have conns: "map pc_conn ?used = r (fmdom m)" by (rule map_filter_keys [OF r]) (rule core_keys [OF core m])
  have n: "length ?used = size (in_use p1)"
    using arg_cong [OF conns, of length] m1 r by (simp add: in_use_def ranger_length fcard.rep_eq)
  have acct1: "acct p1 D X B" using core1 by (simp add: core_def)
  have "int (length ?used) \<le> totalConns p1" using acct1 by (simp add: n acct_def owned_def)
  then have eq2: "fold closeConn ?used p1 = p1\<lparr>totalConns := totalConns p1 - int (size (in_use p1)),
      net_closed := fmdom m |\<union>| net_closed p1\<rparr>"
    using acct_range [OF acct1] fold_closeConn [of ?used p1] n conns r by (simp add: is_ranger_def)
  define q where "q = p1\<lparr>totalConns := totalConns p1 - int (size (in_use p1)), net_closed := fmdom m |\<union>| net_closed p1,
      inUse := None, closed_chans := closed_chans p1 @ waiters p1, waiters := [], bp_closed := True\<rparr>"
  have close: "Pool_Close r p = q"
  proof -
    have "(fold closeConn (idle p) (p\<lparr>bp_closed := True\<rparr>))\<lparr>idle := []\<rparr> = p1\<lparr>bp_closed := True\<rparr>"
      by (simp add: comm p1_def)
    then show ?thesis
      using False m1 by (simp add: Pool_Close_def Let_def comm eq2 q_def)
  qed
  have o: "owned p1 X = owned q X + in_use p1" by (simp add: owned_def in_use_def q_def)
  have dom: "set_mset (in_use p1) = fset (fmdom m)" by (simp add: in_use_def m1)
  have sum: "count (owned q X) c + count (in_use p1) c \<le> 1" for c
    using core1 unfolding core_def own_ok_def o by (metis count_union)
  have dist: "count (owned q X) c \<le> 1" for c using sum [of c] by linarith
  have apart: "c \<notin># in_use p1" if "c \<in># owned q X" for c
  proof -
    have "count (owned q X) c \<ge> 1" using that by simp
    then have "count (in_use p1) c = 0" using sum [of c] by linarith
    then show ?thesis by (simp add: count_eq_zero_iff)
  qed
  have q: "net_next q = net_next p1" "net_closed q = fmdom m |\<union>| net_closed p1" "inUse q = None" "bp_closed q" "idle q = []"
    using m1 by (simp_all add: q_def)
  have in_p1: "c < net_next p1 \<and> c |\<notin>| net_closed p1" if "c \<in># owned q X \<or> c \<in># in_use p1" for c
    using core1 that unfolding core_def own_ok_def o by auto
  have "own_ok q H X"
    unfolding own_ok_def q
    using dist apart in_p1 dom core_holders [OF core1] m1 core1 by (auto simp: core_def own_ok_def q)
  moreover have "acct q D X B" using acct1 by (simp add: acct_def o) (simp add: q_def)
  moreover have "chan_ok q W"
  proof -
    have "chans q = chans p1" by (simp add: q_def chans_def)
    then show ?thesis using core_chans [OF core1] by (simp add: chan_ok_def q) (simp add: q_def)
  qed
  ultimately show ?thesis by (simp add: close core_def)
qed

section \<open>The invariant\<close>

fun added :: "filler \<Rightarrow> conn multiset" where
  "added (FAdded n pc) = {#pc_conn pc#}"
| "added _ = {#}"

fun dialing :: "filler \<Rightarrow> nat" where
  "dialing (FDial n) = 1"
| "dialing _ = 0"

definition all_added :: "(worker \<Rightarrow> filler) \<Rightarrow> conn multiset" where
  "all_added f = added (f WarmUp) + added (f Maintenance)"

definition all_dialing :: "(worker \<Rightarrow> filler) \<Rightarrow> nat" where
  "all_dialing f = dialing (f WarmUp) + dialing (f Maintenance)"

definition sys_core :: "pool_sys \<Rightarrow> bool" where
  "sys_core s \<longleftrightarrow> core (pool s) (holders (procs s)) (waiting (procs s)) (count (procs s) Dialing)
     (all_added (fillers s)) (all_dialing (fillers s))"

definition pool_inv :: "pool_sys \<Rightarrow> bool" where
  "pool_inv s \<longleftrightarrow> Stuck \<notin># procs s \<and> (if Crashed \<in># procs s then bp_closed (pool s) else sys_core s)"

lemma dialing_le: "all_dialing f \<le> 2"
  by (cases "f WarmUp"; cases "f Maintenance") (simp_all add: all_dialing_def)

lemma all_added_upd:
  "f w = x \<Longrightarrow> \<exists>R. all_added f = added x + R \<and> all_added (f(w := y)) = added y + R"
  by (cases w) (auto simp: all_added_def ac_simps)

lemma all_dialing_upd:
  "f w = x \<Longrightarrow> \<exists>n \<le> 1. all_dialing f = dialing x + n \<and> all_dialing (f(w := y)) = dialing y + n"
  by (cases w; cases "f WarmUp"; cases "f Maintenance") (auto simp: all_dialing_def)

lemma core_pool_start: "po_MaxPoolSize cfg \<le> 2 ^ 31 - 4 \<Longrightarrow> pool_inv (pool_start a cfg)"
  by (auto simp: pool_inv_def sys_core_def pool_start_def NewBackendPool_def core_def acct_def own_ok_def chan_ok_def
      owned_def in_use_def chans_def all_added_def all_dialing_def positive_or_def holders_def waiting_def)

lemma enter_core:
  assumes core: "core p H W D X B" and B: "B \<le> 2" and enter: "acquire_enter now p = (nx, p')"
  shows "Crashed \<notin># after_next nx \<and> Stuck \<notin># after_next nx \<and>
    core p' (holders (after_next nx) + H) (waiting (after_next nx) + W) (count (after_next nx) Dialing + D) X B"
proof (cases "bp_closed p")
  case True
  with enter core show ?thesis by (auto simp: acquire_enter_def)
next
  case open': False
  obtain r p1 where idle: "acquire_idle now 0 p = (r, p1)" by fastforce
  then consider "r = None" "p1 = (fold closeConn (rev (idle p)) p)\<lparr>idle := []\<rparr>"
    | rest pc dropped u where "took p rest pc dropped u r p1"
    using acquire_idle_cases by blast
  then show ?thesis
  proof cases
    case 1
    have c1: "core p1 H W D X B" unfolding 1 by (rule drop_idle [OF core]) simp
    have acct: "acct p D X B" using core by (simp add: core_def)
    have o1: "\<not> bp_closed p1" unfolding 1 by (subst close_idle [OF acct, of "[]"]) (simp_all add: open')
    show ?thesis
      using enter open' idle 1(1) reserve [OF c1 _ B] enqueue [OF c1 o1]
      by (auto simp: acquire_enter_def split: if_splits)
  next
    case 2
    let ?q = "(fold closeConn (rev dropped) p)\<lparr>idle := rest @ [pc]\<rparr>"
    have i: "idle p = rest @ pc # dropped" using 2 by (simp add: took_def)
    have cq: "core ?q H W D X B" by (rule drop_idle [OF core]) (simp add: i)
    from from_idle [OF cq, of rest pc]
    have ct: "core ((fold closeConn (rev dropped) p)\<lparr>idle := rest\<rparr>) H W D (add_mset (pc_conn (touch u pc)) X) B"
      by (simp add: touch_def)
    have acct: "acct p D X B" using core by (simp add: core_def)
    have "inUse ((fold closeConn (rev dropped) p)\<lparr>idle := rest\<rparr>) = inUse p"
      by (subst close_idle [OF acct, of "rest @ [pc]"]) (simp_all add: i)
    moreover have "inUse p \<noteq> None" using open' core_closed [OF core] by simp
    ultimately obtain p2 where p2: "put_inUse (touch u pc) ((fold closeConn (rev dropped) p)\<lparr>idle := rest\<rparr>) = Some p2"
      by (auto simp: put_inUse_def)
    with 2 have "r = Some (Got (pc_conn pc))" "p1 = p2" by (simp_all add: took_def Let_def)
    with enter open' idle have "nx = Return (Got (pc_conn pc))" "p' = p2" by (simp_all add: acquire_enter_def)
    with to_inUse [OF ct p2] show ?thesis by (simp add: touch_def)
  qed
qed

lemma touch_conn [simp]: "pc_conn (touch t pc) = pc_conn pc"
  by (simp add: touch_def)

lemma foreign_close:
  assumes core: "core p (add_mset c H) W D X B" and "inUse p = None"
  shows "core (net_Close c p) H W D X B"
proof -
  have cl: "bp_closed p" "c |\<in>| net_closed p" using core_closed [OF core] core_holders [OF core] assms(2) by auto
  then have "net_Close c p = p" by (simp add: net_Close_def finsert_absorb)
  with core cl show ?thesis by (auto simp: core_def own_ok_def)
qed

lemma release_core:
  assumes core: "core p (add_mset c H) W D X B" and rel: "Release t u c p = (r, p')"
  shows "r = Released \<and> core p' H W D X B"
proof (cases "inUse p")
  case None
  with foreign_close [OF core None] rel show ?thesis by (auto simp: Release_def)
next
  case (Some m)
  have open': "\<not> bp_closed p" using core_closed [OF core] Some by simp
  from from_inUse [OF core Some] obtain pc where pc: "fmlookup m c = Some pc" "pc_conn pc = c"
    and ct: "core (p\<lparr>inUse := Some (fmdrop c m)\<rparr>) H W D (add_mset c X) B" by blast
  let ?p1 = "p\<lparr>inUse := Some (fmdrop c m)\<rparr>"
  show ?thesis
  proof (cases "isConnectionHealthy t (bp_config p) pc")
    case False
    with rel Some pc open' have "r = Released" "p' = closeConn pc ?p1" by (auto simp: Release_def Let_def)
    with to_closed [of ?p1 H W D pc X B] ct pc show ?thesis by simp
  next
    case True
    show ?thesis
    proof (cases "waiters p")
      case Nil
      with rel Some pc open' True have "r = Released" "p' = ?p1\<lparr>idle := idle ?p1 @ [pc\<lparr>lastUsedAt := u\<rparr>]\<rparr>"
        by (auto simp: Release_def Let_def)
      with to_idle [of ?p1 H W D "pc\<lparr>lastUsedAt := u\<rparr>" X B] ct pc open' show ?thesis by simp
    next
      case (Cons w ws)
      with rel Some pc open' True have "(r, p') = send w pc (?p1\<lparr>waiters := ws\<rparr>)"
        by (auto simp: Release_def Let_def)
      with to_mailbox [of ?p1 H W D pc X B w ws] ct pc Cons show ?thesis by simp
    qed
  qed
qed

lemma discard_core:
  assumes core: "core p (add_mset c H) W D X B"
  shows "core (Discard c p) H W D X B"
proof (cases "inUse p")
  case None
  with foreign_close [OF core None] show ?thesis by (simp add: Discard_def)
next
  case (Some m)
  from from_inUse [OF core Some] obtain pc where "fmlookup m c = Some pc" "pc_conn pc = c"
    "core (p\<lparr>inUse := Some (fmdrop c m)\<rparr>) H W D (add_mset c X) B" by blast
  with to_closed [of "p\<lparr>inUse := Some (fmdrop c m)\<rparr>" H W D pc X B] Some show ?thesis by (simp add: Discard_def)
qed

text \<open>Putting a connection into the map of a closed pool is the only panic.\<close>

lemma use_core:
  assumes core: "core p H W D (add_mset (pc_conn pc) X) B"
    and use: "(r, p') = (case put_inUse pc p of None \<Rightarrow> (AcquirePanic, p) | Some p2 \<Rightarrow> (Got (pc_conn pc), p2))"
  shows "if r = AcquirePanic then bp_closed p' else r = Got (pc_conn pc) \<and> core p' (add_mset (pc_conn pc) H) W D X B"
  using use to_inUse [OF core] core_closed [OF core] by (auto simp: put_inUse_def split: option.splits)

lemma dialed_core:
  assumes core: "core p H W (Suc D) X B" and dial: "acquire_dialed ok t u p = (r, p')"
  shows "if r = AcquirePanic then bp_closed p'
    else Crashed \<notin># after_acquire r \<and> core p' (holders (after_acquire r) + H) W D X B"
proof (cases ok)
  case False
  with dial unreserve [OF core] show ?thesis by (auto simp: acquire_dialed_def)
next
  case True
  obtain pc p1 where n: "new_conn t u 1 p = (pc, p1)" by fastforce
  have "totalConns p1 = totalConns p" using n by (auto simp: new_conn_def)
  then have "core p1 H W D (add_mset (pc_conn pc) X) B"
    by (intro from_network [OF core n, of _ 0]) simp_all
  from use_core [OF this, of r p'] dial True n show ?thesis by (auto simp: acquire_dialed_def split: if_splits)
qed

lemma received_core:
  assumes core: "core p H (add_mset ch W) D X B" and rcv: "acquire_received t ch p = Some (r, p')"
  shows "if r = AcquirePanic then bp_closed p'
    else Crashed \<notin># after_acquire r \<and> core p' (holders (after_acquire r) + H) W D X B"
proof (cases "map_of (mailbox p) ch")
  case None
  then have ch: "ch \<in> set (closed_chans p)" and eq: "r = ErrPoolExhausted" "p' = p"
    using rcv by (auto simp: acquire_received_def split: if_splits)
  have "bp_closed p" using core_chans [OF core] ch by (auto simp: chan_ok_def split: if_splits)
  moreover have "chan_ok p W"
    using core_chans [OF core] \<open>bp_closed p\<close> by (auto simp: chan_ok_def dest: mset_subset_eq_insertD)
  ultimately have "core p H W D X B" using core by (simp add: core_def)
  then show ?thesis by (simp add: eq)
next
  case (Some pc)
  let ?p1 = "p\<lparr>mailbox := filter (\<lambda>(c, _). c \<noteq> ch) (mailbox p)\<rparr>"
  have c1: "core ?p1 H W D (add_mset (pc_conn (touch t pc)) X) B" using from_mailbox [OF core Some] by simp
  have "(r, p') = (case put_inUse (touch t pc) ?p1 of None \<Rightarrow> (AcquirePanic, ?p1)
      | Some p2 \<Rightarrow> (Got (pc_conn (touch t pc)), p2))"
    using rcv Some by (auto simp: acquire_received_def Let_def split: option.splits)
  from use_core [OF c1 this] show ?thesis by (auto split: if_splits)
qed

lemma filler_step:
  assumes f: "f w = x" and core: "core p H W D (all_added f) (all_dialing f)"
    and move: "\<And>X B. B \<le> 1 \<Longrightarrow> core p H W D (added x + X) (dialing x + B) \<Longrightarrow> core p' H W D (added y + X) (dialing y + B)"
  shows "core p' H W D (all_added (f(w := y))) (all_dialing (f(w := y)))"
proof -
  obtain R where R: "all_added f = added x + R" "all_added (f(w := y)) = added y + R"
    using all_added_upd [of f w x y] f by blast
  obtain n where n: "n \<le> 1" "all_dialing f = dialing x + n" "all_dialing (f(w := y)) = dialing y + n"
    using all_dialing_upd [of f w x y] f by blast
  show ?thesis unfolding R(2) n(3) by (rule move [OF n(1)]) (use core R n in simp)
qed

lemma fill_dialed_core:
  assumes core: "core p H W D X (Suc B)" and d: "ensure_dialed t u p = (pc, p')"
  shows "core p' H W D (add_mset (pc_conn pc) X) B"
proof -
  obtain p1 where n: "new_conn t u 0 p = (pc, p1)" and p': "p' = count_conn 1 p1"
    using d by (auto simp: ensure_dialed_def split: prod.splits)
  have p1: "p1 = p\<lparr>net_next := Suc (net_next p)\<rparr>" using n by (simp add: new_conn_def)
  have "acct p1 D X (Suc B)" using core by (simp add: core_def acct_def p1)
  from count_conn_eq [OF this, of 1] have "p' = p1\<lparr>totalConns := totalConns p + 1\<rparr>" by (simp add: p' p1)
  then show ?thesis by (intro from_network [OF core n, where d = 1]) (simp_all add: p1)
qed

lemma fill_put_core:
  assumes "core p H W D (add_mset (pc_conn pc) X) B"
  shows "core (ensure_put pc p) H W D X B"
  using assms to_closed to_idle by (simp add: ensure_put_def)

lemma cleanup_core:
  assumes core: "core p H W D X B"
  shows "core (cleanupIdleConnections t p) H W D X B"
proof -
  obtain kept gone where c: "cleanup_idle t [] (idle p) p = (kept, fold closeConn gone p)"
    and m: "mset (idle p) = mset kept + mset gone"
    using cleanup_idle_eq [of t "[]" "idle p" p] by auto
  show ?thesis using drop_idle [OF core m] core by (simp add: cleanupIdleConnections_def c)
qed

lemma fill_moves:
  "B \<le> 1 \<Longrightarrow> ensure_check p \<Longrightarrow> core p H W D X B \<Longrightarrow> core p H W D X (Suc B)"
  "core p H W D X (Suc B) \<Longrightarrow> core p H W D X B"
  by (auto simp: core_def acct_def ensure_check_def)

lemma pool_step_inv:
  assumes "pool_step s s'" and "pool_inv s" and run: "Crashed \<notin># procs s"
  shows "pool_inv s'"
proof -
  have ns: "Stuck \<notin># procs s" and c: "sys_core s" using assms(2) run by (simp_all add: pool_inv_def)
  note core = c [unfolded sys_core_def]
  from assms(1) show ?thesis
  proof cases
    case (enter now nx p')
    with enter_core [OF core dialing_le enter(2)] ns run show ?thesis by (auto simp: pool_inv_def sys_core_def)
  next
    case (dialed P ok t u r p')
    have "core (pool s) (holders P) (waiting P) (Suc (count P Dialing)) (all_added (fillers s)) (all_dialing (fillers s))"
      using core dialed by simp
    from dialed_core [OF this dialed(3)] dialed ns run show ?thesis
      by (cases r) (auto simp: pool_inv_def sys_core_def split: if_splits)
  next
    case (received ch P t r p')
    have "core (pool s) (holders P) (add_mset ch (waiting P)) (count P Dialing) (all_added (fillers s)) (all_dialing (fillers s))"
      using core received by simp
    from received_core [OF this received(3)] received ns run show ?thesis
      by (cases r) (auto simp: pool_inv_def sys_core_def split: if_splits)
  next
    case (expired ch P)
    with dequeue core ns run show ?thesis by (simp add: pool_inv_def sys_core_def)
  next
    case (release c P t u r p')
    have "core (pool s) (add_mset c (holders P)) (waiting P) (count P Dialing) (all_added (fillers s)) (all_dialing (fillers s))"
      using core release by simp
    from release_core [OF this release(3)] release ns run show ?thesis by (simp add: pool_inv_def sys_core_def)
  next
    case (discard c P)
    with discard_core core ns run show ?thesis by (simp add: pool_inv_def sys_core_def)
  next
    case (close r)
    with Pool_Close_core [OF core] ns run show ?thesis by (simp add: pool_inv_def sys_core_def)
  next
    case (tick t)
    have "core (cleanupIdleConnections t (pool s)) (holders (procs s)) (waiting (procs s)) (count (procs s) Dialing)
        (all_added ((fillers s)(Maintenance := FStart))) (all_dialing ((fillers s)(Maintenance := FStart)))"
      by (rule filler_step [OF tick(2) core]) (simp add: cleanup_core)
    with tick ns run show ?thesis by (simp add: pool_inv_def sys_core_def)
  next
    case (plan w)
    with ns run show ?thesis
      by (simp add: pool_inv_def sys_core_def) (rule filler_step [OF plan(2) core], simp)
  next
    case (fill_end w n)
    have "core (pool s) (holders (procs s)) (waiting (procs s)) (count (procs s) Dialing)
        (all_added ((fillers s)(w := FOff))) (all_dialing ((fillers s)(w := FOff)))"
      using fill_end(2) by (elim disjE conjE) (rule filler_step [OF _ core], assumption, simp)+
    with fill_end ns run show ?thesis by (simp add: pool_inv_def sys_core_def)
  next
    case (fill_check w n)
    with ns run show ?thesis
      by (simp add: pool_inv_def sys_core_def) (rule filler_step [OF fill_check(2) core], simp, rule fill_moves(1), use fill_check in auto)
  next
    case (fill_failed w n)
    with ns run show ?thesis
      by (simp add: pool_inv_def sys_core_def) (rule filler_step [OF fill_failed(2) core], simp, rule fill_moves(2))
  next
    case (fill_dialed w n t u pc p')
    with ns run show ?thesis
      by (simp add: pool_inv_def sys_core_def)
        (rule filler_step [OF fill_dialed(2) core], simp add: fill_dialed_core [OF _ fill_dialed(3)])
  next
    case (fill_put w n pc)
    with ns run show ?thesis
      by (simp add: pool_inv_def sys_core_def)
        (intro conjI impI; rule filler_step [OF fill_put(2) core], simp add: fill_put_core)
  qed
qed

lemma pool_reached_inv:
  "pool_reached s0 s \<Longrightarrow> pool_inv s0 \<Longrightarrow> pool_inv s"
  by (induction rule: pool_reached.induct) (auto intro: pool_step_inv)

text \<open>
  (C18) The counter of the pool accounts for every connection: on every reachable state it is
  the number of connections that are idle, in use, handed to a waiting client or just dialed
  by a filler, plus the dials in progress; each of these connections is in one place only and
  open.
\<close>

theorem pool_conservation:
  assumes "pool_reached (pool_start a cfg) s" and "po_MaxPoolSize cfg \<le> 2 ^ 31 - 4" and "Crashed \<notin># procs s"
  shows "let p = pool s;
      conns = mset (map pc_conn (idle p)) + in_use p + mset (map (pc_conn \<circ> snd) (mailbox p)) + all_added (fillers s)
    in totalConns p = int (size conns) + int (count (procs s) Dialing) \<and>
       (\<forall>c. count conns c \<le> 1) \<and> (\<forall>c. c \<in># conns \<longrightarrow> c |\<notin>| net_closed p)"
proof -
  have "sys_core s" using pool_reached_inv [OF assms(1) core_pool_start [OF assms(2)]] assms(3) by (simp add: pool_inv_def)
  then show ?thesis by (simp add: sys_core_def core_def acct_def own_ok_def owned_def Let_def)
qed

text \<open>
  (C19) While the pool is open no two clients hold the same connection, what a client holds is
  open and not idle, and no operation panics or blocks while it holds the mutex.
\<close>

theorem pool_exclusive:
  assumes "pool_reached (pool_start a cfg) s" and "po_MaxPoolSize cfg \<le> 2 ^ 31 - 4" and "\<not> bp_closed (pool s)"
  shows "Crashed \<notin># procs s \<and> Stuck \<notin># procs s \<and>
    (\<forall>c. count (procs s) (Holding c) \<le> 1 \<and>
      (Holding c \<in># procs s \<longrightarrow> c |\<notin>| net_closed (pool s) \<and> c \<notin> pc_conn ` set (idle (pool s))))"
proof -
  have inv: "pool_inv s" by (rule pool_reached_inv [OF assms(1) core_pool_start [OF assms(2)]])
  have run: "Crashed \<notin># procs s" "Stuck \<notin># procs s" using inv assms(3) by (auto simp: pool_inv_def split: if_splits)
  have core: "core (pool s) (holders (procs s)) (waiting (procs s)) (count (procs s) Dialing)
      (all_added (fillers s)) (all_dialing (fillers s))" using inv run by (simp add: pool_inv_def sys_core_def)
  have h: "holders (procs s) = in_use (pool s)" using core_holders [OF core] assms(3) by simp
  have "count (procs s) (Holding c) = count (holders (procs s)) c" for c
  proof (induction "procs s" arbitrary: s)
    case (add x P)
    have "count P (Holding c) = count (holders P) c" using add.hyps(1) [of "s\<lparr>procs := P\<rparr>"] by simp
    moreover have "procs s = add_mset x P" using add.hyps(2) by simp
    ultimately show ?case by (cases x) auto
  qed (metis count_empty holders_simps(1))
  then have cnt: "count (procs s) (Holding c) = count (in_use (pool s)) c" for c by (simp add: h)
  have one: "count (owned (pool s) (all_added (fillers s))) c \<le> 1" for c using core unfolding core_def own_ok_def by blast
  have "count (in_use (pool s)) c \<le> 1 \<and> (c \<in># in_use (pool s) \<longrightarrow> c |\<notin>| net_closed (pool s) \<and> c \<notin> pc_conn ` set (idle (pool s)))" for c
  proof -
    have "count (in_use (pool s)) c + count (mset (map pc_conn (idle (pool s)))) c \<le> 1" using one [of c] by (simp add: owned_def)
    moreover have "c |\<notin>| net_closed (pool s)" if "c \<in># in_use (pool s)"
      using core that by (auto simp: core_def own_ok_def owned_def)
    ultimately show ?thesis
      using count_greater_zero_iff [of "in_use (pool s)" c] count_greater_zero_iff [of "mset (map pc_conn (idle (pool s)))" c]
      by (auto simp del: count_greater_zero_iff)
  qed
  with run cnt show ?thesis by (metis count_greater_zero_iff)
qed

text \<open>
  The pool never counts more than two connections above its limit, and its 32-bit counter
  never wraps.
\<close>

theorem pool_bounded:
  assumes "pool_reached (pool_start a cfg) s" and "po_MaxPoolSize cfg \<le> 2 ^ 31 - 4" and "Crashed \<notin># procs s"
  shows "0 \<le> totalConns (pool s) \<and> totalConns (pool s) \<le> po_MaxPoolSize (bp_config (pool s)) + 2"
proof -
  have "sys_core s" using pool_reached_inv [OF assms(1) core_pool_start [OF assms(2)]] assms(3) by (simp add: pool_inv_def)
  then show ?thesis by (auto simp: sys_core_def core_def acct_def)
qed

section \<open>Runs of a small pool\<close>

definition small_pool :: "int \<Rightarrow> ProxyPoolConfig" where
  "small_pool n = DefaultPoolConfig\<lparr>po_MaxPoolSize := 1, po_MinIdleConns := n\<rparr>"

abbreviation clk :: "nat \<Rightarrow> time" where "clk \<equiv> \<lambda>_. 0"

definition with_procs :: "BackendPool \<Rightarrow> proc multiset \<Rightarrow> pool_sys" where
  "with_procs p P = (pool_start ''b'' (small_pool 0))\<lparr>pool := p, procs := P\<rparr>"

lemma with_procs_simps [simp]:
  "pool (with_procs p P) = p" "procs (with_procs p P) = P"
  "(with_procs p P)\<lparr>pool := q, procs := Q\<rparr> = with_procs q Q"
  "(with_procs p P)\<lparr>pool := q\<rparr> = with_procs q P" "(with_procs p P)\<lparr>procs := Q\<rparr> = with_procs p Q"
  by (simp_all add: with_procs_def)

definition run1 :: BackendPool where "run1 = snd (acquire_enter clk (NewBackendPool ''b'' (small_pool 0)))"
definition run2 :: BackendPool where "run2 = snd (acquire_dialed True 0 0 run1)"
definition run3 :: BackendPool where "run3 = snd (acquire_enter clk run2)"
definition run4 :: BackendPool where "run4 = snd (Release 0 0 0 run3)"
definition run5 :: BackendPool where "run5 = acquire_expired 0 run4"

lemma run_results:
  "fst (acquire_enter clk (NewBackendPool ''b'' (small_pool 0))) = Dial"
  "fst (acquire_dialed True 0 0 run1) = Got 0"
  "fst (acquire_enter clk run2) = Wait 0"
  "fst (Release 0 0 0 run3) = Released"
  by code_simp+

lemma run_prefix:
  shows "pool_reached (pool_start ''b'' (small_pool 0)) (with_procs run1 {#Dialing#})"
    and "pool_reached (pool_start ''b'' (small_pool 0)) (with_procs run2 {#Holding 0#})"
    and "pool_reached (pool_start ''b'' (small_pool 0)) (with_procs run5 {#})"
proof -
  let ?s0 = "with_procs (NewBackendPool ''b'' (small_pool 0)) {#}"
  have s0: "?s0 = pool_start ''b'' (small_pool 0)" by (simp add: with_procs_def pool_start_def)
  have 0: "pool_reached ?s0 ?s0" by (rule pool_reached.start)
  have 1: "pool_reached ?s0 (with_procs run1 {#Dialing#})"
    using pool_reached.step [OF 0 _ pool_step.enter [of clk ?s0 Dial run1]] run_results(1) by (simp add: run1_def prod_eq_iff)
  have 2: "pool_reached ?s0 (with_procs run2 {#Holding 0#})"
    using pool_reached.step [OF 1 _ pool_step.dialed [of _ "{#}" True 0 0 "Got 0" run2]] run_results(2)
    by (simp add: run2_def prod_eq_iff)
  have 3: "pool_reached ?s0 (with_procs run3 {#Holding 0, Waiting 0#})"
    using pool_reached.step [OF 2 _ pool_step.enter [of clk _ "Wait 0" run3]] run_results(3) by (simp add: run3_def prod_eq_iff)
  have 4: "pool_reached ?s0 (with_procs run4 {#Waiting 0#})"
    using pool_reached.step [OF 3 _ pool_step.release [of _ 0 "{#Waiting 0#}" 0 0 Released run4]] run_results(4)
    by (simp add: run4_def prod_eq_iff add_mset_commute)
  have 5: "pool_reached ?s0 (with_procs run5 {#})"
    using pool_reached.step [OF 4 _ pool_step.expired [of _ 0 "{#}"]] by (simp add: run5_def)
  show "pool_reached (pool_start ''b'' (small_pool 0)) (with_procs run1 {#Dialing#})"
    "pool_reached (pool_start ''b'' (small_pool 0)) (with_procs run2 {#Holding 0#})"
    "pool_reached (pool_start ''b'' (small_pool 0)) (with_procs run5 {#})"
    using 1 2 5 by (simp_all only: s0)
qed

definition wedged :: "pool_sys \<Rightarrow> bool" where
  "wedged s \<longleftrightarrow> holders (procs s) = {#} \<and> Dialing \<notin># procs s \<and> (\<forall>w. fillers s w \<in> {FOff, FStart, FCheck 0}) \<and>
     po_MinIdleConns (bp_config (pool s)) \<le> 0 \<and> idle (pool s) = [] \<and>
     (bp_closed (pool s) \<or> totalConns (pool s) \<ge> po_MaxPoolSize (bp_config (pool s)) \<and> inUse (pool s) = Some fmempty) \<and>
     (\<forall>ch. Waiting ch \<in># procs s \<or> next_chan (pool s) \<le> ch \<longrightarrow> map_of (mailbox (pool s)) ch = None)"

lemma wedged_step:
  assumes "pool_step s s'" and "wedged s"
  shows "wedged s'"
proof -
  have off: "fillers s w \<in> {FOff, FStart, FCheck 0}" for w using assms(2) by (simp add: wedged_def)
  from assms(1) show ?thesis
  proof cases
    case (enter now nx p')
    with assms(2) show ?thesis
      by (auto simp: wedged_def acquire_enter_def acquire_idle.simps split: if_splits)
  next
    case (received ch P t r p')
    then have "map_of (mailbox (pool s)) ch = None" using assms(2) by (auto simp: wedged_def)
    with received assms(2) show ?thesis by (auto simp: wedged_def acquire_received_def split: if_splits)
  next
    case (expired ch P)
    with assms(2) show ?thesis by (auto simp: wedged_def acquire_expired_def)
  next
    case (close r)
    with assms(2) show ?thesis by (auto simp: wedged_def Pool_Close_def Let_def List.map_filter_simps)
  next
    case (tick t)
    with assms(2) show ?thesis by (auto simp: wedged_def cleanupIdleConnections_def)
  next
    case (plan w)
    then have "ensure_plan (pool s) = 0" using assms(2) by (auto simp: wedged_def ensure_plan_def)
    with plan assms(2) show ?thesis by (auto simp: wedged_def)
  next
    case (fill_check w n)
    with off [of w] show ?thesis by simp
  next
    case (fill_failed w n)
    with off [of w] show ?thesis by simp
  next
    case (fill_dialed w n t u pc p')
    with off [of w] show ?thesis by simp
  next
    case (fill_put w n pc)
    with off [of w] show ?thesis by simp
  qed (use assms(2) in \<open>auto simp: wedged_def\<close>)
qed

lemma wedged_forever: "pool_reached s s' \<Longrightarrow> wedged s \<Longrightarrow> wedged s'"
  by (induction rule: pool_reached.induct) (auto intro: wedged_step)

lemma run5_wedged: "wedged (with_procs run5 {#})"
proof -
  have f: "po_MinIdleConns (bp_config run5) \<le> 0" "idle run5 = []" "totalConns run5 \<ge> po_MaxPoolSize (bp_config run5)"
    "map fst (mailbox run5) = [0]" "next_chan run5 = 1" by code_simp+
  then have "map_of (mailbox run5) ch = None" if "next_chan run5 \<le> ch" for ch
    using that by (metis list.set(1) list.simps(15) map_of_eq_None_iff not_one_le_zero set_map singletonD)
  moreover have "inUse run5 = Some fmempty" by code_simp
  ultimately show ?thesis
    using f by (auto simp: wedged_def with_procs_def pool_start_def)
qed

text \<open>
  (C20) A waiting client that gives up after a connection was handed to it loses the connection:
  from then on the pool counts it for ever, and when all connections are lost this way no
  client gets a connection any more, although nothing is idle, in use or closed.
\<close>

theorem pool_wedges:
  "pool_reached (pool_start ''b'' (small_pool 0)) (with_procs run5 {#}) \<and>
   idle run5 = [] \<and> in_use run5 = {#} \<and> net_closed run5 = {||} \<and> totalConns run5 = po_MaxPoolSize (bp_config run5) \<and>
   {s. pool_reached (with_procs run5 {#}) s \<and> holders (procs s) \<noteq> {#}} = {}"
proof -
  have "idle run5 = []" "net_closed run5 = {||}" "totalConns run5 = po_MaxPoolSize (bp_config run5)" by code_simp+
  moreover have "inUse run5 = Some fmempty" by code_simp
  then have "in_use run5 = {#}" by (simp add: in_use_def)
  ultimately show ?thesis
    using run_prefix(3) wedged_forever [OF _ run5_wedged] by (auto simp: wedged_def)
qed

text \<open>
  Closing a pool while a client is dialing crashes the process: the map of connections in
  use is nil by then, and the client writes to it.
\<close>

theorem close_crashes:
  "\<exists>s. pool_reached (pool_start ''b'' (small_pool 0)) s \<and> Crashed \<in># procs s"
proof -
  define p where "p = Pool_Close sorted_list_of_fset run1"
  have r: "fst (acquire_dialed True 0 0 p) = AcquirePanic" unfolding p_def by code_simp
  have "pool_reached (pool_start ''b'' (small_pool 0)) (with_procs p {#Dialing#})"
    using pool_reached.step [OF run_prefix(1) _ pool_step.close [OF ranger_sorted]] by (simp add: p_def)
  from pool_reached.step [OF this _ pool_step.dialed [of _ "{#}" True 0 0 AcquirePanic "snd (acquire_dialed True 0 0 p)"]] r
  have "pool_reached (pool_start ''b'' (small_pool 0)) (with_procs (snd (acquire_dialed True 0 0 p)) {#Crashed#})"
    by (simp add: prod_eq_iff)
  then show ?thesis by force
qed

definition full :: "nat \<Rightarrow> BackendPool" where
  "full n = rec_nat (snd (acquire_enter clk (NewBackendPool ''b'' (small_pool 1)))) (\<lambda>_ p. snd (ensure_dialed 0 0 p)) n"

text \<open>
  The fillers do not reserve the connections they dial: with a limit of one connection the
  pool can count three.
\<close>

theorem pool_overshoots:
  "\<exists>s. pool_reached (pool_start ''b'' (small_pool 1)) s \<and> totalConns (pool s) = po_MaxPoolSize (bp_config (pool s)) + 2"
proof -
  let ?p = "NewBackendPool ''b'' (small_pool 1)"
  let ?s = "\<lambda>p P w m. \<lparr>pool = p, procs = P, fillers = (\<lambda>_. FOff)(WarmUp := w, Maintenance := m)\<rparr>"
  let ?R = "pool_reached (pool_start ''b'' (small_pool 1))"
  have upd: "f(WarmUp := a, Maintenance := b, WarmUp := c) = f(WarmUp := c, Maintenance := b)" for f :: "worker \<Rightarrow> filler" and a b c
    by (simp add: fun_upd_twist)
  have plan: "nat (ensure_plan ?p) = 1" "ensure_check ?p" "cleanupIdleConnections 0 ?p = ?p" by code_simp+
  have acq: "acquire_enter clk ?p = (Dial, full 0)" by (simp add: full_def prod_eq_iff) code_simp
  have dial: "ensure_dialed 0 0 (full n) = (fst (ensure_dialed 0 0 (full n)), full (Suc n))" for n by (simp add: full_def)
  have 0: "?R (?s ?p {#} FStart FOff)"
    using pool_reached.start [of "pool_start ''b'' (small_pool 1)"] by (simp add: pool_start_def fun_upd_idem)
  have 1: "?R (?s ?p {#} (FCheck 1) FOff)"
    using pool_reached.step [OF 0 _ pool_step.plan [of _ WarmUp]] by (simp add: plan upd)
  have 2: "?R (?s ?p {#} (FCheck 1) FStart)"
    using pool_reached.step [OF 1 _ pool_step.tick [of _ 0]] by (simp add: plan)
  have 3: "?R (?s ?p {#} (FCheck 1) (FCheck 1))"
    using pool_reached.step [OF 2 _ pool_step.plan [of _ Maintenance]] by (simp add: plan)
  have 4: "?R (?s ?p {#} (FDial 0) (FCheck 1))"
    using pool_reached.step [OF 3 _ pool_step.fill_check [of _ WarmUp 0]] by (simp add: plan upd)
  have 5: "?R (?s ?p {#} (FDial 0) (FDial 0))"
    using pool_reached.step [OF 4 _ pool_step.fill_check [of _ Maintenance 0]] by (simp add: plan)
  have 6: "?R (?s (full 0) {#Dialing#} (FDial 0) (FDial 0))"
    using pool_reached.step [OF 5 _ pool_step.enter [of clk]] acq by simp
  have 7: "?R (?s (full 1) {#Dialing#} (FAdded 0 (fst (ensure_dialed 0 0 (full 0)))) (FDial 0))"
    using pool_reached.step [OF 6 _ pool_step.fill_dialed [of _ WarmUp 0 0 0]] dial [of 0] by (simp add: upd)
  have 8: "?R (?s (full 2) {#Dialing#} (FAdded 0 (fst (ensure_dialed 0 0 (full 0)))) (FAdded 0 (fst (ensure_dialed 0 0 (full 1)))))"
    using pool_reached.step [OF 7 _ pool_step.fill_dialed [of _ Maintenance 0 0 0]] dial [of 1] by (simp add: numeral_2_eq_2)
  moreover have "totalConns (full 2) = po_MaxPoolSize (bp_config (full 2)) + 2" by code_simp
  ultimately show ?thesis by force
qed

theorem pool_conservation_witness:
  "totalConns run2 = int (size (mset (map pc_conn (idle run2)) + in_use run2 + mset (map (pc_conn \<circ> snd) (mailbox run2))))"
  using pool_conservation [OF run_prefix(2)]
  by (simp add: Let_def small_pool_def DefaultPoolConfig_def)
    (simp add: with_procs_def pool_start_def all_added_def)

theorem pool_exclusive_witness: "0 |\<notin>| net_closed run2 \<and> 0 \<notin> pc_conn ` set (idle run2)"
proof -
  have "\<not> bp_closed run2" by code_simp
  then show ?thesis
    using pool_exclusive [OF run_prefix(2)] by (simp add: small_pool_def DefaultPoolConfig_def)
qed

theorem pool_bounded_witness: "0 \<le> totalConns run2 \<and> totalConns run2 \<le> po_MaxPoolSize (bp_config run2) + 2"
  using pool_bounded [OF run_prefix(2)] by (simp add: small_pool_def DefaultPoolConfig_def)

end
