(* ===== verification/PoolManager.thy ===== *)
theory PoolManager
  imports PoolProps
begin

text \<open>
  The pools of all backends (\<open>proxy/pool_manager.go\<close>). Pools are shared objects: a goroutine
  keeps the pool it looked up while others remove it from the map, so the manager's state has
  a heap of pools, numbered in the order of their creation, and a map from addresses to these
  numbers. As for the pool, every definition is one critical section, and \<open>manager_step\<close>
  interleaves them with the steps of the pools.
\<close>

section \<open>State and operations\<close>

record PoolManager =
  pm_config :: ProxyPoolConfig
  pm_pools :: "(string, nat) fmap"
  pm_heap :: "BackendPool list"

definition NewPoolManager :: "ProxyPoolConfig \<Rightarrow> PoolManager" where
  "NewPoolManager cfg = \<lparr>pm_config = cfg, pm_pools = fmempty, pm_heap = []\<rparr>"

definition lookup_pool :: "string \<Rightarrow> PoolManager \<Rightarrow> nat option" where
  "lookup_pool address pm = fmlookup (pm_pools pm) address"

text \<open>The slow path of getOrCreatePool, which looks again before it creates.\<close>

definition create_pool :: "string \<Rightarrow> PoolManager \<Rightarrow> nat \<times> PoolManager" where
  "create_pool address pm =
     (case fmlookup (pm_pools pm) address of
        Some i \<Rightarrow> (i, pm)
      | None \<Rightarrow> (length (pm_heap pm),
          pm\<lparr>pm_pools := fmupd address (length (pm_heap pm)) (pm_pools pm),
             pm_heap := pm_heap pm @ [NewBackendPool address (pm_config pm)]\<rparr>))"

definition getOrCreatePool :: "string \<Rightarrow> PoolManager \<Rightarrow> nat \<times> PoolManager" where
  "getOrCreatePool address pm =
     (case lookup_pool address pm of Some i \<Rightarrow> (i, pm) | None \<Rightarrow> create_pool address pm)"

definition on_pool :: "nat \<Rightarrow> (BackendPool \<Rightarrow> BackendPool) \<Rightarrow> PoolManager \<Rightarrow> PoolManager" where
  "on_pool i f pm = pm\<lparr>pm_heap := (pm_heap pm)[i := f (pm_heap pm ! i)]\<rparr>"

definition Manager_Acquire :: "(nat \<Rightarrow> time) \<Rightarrow> string \<Rightarrow> PoolManager \<Rightarrow> nat \<times> acquire_next \<times> PoolManager" where
  "Manager_Acquire now address pm =
     (case getOrCreatePool address pm of
        (i, pm1) \<Rightarrow> (case acquire_enter now (pm_heap pm1 ! i) of
          (nx, p') \<Rightarrow> (i, nx, on_pool i (\<lambda>_. p') pm1)))"

text \<open>Giving a connection back: to the pool of its address, or, when that is gone, by closing it.\<close>

datatype give_back = ToPool nat release_result | ClosedDirectly conn

definition Manager_Release :: "time \<Rightarrow> time \<Rightarrow> string \<Rightarrow> conn \<Rightarrow> PoolManager \<Rightarrow> give_back \<times> PoolManager" where
  "Manager_Release now used address c pm =
     (case lookup_pool address pm of
        Some i \<Rightarrow> (case Release now used c (pm_heap pm ! i) of (r, p') \<Rightarrow> (ToPool i r, on_pool i (\<lambda>_. p') pm))
      | None \<Rightarrow> (ClosedDirectly c, pm))"

definition Manager_Discard :: "string \<Rightarrow> conn \<Rightarrow> PoolManager \<Rightarrow> give_back \<times> PoolManager" where
  "Manager_Discard address c pm =
     (case lookup_pool address pm of
        Some i \<Rightarrow> (ToPool i Released, on_pool i (Discard c) pm)
      | None \<Rightarrow> (ClosedDirectly c, pm))"

text \<open>RemovePool and Close take the pools out of the map first and close them afterwards; the
  result names the pools to close. DrainAll, below, closes the pools but leaves them in the map.\<close>

definition remove_pool :: "string \<Rightarrow> PoolManager \<Rightarrow> nat list \<times> PoolManager" where
  "remove_pool address pm =
     (case fmlookup (pm_pools pm) address of
        Some i \<Rightarrow> ([i], pm\<lparr>pm_pools := fmdrop address (pm_pools pm)\<rparr>)
      | None \<Rightarrow> ([], pm))"

definition pool_values :: "string ranger \<Rightarrow> PoolManager \<Rightarrow> nat list" where
  "pool_values r pm = List.map_filter (fmlookup (pm_pools pm)) (r (fmdom (pm_pools pm)))"

definition take_all :: "string ranger \<Rightarrow> PoolManager \<Rightarrow> nat list \<times> PoolManager" where
  "take_all r pm = (pool_values r pm, pm\<lparr>pm_pools := fmempty\<rparr>)"

definition close_pool :: "conn ranger \<Rightarrow> nat \<Rightarrow> PoolManager \<Rightarrow> PoolManager" where
  "close_pool r i = on_pool i (Pool_Close r)"

definition RemovePool :: "conn ranger \<Rightarrow> string \<Rightarrow> PoolManager \<Rightarrow> PoolManager" where
  "RemovePool r address pm = (case remove_pool address pm of (is, pm1) \<Rightarrow> fold (close_pool r) is pm1)"

definition Manager_Close :: "conn ranger \<Rightarrow> string ranger \<Rightarrow> PoolManager \<Rightarrow> PoolManager" where
  "Manager_Close r ra pm = (case take_all ra pm of (is, pm1) \<Rightarrow> fold (close_pool r) is pm1)"

text \<open>
  DrainAll starts one goroutine per pool of the map, which runs the pool's Close: the critical section
  of Close (\<open>CloseEnter\<close>), then its wait for the maintenance goroutine and the Done of the wait group
  (\<open>CloseReturn\<close>). Meanwhile DrainAll waits until all have returned (\<open>AllDone\<close>) or the timeout fires
  (\<open>DrainTimeout\<close>), whichever the select takes first. Events come in any order; one that is not possible
  has no effect. \<open>entering\<close> and \<open>closing\<close> are the goroutines that have not yet entered Close, and
  those that have not yet returned from it. The result is \<open>None\<close> while DrainAll waits, and otherwise
  whether all pools were drained, with the manager at that moment.
\<close>

datatype drain_event = CloseEnter nat | CloseReturn nat | AllDone | DrainTimeout

fun drain_pools ::
    "conn ranger \<Rightarrow> drain_event list \<Rightarrow> nat list \<Rightarrow> nat list \<Rightarrow> PoolManager \<Rightarrow> (bool \<times> PoolManager) option" where
  "drain_pools r [] entering closing pm = None"
| "drain_pools r (DrainTimeout # evs) entering closing pm = Some (False, pm)"
| "drain_pools r (AllDone # evs) entering closing pm =
     (if entering = [] \<and> closing = [] then Some (True, pm) else drain_pools r evs entering closing pm)"
| "drain_pools r (CloseEnter i # evs) entering closing pm =
     (if i \<in> set entering then drain_pools r evs (remove1 i entering) (i # closing) (close_pool r i pm)
      else drain_pools r evs entering closing pm)"
| "drain_pools r (CloseReturn i # evs) entering closing pm = drain_pools r evs entering (remove1 i closing) pm"

definition Manager_DrainAll ::
    "conn ranger \<Rightarrow> string ranger \<Rightarrow> drain_event list \<Rightarrow> PoolManager \<Rightarrow> (bool \<times> PoolManager) option" where
  "Manager_DrainAll r ra evs pm = drain_pools r evs (pool_values ra pm) [] pm"

definition Manager_Stats :: "PoolManager \<Rightarrow> (string, PoolStats) fmap" where
  "Manager_Stats pm = fmmap (\<lambda>i. Pool_Stats (pm_heap pm ! i)) (pm_pools pm)"

definition PoolCount :: "PoolManager \<Rightarrow> nat" where
  "PoolCount pm = maplen (pm_pools pm)"

definition Manager_UpdateConfig :: "ProxyPoolConfig \<Rightarrow> PoolManager \<Rightarrow> PoolManager" where
  "Manager_UpdateConfig cfg pm = pm\<lparr>pm_config := cfg\<rparr>"

definition IsEnabled :: "PoolManager \<Rightarrow> bool" where
  "IsEnabled pm = po_Enabled (pm_config pm)"

section \<open>Interleaving\<close>

text \<open>\<open>doomed\<close> are the pools a goroutine has taken out of the map and is about to close.\<close>

record manager_sys =
  mgr :: PoolManager
  doomed :: "nat list"

inductive manager_step :: "manager_sys \<Rightarrow> manager_sys \<Rightarrow> bool" where
  create: "create_pool a (mgr s) = (i, pm') \<Longrightarrow> manager_step s (s\<lparr>mgr := pm'\<rparr>)"
| use_pool: "i < length (pm_heap (mgr s)) \<Longrightarrow> pool_step t t' \<Longrightarrow> pool t = pm_heap (mgr s) ! i \<Longrightarrow>
    manager_step s (s\<lparr>mgr := on_pool i (\<lambda>_. pool t') (mgr s)\<rparr>)"
| remove: "remove_pool a (mgr s) = (is, pm') \<Longrightarrow> manager_step s (s\<lparr>mgr := pm', doomed := doomed s @ is\<rparr>)"
| close_all: "is_ranger r \<Longrightarrow> take_all r (mgr s) = (is, pm') \<Longrightarrow>
    manager_step s (s\<lparr>mgr := pm', doomed := doomed s @ is\<rparr>)"
| close_one: "is_ranger r \<Longrightarrow> doomed s = xs @ i # ys \<Longrightarrow>
    manager_step s (s\<lparr>mgr := close_pool r i (mgr s), doomed := xs @ ys\<rparr>)"
| drain_one: "is_ranger r \<Longrightarrow> i \<in> fmran' (pm_pools (mgr s)) \<Longrightarrow> manager_step s (s\<lparr>mgr := close_pool r i (mgr s)\<rparr>)"
| update: "manager_step s (s\<lparr>mgr := Manager_UpdateConfig cfg (mgr s)\<rparr>)"

inductive manager_reached :: "manager_sys \<Rightarrow> manager_sys \<Rightarrow> bool" for s0 where
  start: "manager_reached s0 s0"
| step: "manager_reached s0 s \<Longrightarrow> manager_step s s' \<Longrightarrow> manager_reached s0 s'"

section \<open>No pool is lost\<close>

definition manager_inv :: "manager_sys \<Rightarrow> bool" where
  "manager_inv s \<longleftrightarrow> (let pm = mgr s; heap = pm_heap pm in
     (\<forall>a i. fmlookup (pm_pools pm) a = Some i \<longrightarrow> i < length heap \<and> bp_address (heap ! i) = a) \<and>
     set (doomed s) \<subseteq> {..<length heap} \<and>
     (\<forall>i < length heap. bp_closed (heap ! i) \<or> i \<in> set (doomed s) \<or> fmlookup (pm_pools pm) (bp_address (heap ! i)) = Some i))"

lemma pool_values_set: "is_ranger r \<Longrightarrow> set (pool_values r pm) = fmran' (pm_pools pm)"
proof -
  have m: "set (List.map_filter f l) = {y. \<exists>x \<in> set l. f x = Some y}" for f :: "string \<Rightarrow> nat option" and l
    by (induction l) (auto simp: List.map_filter_simps split: option.splits)
  show "is_ranger r \<Longrightarrow> ?thesis"
    unfolding pool_values_def m by (auto simp: ranger_set fmlookup_ran'_iff intro: fmdomI)
qed

lemma manager_invD:
  assumes "manager_inv s"
  shows "fmlookup (pm_pools (mgr s)) a = Some i \<Longrightarrow> i < length (pm_heap (mgr s)) \<and> bp_address (pm_heap (mgr s) ! i) = a"
    and "set (doomed s) \<subseteq> {..<length (pm_heap (mgr s))}"
    and "i < length (pm_heap (mgr s)) \<Longrightarrow> bp_closed (pm_heap (mgr s) ! i) \<or> i \<in> set (doomed s) \<or>
      fmlookup (pm_pools (mgr s)) (bp_address (pm_heap (mgr s) ! i)) = Some i"
  using assms by (simp_all add: manager_inv_def Let_def)

lemma closeConn_frame [simp]: "bp_address (fold closeConn cs p) = bp_address p" "bp_closed (fold closeConn cs p) = bp_closed p"
  by (induction cs arbitrary: p) (simp_all add: closeConn_def count_conn_def net_Close_def)

lemma Pool_Close_closed [simp]: "bp_closed (Pool_Close r p)" "bp_address (Pool_Close r p) = bp_address p"
  by (simp_all add: Pool_Close_def Let_def)

lemma pool_ops_frame:
  "bp_address (snd (acquire_enter now p)) = bp_address p \<and> bp_closed (snd (acquire_enter now p)) = bp_closed p"
proof -
  obtain r p1 where i: "acquire_idle now 0 p = (r, p1)" by fastforce
  have "bp_address p1 = bp_address p \<and> bp_closed p1 = bp_closed p"
    using acquire_idle_cases [OF i] by (auto simp: took_def put_inUse_def Let_def split: option.splits)
  then show ?thesis by (auto simp: acquire_enter_def i count_conn_def split: option.splits)
qed

lemma pool_step_frame:
  "pool_step s s' \<Longrightarrow> bp_address (pool s') = bp_address (pool s) \<and> (bp_closed (pool s) \<longrightarrow> bp_closed (pool s'))"
proof (induction rule: pool_step.induct)
  case (enter now s nx p')
  then show ?case using pool_ops_frame [of now "pool s"] by simp
next
  case (tick s t)
  then show ?case
    using cleanup_idle_eq [of t "[]" "idle (pool s)" "pool s"] by (auto simp: cleanupIdleConnections_def)
qed (auto simp: acquire_dialed_def acquire_received_def acquire_expired_def Release_def Discard_def send_def new_conn_def
    put_inUse_def closeConn_def count_conn_def net_Close_def ensure_dialed_def ensure_put_def Let_def
    split: option.splits if_splits list.splits)

lemma on_pool_simps [simp]:
  "pm_pools (on_pool i f pm) = pm_pools pm" "length (pm_heap (on_pool i f pm)) = length (pm_heap pm)"
  "j < length (pm_heap pm) \<Longrightarrow> pm_heap (on_pool i f pm) ! j = (if i = j then f (pm_heap pm ! j) else pm_heap pm ! j)"
  by (simp_all add: on_pool_def)

lemma on_pool_inv:
  assumes "manager_inv s" and "bp_address (f (pm_heap (mgr s) ! i)) = bp_address (pm_heap (mgr s) ! i)"
    and "bp_closed (pm_heap (mgr s) ! i) \<longrightarrow> bp_closed (f (pm_heap (mgr s) ! i))"
    and "set D \<subseteq> set (doomed s)" and "\<And>j. j \<in> set (doomed s) \<Longrightarrow> j \<in> set D \<or> j = i \<and> bp_closed (f (pm_heap (mgr s) ! i))"
  shows "manager_inv (s\<lparr>mgr := on_pool i f (mgr s), doomed := D\<rparr>)"
  using assms by (fastforce simp: manager_inv_def Let_def)

lemma manager_step_inv:
  assumes "manager_step s s'" and inv: "manager_inv s"
  shows "manager_inv s'"
  using assms(1)
proof cases
  case (create a i pm')
  show ?thesis
  proof (cases "fmlookup (pm_pools (mgr s)) a")
    case None
    define q where "q = NewBackendPool a (pm_config (mgr s))"
    have q: "bp_address q = a" by (simp add: q_def NewBackendPool_def)
    have s': "s' = s\<lparr>mgr := (mgr s)\<lparr>pm_pools := fmupd a (length (pm_heap (mgr s))) (pm_pools (mgr s)),
        pm_heap := pm_heap (mgr s) @ [q]\<rparr>\<rparr>"
      using create None by (auto simp: create_pool_def q_def)
    have "b = a \<or> i < length (pm_heap (mgr s)) \<and> bp_address (pm_heap (mgr s) ! i) = b"
      if "fmlookup (fmupd a (length (pm_heap (mgr s))) (pm_pools (mgr s))) b = Some i" for b i
      using that inv by (auto simp: manager_inv_def Let_def split: if_splits)
    with inv None q show ?thesis
      unfolding manager_inv_def Let_def s' by (fastforce simp: nth_append less_Suc_eq split: if_splits)
  qed (use create inv in \<open>auto simp: create_pool_def manager_inv_def\<close>)
next
  case (use_pool i t t')
  with on_pool_inv [OF inv, of "\<lambda>_. pool t'" i "doomed s"] pool_step_frame [OF use_pool(3)] show ?thesis by simp
next
  case (remove a xs pm')
  show ?thesis
  proof (cases "fmlookup (pm_pools (mgr s)) a")
    case None
    then show ?thesis using remove inv by (simp add: remove_pool_def manager_inv_def)
  next
    case (Some i)
    then have s': "s' = s\<lparr>mgr := (mgr s)\<lparr>pm_pools := fmdrop a (pm_pools (mgr s))\<rparr>, doomed := doomed s @ [i]\<rparr>"
      using remove by (auto simp: remove_pool_def)
    let ?heap = "pm_heap (mgr s)" and ?pools = "pm_pools (mgr s)"
    have "bp_closed (?heap ! j) \<or> j \<in> set (doomed s @ [i]) \<or> fmlookup (fmdrop a ?pools) (bp_address (?heap ! j)) = Some j"
      if "j < length ?heap" for j
      using manager_invD(3) [OF inv that] Some by (cases "bp_address (?heap ! j) = a") auto
    moreover have "j < length ?heap \<and> bp_address (?heap ! j) = b" if "fmlookup (fmdrop a ?pools) b = Some j" for b j
      using manager_invD(1) [OF inv, of b j] that by (simp split: if_splits)
    moreover have "set (doomed s @ [i]) \<subseteq> {..<length ?heap}"
      using manager_invD(1) [OF inv Some] manager_invD(2) [OF inv] by simp
    ultimately show ?thesis unfolding manager_inv_def Let_def s' by simp
  qed
next
  case (close_all r xs pm')
  have "set xs = fmran' (pm_pools (mgr s))"
    using close_all by (auto simp: take_all_def pool_values_set)
  moreover have "s' = s\<lparr>mgr := (mgr s)\<lparr>pm_pools := fmempty\<rparr>, doomed := doomed s @ xs\<rparr>"
    using close_all by (auto simp: take_all_def)
  moreover have "set xs \<subseteq> {..<length (pm_heap (mgr s))}"
    using calculation(1) manager_invD(1) [OF inv] by (auto simp: fmlookup_ran'_iff)
  moreover have "bp_closed (pm_heap (mgr s) ! j) \<or> j \<in> set (doomed s @ xs)" if "j < length (pm_heap (mgr s))" for j
    using manager_invD(3) [OF inv that] calculation(1) by (auto simp: fmlookup_ran'_iff)
  ultimately show ?thesis using manager_invD(2) [OF inv] by (auto simp: manager_inv_def Let_def)
next
  case (close_one r xs i ys)
  with on_pool_inv [OF inv, of "Pool_Close r" i "xs @ ys"] show ?thesis by (auto simp: close_pool_def)
next
  case (drain_one r i)
  with on_pool_inv [OF inv, of "Pool_Close r" i "doomed s"] show ?thesis by (simp add: close_pool_def)
next
  case (update cfg)
  then show ?thesis using inv by (simp add: manager_inv_def Manager_UpdateConfig_def Let_def)
qed

text \<open>
  No pool is lost: however creation, use, removal and shutdown of pools interleave, every
  pool that is still open is the one its address is mapped to, or is about to be closed by
  the goroutine that removed it; in particular two goroutines that ask for a pool of the same
  address at the same time get the same one.
\<close>

theorem pools_not_lost:
  assumes "manager_reached \<lparr>mgr = NewPoolManager cfg, doomed = []\<rparr> s"
  shows "(\<forall>i p. i < length (pm_heap (mgr s)) \<and> p = pm_heap (mgr s) ! i \<longrightarrow>
      bp_closed p \<or> i \<in> set (doomed s) \<or> lookup_pool (bp_address p) (mgr s) = Some i) \<and>
    (\<forall>a. fst (getOrCreatePool a (mgr s)) = fst (create_pool a (snd (create_pool a (mgr s)))))"
proof -
  have "manager_inv s"
    using assms
  proof (induction rule: manager_reached.induct)
    case start
    then show ?case by (simp add: manager_inv_def NewPoolManager_def)
  qed (rule manager_step_inv)
  then show ?thesis
    by (auto simp: manager_inv_def Let_def lookup_pool_def getOrCreatePool_def create_pool_def split: option.splits)
qed

theorem pools_not_lost_witness:
  "fst (getOrCreatePool ''b'' (NewPoolManager DefaultPoolConfig)) =
   fst (create_pool ''b'' (snd (create_pool ''b'' (NewPoolManager DefaultPoolConfig))))"
  using pools_not_lost [OF manager_reached.start] by simp

end
