(* ===== verification/Router.thy ===== *)
theory Router
  imports StoreProps "HOL-Library.Word"
begin

text \<open>
  Routing decisions of the proxy, src/internal/proxy/router.go, over the interface
  ClusterStateSource, and the adapter that implements the interface on the local replica
  of the cluster state (RaftStateAdapter of src/internal/consensus/store.go).
\<close>

section \<open>Data\<close>

abbreviation RolePrimary :: string where "RolePrimary \<equiv> ''primary''"
abbreviation RoleReplica :: string where "RoleReplica \<equiv> ''replica''"

record NodeState =
  ns_Name :: string
  ns_Host :: string
  ns_Port :: int
  ns_Role :: string
  ns_State :: string
  ns_Timeline :: int
  ns_Lag :: int
  ns_LastSeen :: time

text \<open>The router's own state is the round-robin counter; it never uses its other fields.\<close>

record rworld = world +
  rrIndex :: "64 word"

text \<open>A value of the interface: its three methods.\<close>

record 'w ClusterStateSource =
  src_GetPrimary :: "('w, NodeState option) state"
  src_GetReplicas :: "('w, NodeState list) state"
  src_IsSplitBrain :: "('w, bool) state"

record RoutingTableInfo =
  rt_Primary :: string
  rt_Replicas :: "string list"
  rt_SplitBrain :: bool

section \<open>RaftStateAdapter\<close>

definition to_NodeState :: "string \<Rightarrow> NodeInfo \<Rightarrow> NodeState" where
  "to_NodeState role n = \<lparr>ns_Name = ni_Name n, ns_Host = ni_Host n, ns_Port = ni_Port n, ns_Role = role,
     ns_State = ni_State n, ns_Timeline = ni_Timeline n, ns_Lag = ni_Lag n, ns_LastSeen = ni_LastSeen n\<rparr>"

definition RaftStateAdapter :: "env \<Rightarrow> 'z world_scheme ClusterStateSource" where
  "RaftStateAdapter E = \<lparr>
     src_GetPrimary = read_fsm E (\<lambda>r s. map_option (to_NodeState RolePrimary) (GetPrimary s)),
     src_GetReplicas = read_fsm E (\<lambda>r s. map (to_NodeState RoleReplica) (GetReplicas r s)),
     src_IsSplitBrain = read_fsm E (\<lambda>r s. IsSplitBrain s)\<rparr>"

section \<open>Router\<close>

definition node_addr :: "NodeState \<Rightarrow> string" where
  "node_addr p = ns_Host p @ '':'' @ show_int (ns_Port p)"

definition PrimaryAddr :: "'w ClusterStateSource \<Rightarrow> ('w, string) state" where
  "PrimaryAddr src = do {
     sb \<leftarrow> src_IsSplitBrain src;
     if sb then return ''''
     else do {
       p \<leftarrow> src_GetPrimary src;
       return (case p of None \<Rightarrow> '''' | Some p \<Rightarrow> node_addr p) } }"

definition ReplicaAddr :: "'z rworld_scheme ClusterStateSource \<Rightarrow> ('z rworld_scheme, string) state" where
  "ReplicaAddr src = do {
     sb \<leftarrow> src_IsSplitBrain src;
     if sb then return ''''
     else do {
       replicas \<leftarrow> src_GetReplicas src;
       if replicas = [] then PrimaryAddr src
       else do {
         let addrs = map node_addr replicas;
         idx \<leftarrow> gets rrIndex;
         modify (rrIndex_update (\<lambda>i. i + 1));
         return (addrs ! (unat idx mod length addrs)) } } }"

definition RoutingTable :: "'w ClusterStateSource \<Rightarrow> ('w, RoutingTableInfo) state" where
  "RoutingTable src = do {
     primary \<leftarrow> src_GetPrimary src;
     replicas \<leftarrow> src_GetReplicas src;
     sb \<leftarrow> src_IsSplitBrain src;
     return \<lparr>rt_Primary = (case primary of None \<Rightarrow> '''' | Some p \<Rightarrow> node_addr p),
       rt_Replicas = map node_addr replicas, rt_SplitBrain = sb\<rparr> }"

section \<open>The contract of a state source\<close>

text \<open>
  What routing relies on: each method answers from the state as it is after the call, and
  the calls do not touch the router's counter. \<open>primary\<close>, \<open>replicas\<close> and \<open>split\<close> are the
  source's view; \<open>still\<close> says that no call changes the view or the order of the replicas.
\<close>

locale state_source =
  fixes src :: "'z rworld_scheme ClusterStateSource"
    and primary :: "'z rworld_scheme \<Rightarrow> NodeState option"
    and replicas :: "'z rworld_scheme \<Rightarrow> NodeState set"
    and split :: "'z rworld_scheme \<Rightarrow> bool"
    and still :: "NodeState list \<Rightarrow> 'z rworld_scheme \<Rightarrow> bool"
  assumes GetPrimary: "run_state (src_GetPrimary src) w = (p, w') \<Longrightarrow> p = primary w' \<and> rrIndex w' = rrIndex w"
    and GetReplicas: "run_state (src_GetReplicas src) w = (l, w') \<Longrightarrow> set l \<subseteq> replicas w' \<and> rrIndex w' = rrIndex w"
    and IsSplitBrain: "run_state (src_IsSplitBrain src) w = (b, w') \<Longrightarrow> b = split w' \<and> rrIndex w' = rrIndex w"
    and still_split: "still l w \<Longrightarrow> run_state (src_IsSplitBrain src) w = (b, w') \<Longrightarrow> \<not> b \<and> still l w'"
    and still_replicas: "still l w \<Longrightarrow> run_state (src_GetReplicas src) w = (l', w') \<Longrightarrow> l' = l \<and> still l w'"
    and view_index: "replicas (rrIndex_update f w) = replicas w"
    and still_index: "still l w \<Longrightarrow> still l (rrIndex_update f w)"
begin

lemma PrimaryAddr_sound:
  assumes "run_state (PrimaryAddr src) w = (a, w')" and "a \<noteq> ''''"
  shows "rrIndex w' = rrIndex w \<and> (\<exists>p. primary w' = Some p \<and> a = node_addr p)"
  using assms GetPrimary IsSplitBrain
  by (fastforce simp: PrimaryAddr_def split: prod.splits if_splits option.splits)

lemma ReplicaAddr_sound:
  assumes "run_state (ReplicaAddr src) w = (a, w')" and "a \<noteq> ''''"
  shows "(\<exists>p \<in> replicas w'. a = node_addr p) \<or> (\<exists>p. primary w' = Some p \<and> a = node_addr p)"
proof -
  obtain b w1 where b: "run_state (src_IsSplitBrain src) w = (b, w1)" by fastforce
  obtain l w2 where l: "run_state (src_GetReplicas src) w1 = (l, w2)" by fastforce
  show ?thesis
  proof (cases "l = []")
    case True
    with assms b l have "run_state (PrimaryAddr src) w2 = (a, w')"
      by (auto simp: ReplicaAddr_def split: if_splits)
    with PrimaryAddr_sound assms(2) show ?thesis by blast
  next
    case False
    with assms b l have "a = map node_addr l ! (unat (rrIndex w2) mod length l)" "w' = rrIndex_update (\<lambda>i. i + 1) w2"
      by (auto simp: ReplicaAddr_def split: if_splits)
    moreover have "unat (rrIndex w2) mod length l < length l" using False by simp
    ultimately have "\<exists>p \<in> set l. a = node_addr p" by (metis nth_map nth_mem)
    with GetReplicas [OF l] view_index \<open>w' = _\<close> show ?thesis by blast
  qed
qed

lemma ReplicaAddr_still:
  assumes "still l w" and "l \<noteq> []"
  shows "fst (run_state (ReplicaAddr src) w) = node_addr (l ! (unat (rrIndex w) mod length l)) \<and>
    still l (snd (run_state (ReplicaAddr src) w)) \<and>
    rrIndex (snd (run_state (ReplicaAddr src) w)) = rrIndex w + 1"
proof -
  obtain b w1 where b: "run_state (src_IsSplitBrain src) w = (b, w1)" by fastforce
  obtain l' w2 where l: "run_state (src_GetReplicas src) w1 = (l', w2)" by fastforce
  from still_split [OF assms(1) b] still_replicas [OF _ l] IsSplitBrain [OF b] GetReplicas [OF l]
  have "\<not> b" "l' = l" "still l w2" "rrIndex w2 = rrIndex w" by auto
  moreover have "unat (rrIndex w) mod length l < length l" using assms(2) by simp
  ultimately show ?thesis
    using assms(2) still_index by (simp add: ReplicaAddr_def b l)
qed

end

lemma GetReplicas_sound: "n \<in> set (GetReplicas r s) \<Longrightarrow> \<exists>k. mget (Nodes s) k = Some n \<and> ni_Role n = ''replica''"
  by (auto simp: GetReplicas_def range_vals_def List.map_filter_def)

lemma arrive_rrIndex [simp]: "rrIndex (arrive E w) = rrIndex w"
  by (simp add: arrive_def)

definition adapter_replicas :: "'z rworld_scheme \<Rightarrow> NodeState set" where
  "adapter_replicas w =
     to_NodeState RoleReplica ` {n. \<exists>k. mget (Nodes (w_fsm w)) k = Some n \<and> ni_Role n = ''replica''}"

definition adapter_still :: "env \<Rightarrow> NodeState list \<Rightarrow> 'z rworld_scheme \<Rightarrow> bool" where
  "adapter_still E l w \<longleftrightarrow> \<not> IsSplitBrain (w_fsm w) \<and> (\<forall>k \<ge> w_k w. e_arrive E k = [] \<and>
     l = map (to_NodeState RoleReplica) (GetReplicas (e_ranger E k) (w_fsm w)))"

interpretation adapter: state_source "RaftStateAdapter E"
    "\<lambda>w. map_option (to_NodeState RolePrimary) (GetPrimary (w_fsm w))"
    adapter_replicas "\<lambda>w. IsSplitBrain (w_fsm w)" "adapter_still E" for E
  by unfold_locales
    (auto simp: RaftStateAdapter_def adapter_replicas_def adapter_still_def dest!: GetReplicas_sound)

section \<open>Properties of routing\<close>

text \<open>
  The primary address is empty when the split-brain flag is set or no primary is
  recorded, and otherwise the recorded primary's own host and port; the flag and the
  primary are two reads, so entries may arrive between them.
\<close>

theorem primary_addr_exact:
  "fst (run_state (PrimaryAddr (RaftStateAdapter E)) w) =
     (let s1 = apply_log (e_arrive E (w_k w)) (w_fsm w);
          s2 = apply_log (e_arrive E (w_k w + 1)) s1
      in if IsSplitBrain s1 then ''''
         else case GetPrimary s2 of None \<Rightarrow> '''' | Some n \<Rightarrow> ni_Host n @ '':'' @ show_int (ni_Port n))"
  by (simp add: PrimaryAddr_def RaftStateAdapter_def Let_def node_addr_def to_NodeState_def split: option.split)

text \<open>
  With the split-brain flag set no address is routed to, for reads or for writes.
\<close>

theorem split_brain_refused:
  assumes "IsSplitBrain (apply_log (e_arrive E (w_k w)) (w_fsm w))"
  shows "fst (run_state (PrimaryAddr (RaftStateAdapter E)) w) = '''' \<and>
    fst (run_state (ReplicaAddr (RaftStateAdapter E)) w) = ''''"
  using assms by (simp add: PrimaryAddr_def ReplicaAddr_def RaftStateAdapter_def)

text \<open>
  A read is only ever routed to a node that was recorded as a replica, or to the
  recorded primary; the index into the replica list is in range at every counter value,
  wrap-around included.
\<close>

theorem replica_addr_sound:
  assumes "run_state (ReplicaAddr (RaftStateAdapter E)) w = (a, w')" and "a \<noteq> ''''"
  shows "\<exists>k n. mget (Nodes (w_fsm w')) k = Some n \<and> a = ni_Host n @ '':'' @ show_int (ni_Port n) \<and>
    (ni_Role n = ''replica'' \<or> k = PrimaryName (w_fsm w'))"
  using adapter.ReplicaAddr_sound [OF assms]
  by (fastforce simp: node_addr_def to_NodeState_def adapter_replicas_def GetPrimary_def split: if_splits)

fun repeat_act :: "nat \<Rightarrow> ('s, 'a) state \<Rightarrow> ('s, 'a list) state" where
  "repeat_act 0 m = return []"
| "repeat_act (Suc n) m = do { x \<leftarrow> m; xs \<leftarrow> repeat_act n m; return (x # xs) }"

lemma round_robin:
  assumes "adapter_still E l w" and "l \<noteq> []" and "unat (rrIndex w) + n < 2 ^ 64"
  shows "fst (run_state (repeat_act n (ReplicaAddr (RaftStateAdapter E))) w)
    = map (\<lambda>i. node_addr (l ! ((unat (rrIndex w) + i) mod length l))) [0..<n]"
  using assms
proof (induction n arbitrary: w)
  case 0
  then show ?case by simp
next
  case (Suc n)
  obtain a w1 where 1: "run_state (ReplicaAddr (RaftStateAdapter E)) w = (a, w1)" by fastforce
  have "unat (rrIndex w + 1) = unat (rrIndex w) + 1"
    using Suc.prems(3) by (simp add: unat_word_ariths)
  moreover note adapter.ReplicaAddr_still [OF Suc.prems(1,2)]
  ultimately have w1: "a = node_addr (l ! (unat (rrIndex w) mod length l))" "adapter_still E l w1"
    "unat (rrIndex w1) = unat (rrIndex w) + 1"
    using 1 by auto
  have "[0..<Suc n] = 0 # map Suc [0..<n]" by (metis map_Suc_upt upt_conv_Cons zero_less_Suc)
  with Suc.IH [OF w1(2) Suc.prems(2)] Suc.prems(3) w1 1 show ?case
    by (auto split: prod.splits simp: comp_def)
qed

text \<open>
  Round robin: while the cluster state and the order in which the replicas are
  listed stand still, as many calls as there are replicas return each of them once, in
  order, starting at the counter.
\<close>

theorem round_robin_fair:
  assumes "adapter_still E l w" and "l \<noteq> []" and "unat (rrIndex w) + length l < 2 ^ 64"
  shows "fst (run_state (repeat_act (length l) (ReplicaAddr (RaftStateAdapter E))) w)
    = rotate (unat (rrIndex w)) (map node_addr l)"
  unfolding round_robin [OF assms]
  using assms(2) by (intro nth_equalityI) (simp_all add: nth_rotate)

section \<open>Concrete runs\<close>

definition ex_replica :: "string \<Rightarrow> NodeInfo" where
  "ex_replica h = zero_NodeInfo\<lparr>ni_Name := h, ni_Host := h, ni_Port := 5432, ni_Role := ''replica''\<rparr>"

definition two_replicas :: "bool \<Rightarrow> FSMState" where
  "two_replicas sb = NewClusterFSM\<lparr>Nodes := Some (fmap_of_list [(''h2'', ex_replica ''h2''), (''h3'', ex_replica ''h3'')]),
     ClusterConf := \<lparr>cc_SplitBrain = sb\<rparr>\<rparr>"

definition start_router :: "FSMState \<Rightarrow> rworld" where
  "start_router s = \<lparr>w_k = 0, w_fsm = s, w_trace = [], rrIndex = 0\<rparr>"

definition shuffling_env :: env where
  "shuffling_env = quiet_env\<lparr>e_ranger := (\<lambda>k. if k mod 4 = 1 then sorted_list_of_fset else rev \<circ> sorted_list_of_fset)\<rparr>"

lemma shuffling_rangers: "is_ranger (e_ranger shuffling_env k)"
  using ranger_sorted by (simp add: shuffling_env_def is_ranger_def)

text \<open>
  The replicas are listed in the order of a loop over a Go map, which differs from
  call to call, so the counter alone does not give round robin: with two replicas and
  suitable loop orders every one of the calls goes to the same replica.
\<close>

theorem round_robin_unordered:
  "fst (run_state (repeat_act 4 (ReplicaAddr (RaftStateAdapter shuffling_env))) (start_router (two_replicas False)))
   = replicate 4 ''h2:5432''"
  by code_simp

theorem split_brain_refused_witness:
  "fst (run_state (PrimaryAddr (RaftStateAdapter quiet_env)) (start_router (two_replicas True))) = '''' \<and>
   fst (run_state (ReplicaAddr (RaftStateAdapter quiet_env)) (start_router (two_replicas True))) = ''''"
  by (rule split_brain_refused)
    (simp add: quiet_env_def start_router_def two_replicas_def IsSplitBrain_def)

theorem replica_addr_sound_witness:
  "\<exists>k n. mget (Nodes (two_replicas False)) k = Some n \<and> ''h2:5432'' = ni_Host n @ '':'' @ show_int (ni_Port n) \<and>
    (ni_Role n = ''replica'' \<or> k = PrimaryName (two_replicas False))"
proof -
  have "run_state (ReplicaAddr (RaftStateAdapter quiet_env)) (start_router (two_replicas False))
      = (''h2:5432'', (start_router (two_replicas False))\<lparr>w_k := 2, rrIndex := 1\<rparr>)"
    by code_simp
  from replica_addr_sound [OF this] show ?thesis by (simp add: start_router_def)
qed

theorem round_robin_fair_witness:
  "fst (run_state (repeat_act 2 (ReplicaAddr (RaftStateAdapter quiet_env))) (start_router (two_replicas False)))
   = [''h2:5432'', ''h3:5432'']"
proof -
  let ?l = "map (to_NodeState RoleReplica) [ex_replica ''h2'', ex_replica ''h3'']"
  have "GetReplicas sorted_list_of_fset (two_replicas False) = [ex_replica ''h2'', ex_replica ''h3'']"
    by code_simp
  then have "adapter_still quiet_env ?l (start_router (two_replicas False))"
    by (simp add: adapter_still_def quiet_env_def start_router_def) (simp add: two_replicas_def IsSplitBrain_def)
  moreover have "length ?l = 2" and "unat (rrIndex (start_router (two_replicas False))) = 0"
    by (simp_all add: start_router_def)
  ultimately
  have "fst (run_state (repeat_act 2 (ReplicaAddr (RaftStateAdapter quiet_env))) (start_router (two_replicas False)))
      = rotate 0 (map node_addr ?l)"
    using round_robin_fair [of quiet_env ?l "start_router (two_replicas False)"] by (simp del: repeat_act.simps flip: numeral_2_eq_2)
  moreover have "map node_addr ?l = [''h2:5432'', ''h3:5432'']" by code_simp
  ultimately show ?thesis by simp
qed

end
