(* ===== verification/Proxy.thy ===== *)
theory Proxy
  imports PoolManager Router
begin

text \<open>
  The TCP proxy (\<open>proxy/proxy.go\<close>) and its connection tracker (\<open>proxy/connection.go\<close>). A client
  connection is served by a goroutine of its own; \<open>handle_begin\<close> is its part up to the start of
  the copying, \<open>handle_end\<close> the part after it, and \<open>proxy_step\<close> interleaves the goroutines of all
  clients. Where a client is routed is the router's answer, the outcome of connecting to the
  backend (the connection and its remote address) is an argument, and what is done to connections is logged as effects. Copying
  is the theory \<open>Pipe\<close>, the listeners and the shutdown are in \<open>Loops\<close>.
\<close>

section \<open>Connection tracker\<close>

record trackedConn =
  tc_id :: "64 word"
  tc_client :: nat
  tc_backend :: conn
  tc_backendAddr :: string

record ConnectionTracker =
  ct_conns :: "(64 word, trackedConn) fmap"
  ct_nextID :: "64 word"

definition NewConnectionTracker :: ConnectionTracker where
  "NewConnectionTracker = \<lparr>ct_conns = fmempty, ct_nextID = 0\<rparr>"

definition Tracker_Add :: "nat \<Rightarrow> conn \<Rightarrow> string \<Rightarrow> ConnectionTracker \<Rightarrow> 64 word \<times> ConnectionTracker" where
  "Tracker_Add client backend addr ct =
     (let i = ct_nextID ct + 1
      in (i, \<lparr>ct_conns = fmupd i \<lparr>tc_id = i, tc_client = client, tc_backend = backend, tc_backendAddr = addr\<rparr> (ct_conns ct),
              ct_nextID = i\<rparr>))"

definition Tracker_Remove :: "64 word \<Rightarrow> ConnectionTracker \<Rightarrow> ConnectionTracker" where
  "Tracker_Remove i ct = ct\<lparr>ct_conns := fmdrop i (ct_conns ct)\<rparr>"

definition Count :: "ConnectionTracker \<Rightarrow> nat" where
  "Count ct = maplen (ct_conns ct)"

definition tracked :: "64 word ranger \<Rightarrow> ConnectionTracker \<Rightarrow> trackedConn list" where
  "tracked r ct = List.map_filter (fmlookup (ct_conns ct)) (r (fmdom (ct_conns ct)))"

definition ConnectionsByBackend :: "64 word ranger \<Rightarrow> ConnectionTracker \<Rightarrow> (string, nat) fmap" where
  "ConnectionsByBackend r ct =
     fold (\<lambda>c m. fmupd (tc_backendAddr c) (case fmlookup m (tc_backendAddr c) of None \<Rightarrow> 1 | Some n \<Rightarrow> Suc n) m)
       (tracked r ct) fmempty"

datatype effect = CloseClient nat | CloseBackend conn | Dialed string conn | Acquired string conn | Discarded string conn

definition forceCloseAll :: "64 word ranger \<Rightarrow> ConnectionTracker \<Rightarrow> effect list" where
  "forceCloseAll r ct = concat (map (\<lambda>c. [CloseClient (tc_client c), CloseBackend (tc_backend c)]) (tracked r ct))"

text \<open>
  The loop of DrainAll: event \<open>i\<close> is the deadline or a tick and finds the tracker as the other
  goroutines have left it by then. The result is \<open>None\<close> while the loop runs, and otherwise the
  event at which it returned and the connections it closed by force.
\<close>

fun drain_loop :: "(nat \<Rightarrow> bool \<times> ConnectionTracker) \<Rightarrow> 64 word ranger \<Rightarrow> nat \<Rightarrow> nat \<Rightarrow> (nat \<times> effect list) option" where
  "drain_loop ev r 0 i = None"
| "drain_loop ev r (Suc fuel) i =
     (case ev i of (deadline, ct) \<Rightarrow>
        if deadline then Some (i, if Count ct > 0 then forceCloseAll r ct else [])
        else if Count ct = 0 then Some (i, [])
        else drain_loop ev r fuel (Suc i))"

definition drain_cancels :: "64 word ranger \<Rightarrow> ConnectionTracker \<Rightarrow> 64 word list" where
  "drain_cancels r ct = map tc_id (tracked r ct)"

definition Tracker_DrainAll ::
    "64 word ranger \<Rightarrow> ConnectionTracker \<Rightarrow> (nat \<Rightarrow> bool \<times> ConnectionTracker) \<Rightarrow> nat \<Rightarrow> 64 word list \<times> (nat \<times> effect list) option" where
  "Tracker_DrainAll r ct ev fuel = (drain_cancels r ct, drain_loop ev r fuel 0)"

section \<open>Serving a client\<close>

datatype handler = Serving (h_id: "64 word") (h_client: nat) (h_backend: conn) (h_addr: string) (h_pooled: bool)

definition handle_begin ::
    "string \<Rightarrow> bool \<Rightarrow> (conn \<times> string) option \<Rightarrow> nat \<Rightarrow> ConnectionTracker \<Rightarrow> handler option \<times> effect list \<times> ConnectionTracker" where
  "handle_begin addr usePool dialed client ct =
     (if addr = '''' then (None, [CloseClient client], ct)
      else case dialed of
          None \<Rightarrow> (None, [CloseClient client], ct)
        | Some (c, remote) \<Rightarrow> (case Tracker_Add client c remote ct of
            (i, ct') \<Rightarrow> (Some (Serving i client c addr usePool),
              [if usePool then Acquired addr c else Dialed addr c], ct')))"

definition handle_end :: "handler \<Rightarrow> ConnectionTracker \<Rightarrow> effect list \<times> ConnectionTracker" where
  "handle_end h ct =
     ([CloseClient (h_client h), if h_pooled h then Discarded (h_addr h) (h_backend h) else CloseBackend (h_backend h)],
      Tracker_Remove (h_id h) ct)"

definition serve_on ::
    "('w, string) state \<Rightarrow> bool \<Rightarrow> (conn \<times> string) option \<Rightarrow> nat \<Rightarrow> ConnectionTracker \<Rightarrow>
     ('w, handler option \<times> effect list \<times> ConnectionTracker) state" where
  "serve_on addrFn usePool dialed client ct = do {
     addr \<leftarrow> addrFn;
     return (handle_begin addr usePool dialed client ct) }"

text \<open>The two listeners differ in the router's function they ask.\<close>

definition serve_primary where "serve_primary src = serve_on (PrimaryAddr src)"

definition serve_replica where "serve_replica src = serve_on (ReplicaAddr src)"

section \<open>Interleaving\<close>

record proxy_sys =
  px_tracker :: ConnectionTracker
  px_active :: "handler multiset"
  px_log :: "effect list"
  px_accepted :: nat

definition proxy_start :: proxy_sys where
  "proxy_start = \<lparr>px_tracker = NewConnectionTracker, px_active = {#}, px_log = [], px_accepted = 0\<rparr>"

text \<open>
  Obtaining a backend and adding it to the tracker are one step, and so are giving it back and its
  removal. The closing by force at the end of a drain is not a step: it closes connections whose
  goroutines are still about to close or discard them, which is a second Close of the same connection
  and gives nothing back a second time; it is part of \<open>drain_loop\<close> only.
\<close>

inductive proxy_step :: "proxy_sys \<Rightarrow> proxy_sys \<Rightarrow> bool" where
  accept: "handle_begin addr usePool dialed (px_accepted s) (px_tracker s) = (h, es, ct) \<Longrightarrow>
    proxy_step s (s\<lparr>px_tracker := ct, px_active := (case h of None \<Rightarrow> {#} | Some x \<Rightarrow> {#x#}) + px_active s,
      px_log := px_log s @ es, px_accepted := Suc (px_accepted s)\<rparr>)"
| finish: "px_active s = add_mset h A \<Longrightarrow> handle_end h (px_tracker s) = (es, ct) \<Longrightarrow>
    proxy_step s (s\<lparr>px_tracker := ct, px_active := A, px_log := px_log s @ es\<rparr>)"

inductive proxy_reached :: "proxy_sys \<Rightarrow> bool" where
  start: "proxy_reached proxy_start"
| step: "proxy_reached s \<Longrightarrow> proxy_step s s' \<Longrightarrow> proxy_reached s'"

section \<open>Every connection is given back\<close>

definition obtained :: "effect list \<Rightarrow> conn multiset" where
  "obtained es = mset (List.map_filter (\<lambda>e. case e of Dialed a c \<Rightarrow> Some c | Acquired a c \<Rightarrow> Some c | _ \<Rightarrow> None) es)"

definition given_back :: "effect list \<Rightarrow> conn multiset" where
  "given_back es = mset (List.map_filter (\<lambda>e. case e of CloseBackend c \<Rightarrow> Some c | Discarded a c \<Rightarrow> Some c | _ \<Rightarrow> None) es)"

lemma effects_append [simp]:
  "obtained (es @ fs) = obtained es + obtained fs" "given_back (es @ fs) = given_back es + given_back fs"
  by (simp_all add: obtained_def given_back_def List.map_filter_def)

lemma effects_simps [simp]:
  "obtained [] = {#}" "given_back [] = {#}"
  "obtained (e # es) = (case e of Dialed a c \<Rightarrow> {#c#} | Acquired a c \<Rightarrow> {#c#} | _ \<Rightarrow> {#}) + obtained es"
  "given_back (e # es) = (case e of CloseBackend c \<Rightarrow> {#c#} | Discarded a c \<Rightarrow> {#c#} | _ \<Rightarrow> {#}) + given_back es"
  by (simp_all add: obtained_def given_back_def List.map_filter_simps split: effect.splits)

definition tracks :: "ConnectionTracker \<Rightarrow> handler multiset \<Rightarrow> bool" where
  "tracks ct A \<longleftrightarrow> image_mset h_id A = mset_set (fset (fmdom (ct_conns ct))) \<and>
     (\<forall>h. h \<in># A \<longrightarrow> (\<exists>remote. fmlookup (ct_conns ct) (h_id h) =
        Some \<lparr>tc_id = h_id h, tc_client = h_client h, tc_backend = h_backend h, tc_backendAddr = remote\<rparr>))"

definition proxy_inv :: "proxy_sys \<Rightarrow> bool" where
  "proxy_inv s \<longleftrightarrow> obtained (px_log s) = given_back (px_log s) + image_mset h_backend (px_active s) \<and>
     (px_accepted s < 2 ^ 64 \<longrightarrow> tracks (px_tracker s) (px_active s) \<and> unat (ct_nextID (px_tracker s)) \<le> px_accepted s \<and>
       (\<forall>i. i |\<in>| fmdom (ct_conns (px_tracker s)) \<longrightarrow> i \<le> ct_nextID (px_tracker s)))"

lemma unat_Suc:
  fixes w :: "64 word"
  assumes "unat w \<le> n" "Suc n < 2 ^ 64"
  shows "unat (w + 1) = Suc (unat w)"
  using assms by (simp add: unat_word_ariths)

lemma proxy_step_inv:
  assumes "proxy_step s s'" and inv: "proxy_inv s"
  shows "proxy_inv s'"
  using assms(1)
proof cases
  case (accept addr usePool dialed h es ct)
  show ?thesis
  proof (cases "addr = '''' \<or> dialed = None")
    case True
    then have "h = None" "es = [CloseClient (px_accepted s)]" "ct = px_tracker s"
      using accept by (auto simp: handle_begin_def split: if_splits)
    with accept inv show ?thesis by (auto simp: proxy_inv_def)
  next
    case False
    then obtain c remote where c: "dialed = Some (c, remote)" "addr \<noteq> ''''" by auto
    let ?i = "ct_nextID (px_tracker s) + 1" and ?m = "ct_conns (px_tracker s)"
    define e where "e = \<lparr>tc_id = ?i, tc_client = px_accepted s, tc_backend = c, tc_backendAddr = remote\<rparr>"
    have eq: "h = Some (Serving ?i (px_accepted s) c addr usePool)" "ct = \<lparr>ct_conns = fmupd ?i e ?m, ct_nextID = ?i\<rparr>"
      "es = [if usePool then Acquired addr c else Dialed addr c]"
      using accept c by (auto simp: handle_begin_def Tracker_Add_def Let_def e_def)
    have "tracks ct (add_mset (Serving ?i (px_accepted s) c addr usePool) (px_active s)) \<and>
        unat ?i \<le> Suc (px_accepted s) \<and> (\<forall>i. i |\<in>| fmdom (fmupd ?i e ?m) \<longrightarrow> i \<le> ?i)"
      if n: "Suc (px_accepted s) < 2 ^ 64"
    proof -
      have t: "tracks (px_tracker s) (px_active s)" "unat (ct_nextID (px_tracker s)) \<le> px_accepted s"
        "\<And>i. i |\<in>| fmdom ?m \<Longrightarrow> i \<le> ct_nextID (px_tracker s)"
        using inv n by (auto simp: proxy_inv_def)
      have u: "unat ?i = Suc (unat (ct_nextID (px_tracker s)))" by (rule unat_Suc [OF t(2) n])
      have le: "i \<le> ?i \<and> i \<noteq> ?i" if "i |\<in>| fmdom ?m" for i
        using t(3) [OF that] u by (auto simp: word_le_nat_alt)
      then have new: "?i |\<notin>| fmdom ?m" by blast
      have other: "h_id x \<noteq> ?i" if "x \<in># px_active s" for x
        using t(1) that fmdom_notD [OF new] by (force simp: tracks_def)
      show ?thesis
        using t(1,2) u le new by (simp add: tracks_def eq e_def) (metis other)
    qed
    then show ?thesis
      using inv by (auto simp: proxy_inv_def accept(1) eq)
  qed
next
  case (finish h A es ct)
  then have eq: "ct = Tracker_Remove (h_id h) (px_tracker s)"
    "es = [CloseClient (h_client h), if h_pooled h then Discarded (h_addr h) (h_backend h) else CloseBackend (h_backend h)]"
    by (simp_all add: handle_end_def)
  have "tracks ct A" if "tracks (px_tracker s) (add_mset h A)"
  proof -
    let ?D = "fset (fmdom (ct_conns (px_tracker s)))"
    have m: "add_mset (h_id h) (image_mset h_id A) = mset_set ?D" using that by (simp add: tracks_def)
    have "h_id h \<in># mset_set ?D" unfolding m [symmetric] by simp
    then have "mset_set ?D = add_mset (h_id h) (mset_set (?D - {h_id h}))" by (simp add: mset_set.remove)
    with m have A: "image_mset h_id A = mset_set (?D - {h_id h})" by simp
    have other: "h_id x \<noteq> h_id h" if "x \<in># A" for x
    proof -
      have "h_id x \<in># mset_set (?D - {h_id h})" unfolding A [symmetric] using that by simp
      then show ?thesis by simp
    qed
    show ?thesis using that A other by (simp add: tracks_def eq Tracker_Remove_def)
  qed
  then show ?thesis
    using inv finish by (auto simp: proxy_inv_def eq Tracker_Remove_def)
qed

lemma proxy_reached_inv: "proxy_reached s \<Longrightarrow> proxy_inv s"
proof (induction rule: proxy_reached.induct)
  case start
  then show ?case by (simp add: proxy_inv_def proxy_start_def NewConnectionTracker_def tracks_def)
qed (rule proxy_step_inv)

text \<open>
  (C22) However the clients come and go, every backend connection that was dialed or acquired
  is given back exactly once, when its client is done, and the tracker knows exactly the
  clients being served (as long as fewer than 2 to the 64 clients were accepted, after which
  the identifiers repeat).
\<close>

theorem proxy_balanced:
  assumes "proxy_reached s"
  shows "obtained (px_log s) = given_back (px_log s) + image_mset h_backend (px_active s) \<and>
    (px_accepted s < 2 ^ 64 \<longrightarrow> Count (px_tracker s) = size (px_active s) \<and>
       image_mset h_id (px_active s) = mset_set (fset (fmdom (ct_conns (px_tracker s)))))"
proof -
  have "Count (px_tracker s) = size (px_active s)"
    if "image_mset h_id (px_active s) = mset_set (fset (fmdom (ct_conns (px_tracker s))))"
    using arg_cong [OF that, of size] by (simp add: Count_def maplen_def fcard.rep_eq)
  then show ?thesis using proxy_reached_inv [OF assms] by (auto simp: proxy_inv_def tracks_def)
qed

section \<open>Draining\<close>

lemma drain_loop_returns:
  "j < i + fuel \<Longrightarrow> i \<le> j \<Longrightarrow> fst (ev j) \<Longrightarrow> \<exists>k es. drain_loop ev r fuel i = Some (k, es) \<and> k \<le> j \<and>
     (es = [] \<and> Count (snd (ev k)) = 0 \<or> fst (ev k) \<and> es = forceCloseAll r (snd (ev k)))"
proof (induction fuel arbitrary: i)
  case (Suc fuel)
  obtain d ct where ev: "ev i = (d, ct)" by fastforce
  show ?case
  proof (cases "d \<or> Count ct = 0")
    case False
    with ev Suc.prems have "i \<noteq> j" by auto
    with Suc.prems False ev Suc.IH [of "Suc i"] show ?thesis by auto
  qed (use ev Suc.prems in auto)
qed simp

text \<open>
  Draining returns no later than its deadline, and then no connection is tracked any
  more, or both ends of every tracked connection have been closed.
\<close>

theorem drain_returns:
  assumes "fst (ev j)" and "j < fuel" and "is_ranger r"
  shows "\<exists>k es. Tracker_DrainAll r ct ev fuel = (drain_cancels r ct, Some (k, es)) \<and> k \<le> j \<and>
    (Count (snd (ev k)) = 0 \<or>
      (\<forall>c. c \<in> fmran' (ct_conns (snd (ev k))) \<longrightarrow> CloseClient (tc_client c) \<in> set es \<and> CloseBackend (tc_backend c) \<in> set es))"
proof -
  obtain k es where k: "drain_loop ev r fuel 0 = Some (k, es)" "k \<le> j"
    "es = [] \<and> Count (snd (ev k)) = 0 \<or> fst (ev k) \<and> es = forceCloseAll r (snd (ev k))"
    using drain_loop_returns [of j 0 fuel ev r] assms by auto
  have "c \<in> set (tracked r t)" if "c \<in> fmran' (ct_conns t)" for c t
    using that ranger_set [OF assms(3)] by (force simp: tracked_def List.map_filter_def fmlookup_ran'_iff intro: fmdomI)
  then have "CloseClient (tc_client c) \<in> set (forceCloseAll r t) \<and> CloseBackend (tc_backend c) \<in> set (forceCloseAll r t)"
    if "c \<in> fmran' (ct_conns t)" for c t
    using that by (force simp: forceCloseAll_def)
  with k show ?thesis by (auto simp: Tracker_DrainAll_def)
qed

section \<open>Concrete runs\<close>

definition one_client :: ConnectionTracker where
  "one_client = snd (Tracker_Add 0 7 ''h2:5432'' NewConnectionTracker)"

lemma one_client_served:
  "proxy_reached (proxy_start\<lparr>px_tracker := one_client, px_active := {#Serving 1 0 7 ''h2:5432'' True#},
     px_log := [Acquired ''h2:5432'' 7], px_accepted := 1\<rparr>)"
proof -
  have "handle_begin ''h2:5432'' True (Some (7, ''h2:5432'')) 0 NewConnectionTracker
      = (Some (Serving 1 0 7 ''h2:5432'' True), [Acquired ''h2:5432'' 7], one_client)"
    by (simp add: handle_begin_def Tracker_Add_def one_client_def NewConnectionTracker_def Let_def)
  then have "proxy_step proxy_start (proxy_start\<lparr>px_tracker := one_client,
      px_active := (case Some (Serving 1 0 7 ''h2:5432'' True) of None \<Rightarrow> {#} | Some x \<Rightarrow> {#x#}) + px_active proxy_start,
      px_log := px_log proxy_start @ [Acquired ''h2:5432'' 7], px_accepted := Suc (px_accepted proxy_start)\<rparr>)"
    by (intro proxy_step.accept) (simp add: proxy_start_def)
  from proxy_reached.step [OF proxy_reached.start this] show ?thesis by (simp add: proxy_start_def)
qed

theorem proxy_balanced_witness: "Count one_client = 1"
  using proxy_balanced [OF one_client_served] by simp

theorem drain_returns_witness:
  "\<exists>k es. Tracker_DrainAll sorted_list_of_fset one_client (\<lambda>i. (i = 3, one_client)) 5
     = (drain_cancels sorted_list_of_fset one_client, Some (k, es)) \<and> k \<le> 3"
  using drain_returns [of "\<lambda>i. (i = 3, one_client)" 3 5 sorted_list_of_fset one_client] ranger_sorted by auto

end
