(* ===== verification/PgConfig.thy ===== *)
theory PgConfig
  imports FsmProps
begin

text \<open>
  Applying the cluster-wide PostgreSQL parameters to the local server
  (\<open>cluster/pgconfig.go\<close>). The connection is a parameter: \<open>query\<close> sends a statement on a
  connection and gives the error, if any, and the connection's next state; \<open>settings\<close> is the
  answer to the query on \<open>pg_settings\<close>. What was sent, and with which result, is returned as a
  log.
\<close>

section \<open>State\<close>

abbreviation ContextPostmaster :: string where "ContextPostmaster \<equiv> ''postmaster''"

record ParameterInfo =
  pi_Name :: string
  pi_Setting :: string
  pi_Unit :: string
  pi_Context :: string
  pi_PendingRestart :: bool

record ConfigApplier =
  ca_has_store :: bool
  lastAppliedVersion :: int
  pendingRestart :: bool
  pendingRestartParams :: "string list"

definition NewConfigApplier :: "bool \<Rightarrow> ConfigApplier" where
  "NewConfigApplier has_store =
     \<lparr>ca_has_store = has_store, lastAppliedVersion = 0, pendingRestart = False, pendingRestartParams = []\<rparr>"

definition ClearPendingRestart :: "ConfigApplier \<Rightarrow> ConfigApplier" where
  "ClearPendingRestart a = a\<lparr>pendingRestart := False, pendingRestartParams := []\<rparr>"

type_synonym sql_log = "(string \<times> string option) list"
type_synonym 'c query = "string \<Rightarrow> 'c \<Rightarrow> string option \<times> 'c"

text \<open>A row of \<open>pg_settings\<close> that could be scanned; the unit may be NULL.\<close>

type_synonym settings_row = "string \<times> string \<times> string option \<times> string \<times> bool"

section \<open>Statements\<close>

definition is_param_char :: "char \<Rightarrow> bool" where
  "is_param_char c \<longleftrightarrow> (CHR ''a'' \<le> c \<and> c \<le> CHR ''z'') \<or> (CHR ''0'' \<le> c \<and> c \<le> CHR ''9'') \<or> c = CHR ''_''"

definition isValidParameterName :: "string \<Rightarrow> bool" where
  "isValidParameterName name \<longleftrightarrow> \<not> (length name = 0 \<or> length name > 64) \<and> list_all is_param_char name"

abbreviation quote :: char where "quote \<equiv> CHR 0x27"

fun escape_quotes :: "string \<Rightarrow> string" where
  "escape_quotes [] = []"
| "escape_quotes (c # s) = (if c = quote then [quote, quote] else [c]) @ escape_quotes s"

definition quoteParameterValue :: "string \<Rightarrow> string" where
  "quoteParameterValue val = [quote] @ escape_quotes val @ [quote]"

definition alter_system_set :: "string \<Rightarrow> string \<Rightarrow> string" where
  "alter_system_set name val = ''ALTER SYSTEM SET '' @ name @ '' = '' @ quoteParameterValue val"

definition reload_sql :: string where "reload_sql = ''SELECT pg_reload_conf()''"

section \<open>Operations\<close>

definition applyParameter :: "'c query \<Rightarrow> string \<Rightarrow> string \<Rightarrow> 'c \<Rightarrow> string option \<times> sql_log \<times> 'c" where
  "applyParameter query name val c =
     (if \<not> isValidParameterName name then (Some (''invalid parameter name: '' @ name), [], c)
      else let sql = alter_system_set name val
        in case query sql c of
             (Some e, c') \<Rightarrow> (Some (''ALTER SYSTEM SET '' @ name @ '': '' @ e), [(sql, Some e)], c')
           | (None, c') \<Rightarrow> (None, [(sql, None)], c'))"

definition reloadConfig :: "'c query \<Rightarrow> 'c \<Rightarrow> string option \<times> sql_log \<times> 'c" where
  "reloadConfig query c = (case query reload_sql c of (e, c') \<Rightarrow> (e, [(reload_sql, e)], c'))"

definition to_info :: "settings_row \<Rightarrow> ParameterInfo" where
  "to_info row = (case row of (n, s, u, ctx, pr) \<Rightarrow>
     \<lparr>pi_Name = n, pi_Setting = s, pi_Unit = (case u of None \<Rightarrow> '''' | Some x \<Rightarrow> x), pi_Context = ctx, pi_PendingRestart = pr\<rparr>)"

fun collect_rows :: "settings_row option list \<Rightarrow> (string, ParameterInfo) fmap \<Rightarrow> (string, ParameterInfo) fmap" where
  "collect_rows [] m = m"
| "collect_rows (None # rows) m = collect_rows rows m"
| "collect_rows (Some row # rows) m = collect_rows rows (fmupd (pi_Name (to_info row)) (to_info row) m)"

text \<open>The answer is the rows and the error found at their end, or the error of the query.\<close>

definition getParameterContexts ::
    "string + settings_row option list \<times> string option \<Rightarrow> (string, ParameterInfo) fmap option \<times> string option" where
  "getParameterContexts settings =
     (case settings of Inl e \<Rightarrow> (None, Some e) | Inr (rows, e) \<Rightarrow> (Some (collect_rows rows fmempty), e))"

fun apply_loop ::
    "'c query \<Rightarrow> (string, ParameterInfo) fmap option \<Rightarrow> (string, string) fmap \<Rightarrow> string list \<Rightarrow> 'c \<Rightarrow> string list \<times> sql_log \<times> 'c" where
  "apply_loop query ctxs params [] c = ([], [], c)"
| "apply_loop query ctxs params (name # names) c =
     (case fmlookup params name of
        None \<Rightarrow> apply_loop query ctxs params names c
      | Some val \<Rightarrow> (case applyParameter query name val c of
          (err, log, c') \<Rightarrow> (case apply_loop query ctxs params names c' of
            (restart, log', c'') \<Rightarrow>
              ((if err = None \<and> (case Option.bind ctxs (\<lambda>m. fmlookup m name) of
                    None \<Rightarrow> False | Some info \<Rightarrow> pi_Context info = ContextPostmaster)
                then [name] else []) @ restart, log @ log', c''))))"

definition ApplyConfig ::
    "string ranger \<Rightarrow> (string + 'c) \<Rightarrow> (string + settings_row option list \<times> string option) \<Rightarrow> 'c query \<Rightarrow>
     PostgreSQLConfig \<Rightarrow> ConfigApplier \<Rightarrow> string option \<times> sql_log \<times> ConfigApplier" where
  "ApplyConfig r connect settings query cfg a =
     (if \<not> ca_has_store a then (None, [], a)
      else if pc_Version cfg \<le> lastAppliedVersion a then (None, [], a)
      else if map_is_empty (pc_Parameters cfg) then (None, [], a\<lparr>lastAppliedVersion := pc_Version cfg\<rparr>)
      else case connect of
          Inl e \<Rightarrow> (Some (''connecting to PostgreSQL: '' @ e), [], a)
        | Inr c \<Rightarrow>
            (let params = (case pc_Parameters cfg of None \<Rightarrow> fmempty | Some m \<Rightarrow> m);
                 ctxs = fst (getParameterContexts settings);
                 (restart, log, c1) = apply_loop query ctxs params (range_keys r (pc_Parameters cfg)) c;
                 (e, log', c2) = reloadConfig query c1;
                 a1 = a\<lparr>lastAppliedVersion := pc_Version cfg\<rparr>
             in (None, log @ log',
                 if restart \<noteq> [] then a1\<lparr>pendingRestart := True, pendingRestartParams := restart\<rparr> else a1)))"

fun settings_loop :: "(string \<Rightarrow> settings_row option) \<Rightarrow> string list \<Rightarrow> (string, ParameterInfo) fmap \<Rightarrow> (string, ParameterInfo) fmap" where
  "settings_loop row [] m = m"
| "settings_loop row (name # names) m =
     (if \<not> isValidParameterName name then settings_loop row names m
      else case row name of
          None \<Rightarrow> settings_loop row names m
        | Some x \<Rightarrow> settings_loop row names (fmupd (pi_Name (to_info x)) (to_info x) m))"

definition GetCurrentSettings ::
    "string option \<Rightarrow> (string + settings_row option list \<times> string option) \<Rightarrow> (string \<Rightarrow> settings_row option) \<Rightarrow> string list \<Rightarrow>
     (string, ParameterInfo) fmap option \<times> string option" where
  "GetCurrentSettings connect_err settings row names =
     (case connect_err of
        Some e \<Rightarrow> (None, Some (''connecting to PostgreSQL: '' @ e))
      | None \<Rightarrow> if names = [] then getParameterContexts settings else (Some (settings_loop row names fmempty), None))"

text \<open>\<open>exists\<close> is the scanned answer for a name, \<open>None\<close> when the query fails.\<close>

definition ValidateParameters ::
    "string ranger \<Rightarrow> string option \<Rightarrow> (string \<Rightarrow> bool option) \<Rightarrow> string gomap \<Rightarrow> string + string list" where
  "ValidateParameters r connect_err exists params =
     (case connect_err of
        Some e \<Rightarrow> Inl (''connecting to PostgreSQL: '' @ e)
      | None \<Rightarrow> Inr (sort (filter (\<lambda>n. \<not> isValidParameterName n \<or> exists n \<noteq> Some True) (range_keys r params))))"

definition ResetParameter :: "(string + 'c) \<Rightarrow> 'c query \<Rightarrow> string \<Rightarrow> string option \<times> sql_log" where
  "ResetParameter connect query name =
     (if \<not> isValidParameterName name then (Some (''invalid parameter name: '' @ name), [])
      else case connect of
          Inl e \<Rightarrow> (Some (''connecting to PostgreSQL: '' @ e), [])
        | Inr c \<Rightarrow>
            (let sql = ''ALTER SYSTEM RESET '' @ name
             in case query sql c of
                  (Some e, c') \<Rightarrow> (Some (sql @ '': '' @ e), [(sql, Some e)])
                | (None, c') \<Rightarrow> (case reloadConfig query c' of (e, log, _) \<Rightarrow> (e, (sql, None) # log))))"

section \<open>Quoting\<close>

text \<open>The SQL lexer on a string literal, after the opening quote: the value and what follows
  the closing quote. A doubled quote stands for one, and a backslash for itself, as it does with
  \<open>standard_conforming_strings\<close> on (PostgreSQL's default since 9.1).\<close>

fun read_literal :: "string \<Rightarrow> (string \<times> string) option" where
  "read_literal [] = None"
| "read_literal [c] = (if c = quote then Some ([], []) else None)"
| "read_literal (c # d # s) =
     (if c = quote then (if d = quote then map_option (apfst ((#) quote)) (read_literal s) else Some ([], d # s))
      else map_option (apfst ((#) c)) (read_literal (d # s)))"

lemma read_literal_other: "c \<noteq> quote \<Longrightarrow> read_literal (c # s) = map_option (apfst ((#) c)) (read_literal s)"
  by (cases s) auto

lemma read_escape: "rest = [] \<or> hd rest \<noteq> quote \<Longrightarrow> read_literal (escape_quotes v @ quote # rest) = Some (v, rest)"
proof (induction v)
  case Nil
  then show ?case by (cases rest) auto
next
  case (Cons c v)
  show ?case
  proof (cases "c = quote")
    case True
    then show ?thesis using Cons by simp
  next
    case False
    then show ?thesis using Cons by (simp add: read_literal_other)
  qed
qed

text \<open>
  (C24) No injection through a parameter: a statement is sent only for a name of lower-case
  letters, digits and underscores, and after the equals sign it is one string literal that
  the SQL lexer reads back as the parameter's value, with nothing behind it.
\<close>

theorem alter_system_safe:
  assumes "applyParameter query name val c = (err, log, c')" and "sql \<in> fst ` set log"
  shows "list_all is_param_char name \<and> name \<noteq> '''' \<and>
    (\<exists>lit. sql = ''ALTER SYSTEM SET '' @ name @ '' = '' @ [quote] @ lit \<and> read_literal lit = Some (val, ''''))"
proof -
  have "isValidParameterName name" "sql = alter_system_set name val"
    using assms by (auto simp: applyParameter_def Let_def split: if_splits prod.splits option.splits)
  then show ?thesis
    using read_escape [of "[]" val]
    by (auto simp: alter_system_set_def quoteParameterValue_def isValidParameterName_def)
qed

section \<open>Applying\<close>

lemma apply_loop_log:
  "apply_loop query ctxs params names c = (restart, log, c') \<Longrightarrow>
     map fst log = map (\<lambda>n. alter_system_set n (the (fmlookup params n)))
       (filter (\<lambda>n. isValidParameterName n \<and> fmlookup params n \<noteq> None) names)"
  by (induction names arbitrary: c restart log)
    (auto simp: applyParameter_def Let_def split: option.splits prod.splits if_splits)

text \<open>
  A version is applied once: unless the connection fails, the version is recorded as
  applied whatever the server answered to the single statements, and the next run with the
  same version sends nothing, so a parameter the server refused is not tried again.
\<close>

theorem apply_config_once:
  assumes "ApplyConfig r connect settings query cfg a = (None, log, a')"
  shows "case ApplyConfig r' connect' settings' query' cfg a' of (err, log', a'') \<Rightarrow> err = None \<and> log' = [] \<and> a'' = a'"
  using assms by (auto simp: ApplyConfig_def Let_def split: if_splits sum.splits prod.splits)

text \<open>
  With parameters to apply and a connection, exactly one statement is sent per parameter
  with a valid name, whatever the server answers, then the reload.
\<close>

theorem apply_config_sends:
  assumes "is_ranger r" and "ca_has_store a" "lastAppliedVersion a < pc_Version cfg" "pc_Parameters cfg = Some params"
    and "params \<noteq> fmempty" and "ApplyConfig r (Inr c) settings query cfg a = (err, log, a')"
  shows "err = None \<and> lastAppliedVersion a' = pc_Version cfg \<and>
    map fst log = map (\<lambda>n. alter_system_set n (the (fmlookup params n))) (filter isValidParameterName (r (fmdom params))) @ [reload_sql]"
proof -
  have "\<not> map_is_empty (pc_Parameters cfg)"
    using assms(4,5) by (auto simp: map_is_empty_iff intro: fmap_ext)
  moreover obtain restart l1 c1 where l: "apply_loop query (fst (getParameterContexts settings)) params (r (fmdom params)) c = (restart, l1, c1)"
    using prod_cases3 by blast
  moreover have "filter (\<lambda>n. isValidParameterName n \<and> fmlookup params n \<noteq> None) (r (fmdom params)) = filter isValidParameterName (r (fmdom params))"
    by (intro filter_cong refl) (auto simp: ranger_set [OF assms(1)] fmlookup_dom_iff)
  ultimately show ?thesis
    using assms apply_loop_log [OF l]
    by (auto simp: ApplyConfig_def range_keys_def reloadConfig_def Let_def split: prod.splits)
qed

section \<open>A connection that stays busy\<close>

text \<open>
  The statements are sent with Query and the rows it returns are never closed. A pgx
  connection whose rows are open is busy and refuses the next query; \<open>busy\<close> and the first two
  assumptions say so.
\<close>

lemma applyParameter_cases:
  assumes "applyParameter query n v c = (err, log, c')"
  obtains "\<not> isValidParameterName n" "err \<noteq> None" "log = []" "c' = c"
    | e where "isValidParameterName n" "query (alter_system_set n v) c = (e, c')" "log = [(alter_system_set n v, e)]"
      "err = None \<longleftrightarrow> e = None"
  using assms by (cases "isValidParameterName n") (auto simp: applyParameter_def Let_def split: option.splits prod.splits)

definition answered :: "sql_log \<Rightarrow> sql_log" where
  "answered log = filter (\<lambda>(s, e). e = None) log"

lemma answered_simps [simp]:
  "answered [] = []" "answered (log @ log') = answered log @ answered log'" "answered [(s, None)] = [(s, None)]"
  "answered [(s, Some e)] = []"
  by (simp_all add: answered_def)

lemma busy_loop:
  assumes stays: "\<And>s c. busy c \<Longrightarrow> fst (query s c) \<noteq> None \<and> busy (snd (query s c))"
    and "busy c" "apply_loop query ctxs params names c = (restart, log, c')"
  shows "busy c' \<and> answered log = []"
  using assms(2,3)
proof (induction names arbitrary: c restart log)
  case (Cons n ns)
  show ?case
  proof (cases "fmlookup params n")
    case None
    with Cons show ?thesis by simp
  next
    case (Some v)
    obtain err l1 c1 where p: "applyParameter query n v c = (err, l1, c1)" using prod_cases3 by blast
    then have "busy c1 \<and> answered l1 = []"
      using stays [OF Cons.prems(1), of "alter_system_set n v"] Cons.prems(1) by (cases rule: applyParameter_cases) auto
    moreover obtain r2 l2 c2 where "apply_loop query ctxs params ns c1 = (r2, l2, c2)" using prod_cases3 by blast
    ultimately show ?thesis using Cons.IH [of c1 r2 l2] Cons.prems(2) Some p by auto
  qed
qed simp

lemma busy_after_first:
  assumes ok: "\<And>s c c'. query s c = (None, c') \<Longrightarrow> busy c'"
    and stays: "\<And>s c. busy c \<Longrightarrow> fst (query s c) \<noteq> None \<and> busy (snd (query s c))"
    and loop: "apply_loop query ctxs params names c = (restart, log, c')"
  shows "length (answered log) \<le> 1 \<and> (answered log = [] \<or> busy c')"
  using loop
proof (induction names arbitrary: c restart log)
  case (Cons n ns)
  show ?case
  proof (cases "fmlookup params n")
    case None
    with Cons show ?thesis by simp
  next
    case (Some v)
    obtain err l1 c1 where p: "applyParameter query n v c = (err, l1, c1)" using prod_cases3 by blast
    obtain r2 l2 c2 where l: "apply_loop query ctxs params ns c1 = (r2, l2, c2)" using prod_cases3 by blast
    have eq: "log = l1 @ l2" "c' = c2" using Cons.prems Some p l by auto
    have "length (answered l1) \<le> 1 \<and> (answered l1 = [] \<or> busy c1)"
      using p ok by (cases rule: applyParameter_cases) (auto simp: answered_def)
    moreover have "answered l2 = [] \<and> busy c2" if "busy c1" using busy_loop [OF stays that l] by simp
    ultimately show ?thesis using Cons.IH [of c1 r2 l2] l eq by auto
  qed
qed simp

text \<open>
  On a connection that refuses queries while rows are open, at most one of all the
  statements of a run is carried out, the final reload included, and yet the version is
  recorded as applied and no error is returned.
\<close>

theorem busy_connection_loses_parameters:
  assumes "\<And>s c c'. query s c = (None, c') \<Longrightarrow> busy c'"
    and "\<And>s c. busy c \<Longrightarrow> fst (query s c) \<noteq> None \<and> busy (snd (query s c))"
    and "ca_has_store a" "lastAppliedVersion a < pc_Version cfg" and "ApplyConfig r (Inr c) settings query cfg a = (err, log, a')"
  shows "err = None \<and> lastAppliedVersion a' = pc_Version cfg \<and> length (answered log) \<le> 1"
proof (cases "map_is_empty (pc_Parameters cfg)")
  case True
  with assms(3-5) show ?thesis by (auto simp: ApplyConfig_def)
next
  case False
  let ?params = "case pc_Parameters cfg of None \<Rightarrow> fmempty | Some m \<Rightarrow> m"
  obtain restart l1 c1 where l: "apply_loop query (fst (getParameterContexts settings)) ?params
      (range_keys r (pc_Parameters cfg)) c = (restart, l1, c1)" using prod_cases3 by blast
  obtain e c2 where q: "query reload_sql c1 = (e, c2)" by fastforce
  have log: "log = l1 @ [(reload_sql, e)]" "err = None" "lastAppliedVersion a' = pc_Version cfg"
    using assms(3-5) False l q by (auto simp: ApplyConfig_def reloadConfig_def Let_def)
  have b: "length (answered l1) \<le> 1 \<and> (answered l1 = [] \<or> busy c1)"
    by (rule busy_after_first [OF _ _ l]) (use assms(1,2) in blast)+
  have "answered l1 = [] \<or> e \<noteq> None" using b assms(2) [of c1 reload_sql] q by auto
  then show ?thesis using b log by (cases e) auto
qed

section \<open>Concrete runs\<close>

definition two_params :: PostgreSQLConfig where
  "two_params = zero_PostgreSQLConfig\<lparr>pc_Parameters := Some (fmap_of_list [(''work_mem'', ''64MB''), (''jit'', ''off'')]), pc_Version := 3\<rparr>"

definition pgx_query :: "bool query" where
  "pgx_query s busy = (if busy then Some ''conn busy'' else None, True)"

theorem alter_system_safe_witness:
  "\<exists>lit. ''ALTER SYSTEM SET jit = '' @ [quote] @ ''it'' @ [quote, quote] @ ''s'' @ [quote]
      = ''ALTER SYSTEM SET '' @ ''jit'' @ '' = '' @ [quote] @ lit \<and> read_literal lit = Some (''it'' @ [quote] @ ''s'', '''')"
proof -
  let ?v = "''it'' @ [quote] @ ''s''"
  have "applyParameter pgx_query ''jit'' ?v False = (None, [(alter_system_set ''jit'' ?v, None)], True)" by code_simp
  from alter_system_safe [OF this, of "alter_system_set ''jit'' ?v"] show ?thesis
    by (simp add: alter_system_set_def quoteParameterValue_def)
qed

definition apply_two :: "string option \<times> sql_log \<times> ConfigApplier" where
  "apply_two = ApplyConfig sorted_list_of_fset (Inr False) (Inr ([], None)) pgx_query two_params (NewConfigApplier True)"

lemma apply_two_runs: "fst apply_two = None" "ca_has_store (NewConfigApplier True)"
    "lastAppliedVersion (NewConfigApplier True) < pc_Version two_params"
  by code_simp+

lemma apply_two_eq: "ApplyConfig sorted_list_of_fset (Inr False) (Inr ([], None)) pgx_query two_params (NewConfigApplier True)
    = (None, fst (snd apply_two), snd (snd apply_two))"
  using apply_two_runs(1) by (simp add: apply_two_def prod_eq_iff)

theorem apply_config_once_witness:
  "fst (snd (ApplyConfig sorted_list_of_fset (Inr False) (Inr ([], None)) pgx_query two_params (snd (snd apply_two)))) = []"
  using apply_config_once [OF apply_two_eq, of sorted_list_of_fset "Inr False" "Inr ([], None)" pgx_query]
  by (auto split: prod.splits)

theorem apply_config_sends_witness:
  "length (fst (snd apply_two)) = 3"
proof -
  have "map fst (fst (snd apply_two)) = map (\<lambda>n. alter_system_set n (the (fmlookup (the (pc_Parameters two_params)) n)))
      (filter isValidParameterName (sorted_list_of_fset (fmdom (the (pc_Parameters two_params))))) @ [reload_sql]"
    using apply_config_sends [OF ranger_sorted apply_two_runs(2,3) _ _ apply_two_eq]
    by (simp add: two_params_def fmap_of_list_simps)
  moreover have "length (filter isValidParameterName (sorted_list_of_fset (fmdom (the (pc_Parameters two_params))))) = 2"
    by code_simp
  ultimately show ?thesis by (metis (no_types, lifting) One_nat_def Suc_1 length_append_singleton length_map numeral_3_eq_3)
qed

theorem busy_connection_loses_parameters_witness:
  "lastAppliedVersion (snd (snd apply_two)) = 3 \<and> length (answered (fst (snd apply_two))) \<le> 1"
  using busy_connection_loses_parameters [of pgx_query "\<lambda>b. b", OF _ _ apply_two_runs(2,3) apply_two_eq]
  by (simp add: pgx_query_def two_params_def)

end
