(* ===== verification/Progress.thy ===== *)
theory Progress
  imports Health
begin

text \<open>
  The progress of pg\_rewind (\<open>cluster/progress.go\<close>). The patterns of the code are written as
  matchers that list, in the order of preference of Go's regexp package, what they can match
  at the start of a text and what remains; a search takes the leftmost start and there the
  preferred match. The process runs beside the goroutine that reads its output, so
  a run is a sequence of events in any order: a line read, or the end of the process.
\<close>

section \<open>Regular expressions\<close>

type_synonym matcher = "string \<Rightarrow> (string \<times> string) list"

definition re_lit :: "string \<Rightarrow> matcher" where
  "re_lit p s = (if take (length p) s = p then [(p, drop (length p) s)] else [])"

fun re_many :: "(char \<Rightarrow> bool) \<Rightarrow> matcher" where
  "re_many P [] = [([], [])]"
| "re_many P (c # s) = (if P c then map (apfst ((#) c)) (re_many P s) else []) @ [([], c # s)]"

definition re_some :: "(char \<Rightarrow> bool) \<Rightarrow> matcher" where
  "re_some P s = filter (\<lambda>(m, _). m \<noteq> []) (re_many P s)"

definition re_alt :: "matcher list \<Rightarrow> matcher" where
  "re_alt ms s = concat (map (\<lambda>m. m s) ms)"

definition re_cat :: "matcher \<Rightarrow> matcher \<Rightarrow> matcher" where
  "re_cat m n s = concat (map (\<lambda>(a, r). map (apfst ((@) a)) (n r)) (m s))"

definition re_opt :: "matcher \<Rightarrow> matcher" where
  "re_opt m s = m s @ [([], s)]"

text \<open>A pattern is a sequence of matchers, some of which are captured.\<close>

fun match_here :: "(bool \<times> matcher) list \<Rightarrow> string \<Rightarrow> string list list" where
  "match_here [] s = [[]]"
| "match_here ((cap, m) # ms) s =
     concat (map (\<lambda>(a, r). map (\<lambda>cs. if cap then a # cs else cs) (match_here ms r)) (m s))"

fun find_submatch :: "(bool \<times> matcher) list \<Rightarrow> string \<Rightarrow> string list option" where
  "find_submatch ms [] = (case match_here ms [] of [] \<Rightarrow> None | cs # _ \<Rightarrow> Some cs)"
| "find_submatch ms (c # s) = (case match_here ms (c # s) of [] \<Rightarrow> find_submatch ms s | cs # _ \<Rightarrow> Some cs)"

definition is_space :: "char \<Rightarrow> bool" where
  "is_space c \<longleftrightarrow> c = CHR 0x09 \<or> c = CHR 0x0A \<or> c = CHR 0x0C \<or> c = CHR 0x0D \<or> c = CHR '' ''"

definition progressPattern :: "(bool \<times> matcher) list" where
  "progressPattern = [(True, re_some is_digit), (False, re_lit ''/''), (True, re_some is_digit), (False, re_many is_space),
     (True, re_alt [re_lit ''kB'', re_lit ''MB'', re_lit ''GB'', re_lit ''bytes'']), (False, re_many is_space),
     (False, re_lit ''(''), (True, re_some is_digit), (False, re_lit ''%)'')]"

definition copyPattern :: "(bool \<times> matcher) list" where
  "copyPattern = [(False, re_lit ''need to copy ''),
     (True, re_cat (re_some is_digit) (re_opt (re_cat (re_lit ''.'') (re_some is_digit)))), (False, re_many is_space),
     (True, re_alt [re_lit ''MB'', re_lit ''GB'', re_lit ''KB'', re_lit ''bytes''])]"

definition rewindingPattern :: "(bool \<times> matcher) list" where
  "rewindingPattern = [(False, re_lit ''rewinding from ''), (True, re_some (\<lambda>c. \<not> is_space c)), (False, re_lit '' to ''),
     (True, re_some (\<lambda>c. \<not> is_space c))]"

definition filePattern :: "(bool \<times> matcher) list" where
  "filePattern = [(False, re_lit (''copying '' @ [CHR 0x22])), (True, re_some (\<lambda>c. c \<noteq> CHR 0x22)), (False, re_lit [CHR 0x22])]"

definition done_line :: "string \<Rightarrow> bool" where
  "done_line line \<longleftrightarrow> take 5 line = ''Done!''"

section \<open>Numbers\<close>

text \<open>\<open>strconv.ParseInt\<close> and \<open>strconv.ParseFloat\<close> on the digits the patterns capture.\<close>

definition ParseInt :: "string \<Rightarrow> int option" where
  "ParseInt s = (let n = read_abs s in if in_int64 n then Some n else None)"

definition ParseFloat :: "string \<Rightarrow> rat option" where
  "ParseFloat s =
     (let ip = takeWhile is_digit s; fp = drop (Suc (length ip)) s;
          x = float64 (of_int (read_abs ip) + (if fp = [] then 0 else of_int (read_abs fp) / 10 ^ length fp))
      in if x \<ge> 2 ^ 1024 then None else Some x)"

definition parseBytes :: "int \<Rightarrow> string \<Rightarrow> int" where
  "parseBytes val unit =
     (if unit = ''GB'' then wrap64 (val * 1073741824)
      else if unit = ''MB'' then wrap64 (val * 1048576)
      else if unit = ''kB'' \<or> unit = ''KB'' then wrap64 (val * 1024)
      else val)"

section \<open>State and operations\<close>

datatype RewindPhase = RewindPhaseIdle | RewindPhaseConnecting | RewindPhaseFetching | RewindPhaseCopying
  | RewindPhaseComplete | RewindPhaseFailed

fun phase_string :: "RewindPhase \<Rightarrow> string" where
  "phase_string RewindPhaseIdle = ''idle''"
| "phase_string RewindPhaseConnecting = ''connecting''"
| "phase_string RewindPhaseFetching = ''fetching_files''"
| "phase_string RewindPhaseCopying = ''copying''"
| "phase_string RewindPhaseComplete = ''complete''"
| "phase_string RewindPhaseFailed = ''failed''"

record RewindProgress =
  rp_Phase :: RewindPhase
  rp_Percent :: rat
  rp_BytesTotal :: int
  rp_BytesCopied :: int
  rp_FilesTotal :: int
  rp_FilesCopied :: int
  rp_StartTime :: time
  rp_LastUpdate :: time
  rp_Error :: string
  rp_Output :: "string list"

definition idle_progress :: RewindProgress where
  "idle_progress = \<lparr>rp_Phase = RewindPhaseIdle, rp_Percent = 0, rp_BytesTotal = 0, rp_BytesCopied = 0, rp_FilesTotal = 0,
     rp_FilesCopied = 0, rp_StartTime = 0, rp_LastUpdate = 0, rp_Error = '''', rp_Output = []\<rparr>"

definition push_line :: "string \<Rightarrow> string list \<Rightarrow> string list" where
  "push_line line buf = (if length buf \<ge> 50 then tl buf else buf) @ [line]"

definition parse_progress :: "string \<Rightarrow> string \<Rightarrow> string \<Rightarrow> string \<Rightarrow> RewindProgress \<Rightarrow> RewindProgress" where
  "parse_progress copied all unit percent p =
     (let p1 = (case ParseFloat percent of None \<Rightarrow> p | Some x \<Rightarrow> p\<lparr>rp_Percent := x, rp_Phase := RewindPhaseCopying\<rparr>);
          p2 = (case ParseInt copied of None \<Rightarrow> p1 | Some n \<Rightarrow> p1\<lparr>rp_BytesCopied := parseBytes n unit\<rparr>)
      in case ParseInt all of None \<Rightarrow> p2 | Some n \<Rightarrow> p2\<lparr>rp_BytesTotal := parseBytes n unit\<rparr>)"

definition parse_line :: "(rat \<Rightarrow> int) \<Rightarrow> string \<Rightarrow> RewindProgress \<Rightarrow> RewindProgress" where
  "parse_line ovf line p =
     (case find_submatch progressPattern line of
        Some [copied, all, unit, percent] \<Rightarrow> parse_progress copied all unit percent p
      | _ \<Rightarrow> (case find_submatch copyPattern line of
          Some [sz, unit] \<Rightarrow>
            (case ParseFloat sz of None \<Rightarrow> p | Some x \<Rightarrow> p\<lparr>rp_BytesTotal := parseBytes (float64_to_int64 ovf x) unit\<rparr>)
            \<lparr>rp_Phase := RewindPhaseFetching\<rparr>
        | _ \<Rightarrow>
            if find_submatch rewindingPattern line \<noteq> None then p\<lparr>rp_Phase := RewindPhaseFetching\<rparr>
            else if find_submatch filePattern line \<noteq> None
            then p\<lparr>rp_Phase := RewindPhaseCopying, rp_FilesCopied := wrap64 (rp_FilesCopied p + 1)\<rparr>
            else if done_line line then p\<lparr>rp_Phase := RewindPhaseComplete, rp_Percent := 100\<rparr>
            else p))"

text \<open>One turn of parseOutput, with the buffer that only its goroutine sees.\<close>

definition parse_output :: "(rat \<Rightarrow> int) \<Rightarrow> time \<Rightarrow> string \<Rightarrow> string list \<times> RewindProgress \<Rightarrow> string list \<times> RewindProgress" where
  "parse_output ovf now line st =
     (case st of (buf, p) \<Rightarrow>
        let buf' = push_line line buf in (buf', parse_line ovf line (p\<lparr>rp_Output := buf', rp_LastUpdate := now\<rparr>)))"

definition setRewindError :: "string \<Rightarrow> time \<Rightarrow> RewindProgress \<Rightarrow> RewindProgress" where
  "setRewindError msg now p = p\<lparr>rp_Phase := RewindPhaseFailed, rp_Error := msg, rp_LastUpdate := now\<rparr>"

definition rewind_begin :: "time \<Rightarrow> time \<Rightarrow> RewindProgress" where
  "rewind_begin now1 now2 = idle_progress\<lparr>rp_Phase := RewindPhaseConnecting, rp_StartTime := now1, rp_LastUpdate := now2\<rparr>"

definition rewind_end :: "string option \<Rightarrow> time \<Rightarrow> RewindProgress \<Rightarrow> RewindProgress" where
  "rewind_end err now p =
     (case err of
        Some e \<Rightarrow> setRewindError (''pg_rewind failed: '' @ e) now p
      | None \<Rightarrow> p\<lparr>rp_Phase := RewindPhaseComplete, rp_Percent := 100, rp_LastUpdate := now\<rparr>)"

datatype rewind_event = Line string time | Exited "string option" time

fun on_event :: "(rat \<Rightarrow> int) \<Rightarrow> rewind_event \<Rightarrow> string list \<times> RewindProgress \<Rightarrow> string list \<times> RewindProgress" where
  "on_event ovf (Line l now) st = parse_output ovf now l st"
| "on_event ovf (Exited err now) (buf, p) = (buf, rewind_end err now p)"

text \<open>Starting the process may fail at three points; then no output is read.\<close>

datatype start_failure = NoStdout string | NoStderr string | NoStart string

fun failure_text :: "start_failure \<Rightarrow> string" where
  "failure_text (NoStdout e) = ''failed to create stdout pipe: '' @ e"
| "failure_text (NoStderr e) = ''failed to create stderr pipe: '' @ e"
| "failure_text (NoStart e) = ''failed to start pg_rewind: '' @ e"

definition RunPgRewindWithProgress ::
    "(rat \<Rightarrow> int) \<Rightarrow> time \<Rightarrow> time \<Rightarrow> time \<Rightarrow> start_failure option \<Rightarrow> rewind_event list \<Rightarrow> RewindProgress" where
  "RunPgRewindWithProgress ovf now1 now2 now3 failed evs =
     (case failed of
        Some f \<Rightarrow> setRewindError (failure_text f) now3 (rewind_begin now1 now2)
      | None \<Rightarrow> snd (fold (on_event ovf) evs ([], rewind_begin now1 now2)))"

definition lines_of :: "rewind_event list \<Rightarrow> string list" where
  "lines_of evs = List.map_filter (\<lambda>e. case e of Line l _ \<Rightarrow> Some l | _ \<Rightarrow> None) evs"

section \<open>The output buffer\<close>

interpretation out_buf: bounded_buffer "[]" "\<lambda>l b. Some (push_line l b)" "\<lambda>b. b" "\<lambda>b. length b \<le> 50" 50
  by unfold_locales (auto simp: push_line_def last_n_def drop_Suc)

lemma parse_line_Output [simp]: "rp_Output (parse_line ovf l p) = rp_Output p"
  by (auto simp: parse_line_def parse_progress_def Let_def split: option.splits list.splits)

lemma fold_events_output:
  "rp_Output (snd st) = fst st \<Longrightarrow> case fold (on_event ovf) evs st of (buf, p) \<Rightarrow>
     rp_Output p = buf \<and> add_all (\<lambda>l b. Some (push_line l b)) (lines_of evs) (fst st) = Some buf"
proof (induction evs arbitrary: st)
  case Nil
  then show ?case by (cases st) (simp add: lines_of_def List.map_filter_simps)
next
  case (Cons e evs)
  obtain buf p where st: "st = (buf, p)" by fastforce
  have "rp_Output (snd (on_event ovf e st)) = fst (on_event ovf e st)"
    using Cons.prems by (cases e) (auto simp: st parse_output_def rewind_end_def setRewindError_def Let_def split: option.splits)
  from Cons.IH [OF this] show ?case
    by (cases e) (auto simp: st parse_output_def lines_of_def List.map_filter_simps Let_def)
qed

text \<open>
  Whatever pg\_rewind writes and whenever it ends, the output shown is the last fifty lines
  read so far.
\<close>

theorem rewind_output:
  "rp_Output (RunPgRewindWithProgress ovf now1 now2 now3 None evs) = last_n 50 (lines_of evs)"
proof -
  obtain buf p where f: "fold (on_event ovf) evs ([], rewind_begin now1 now2) = (buf, p)" by fastforce
  have "rp_Output p = buf" "add_all (\<lambda>l b. Some (push_line l b)) (lines_of evs) [] = Some buf"
    using fold_events_output [of "([], rewind_begin now1 now2)" evs ovf] f by (simp_all add: rewind_begin_def idle_progress_def)
  with out_buf.history_of [of "lines_of evs"] show ?thesis by (simp add: RunPgRewindWithProgress_def f)
qed

text \<open>
  The reader of the output is not awaited: a line that is parsed after pg\_rewind failed
  puts the phase back to copying, so the failure is not visible in it.
\<close>

theorem rewind_failure_overwritten:
  "rp_Phase (RunPgRewindWithProgress (\<lambda>_. 0) 0 0 0 None
     [Exited (Some ''exit status 1'') 5, Line ''  26/52 kB (50%) copied'' 6]) = RewindPhaseCopying"
  by code_simp

end
