(* ===== verification/Http.thy ===== *)
theory Http
  imports GoStd
begin

text \<open>
  What the API server relies on in net/http and net/url (Go 1.22): percent-encoded paths,
  requests, and how a \<open>ServeMux\<close> whose patterns have neither method, host nor wildcards
  picks the handler of a request, redirects to clean paths included.

  A request carries its path as \<open>URL.EscapedPath\<close> gives it; \<open>URL.Path\<close> is its decoding.
\<close>

section \<open>Percent encoding\<close>

definition hex_val :: "char \<Rightarrow> nat" where
  "hex_val c = (if is_digit c then of_char c - 48
     else if CHR ''a'' \<le> c \<and> c \<le> CHR ''f'' then of_char c - 87 else of_char c - 55)"

fun unescape :: "string \<Rightarrow> string option" where
  "unescape [] = Some []"
| "unescape (c # s) =
     (if c = CHR ''%''
      then (case s of
          a # b # t \<Rightarrow> if is_hex a \<and> is_hex b
            then map_option ((#) (char_of (16 * hex_val a + hex_val b))) (unescape t) else None
        | _ \<Rightarrow> None)
      else map_option ((#) c) (unescape s))"

definition pathUnescape :: "string \<Rightarrow> string" where
  "pathUnescape s = (case unescape s of None \<Rightarrow> s | Some t \<Rightarrow> t)"

section \<open>Requests\<close>

abbreviation MethodGet :: string where "MethodGet \<equiv> ''GET''"
abbreviation MethodPost :: string where "MethodPost \<equiv> ''POST''"
abbreviation MethodPatch :: string where "MethodPatch \<equiv> ''PATCH''"
abbreviation MethodDelete :: string where "MethodDelete \<equiv> ''DELETE''"

record request =
  rq_Method :: string
  rq_EscapedPath :: string
  rq_Query :: "(string \<times> string) list"
  rq_Authorization :: string
  rq_RequestID :: string

definition URL_Path :: "'z request_scheme \<Rightarrow> string" where
  "URL_Path rq = pathUnescape (rq_EscapedPath rq)"

definition Query_Get :: "'z request_scheme \<Rightarrow> string \<Rightarrow> string" where
  "Query_Get rq k = (case map_of (rq_Query rq) k of None \<Rightarrow> '''' | Some v \<Rightarrow> v)"

text \<open>What the server of net/http lets through: the path decodes, and is empty or starts with
  a slash (it answers requests for \<open>*\<close> itself).\<close>

definition well_formed :: "'z request_scheme \<Rightarrow> bool" where
  "well_formed rq \<longleftrightarrow> unescape (rq_EscapedPath rq) \<noteq> None \<and>
     (rq_EscapedPath rq = [] \<or> hd (rq_EscapedPath rq) = CHR ''/'')"

section \<open>ServeMux\<close>

text \<open>A pattern is its literal segments and whether it ends in a slash, which stands for any
  rest of the path.\<close>

type_synonym pattern = "string list \<times> bool"

definition parse_pattern :: "string \<Rightarrow> pattern" where
  "parse_pattern s = (let ss = split_on (CHR ''/'') (tl s)
     in if last ss = [] then (butlast ss, True) else (ss, False))"

definition path_segments :: "string \<Rightarrow> string list" where
  "path_segments path =
     (if path = [] then []
      else let ss = split_on (CHR ''/'') (tl path)
        in map pathUnescape (butlast ss) @ [if last ss = [] then ''/'' else pathUnescape (last ss)])"

fun longest_prefix :: "(pattern \<times> 'h) list \<Rightarrow> string list \<Rightarrow> nat \<Rightarrow> (pattern \<times> 'h) option" where
  "longest_prefix pats segs 0 = find (\<lambda>p. fst p = ([], True)) pats"
| "longest_prefix pats segs (Suc n) =
     (case find (\<lambda>p. fst p = (take (Suc n) segs, True)) pats of
        Some p \<Rightarrow> Some p
      | None \<Rightarrow> longest_prefix pats segs n)"

definition tree_match :: "(pattern \<times> 'h) list \<Rightarrow> string \<Rightarrow> (pattern \<times> 'h) option" where
  "tree_match pats path =
     (let segs = path_segments path
      in case find (\<lambda>p. fst p = (segs, False)) pats of
           Some p \<Rightarrow> Some p
         | None \<Rightarrow> if segs = [] then None else longest_prefix pats segs (length segs - 1))"

definition ends_in_slash :: "string \<Rightarrow> bool" where
  "ends_in_slash p \<longleftrightarrow> p \<noteq> [] \<and> last p = CHR ''/''"

definition exactMatch :: "(pattern \<times> 'h) option \<Rightarrow> string \<Rightarrow> bool" where
  "exactMatch n path =
     (case n of
        None \<Rightarrow> False
      | Some ((segs, multi), _) \<Rightarrow>
          if \<not> multi then True
          else if \<not> ends_in_slash path then False
          else Suc (length segs) = count_list path (CHR ''/''))"

definition cleanPath :: "string \<Rightarrow> string" where
  "cleanPath p =
     (if p = [] then ''/''
      else let p = (if hd p = CHR ''/'' then p else CHR ''/'' # p); np = filepath_Clean p
        in if ends_in_slash p \<and> np \<noteq> ''/'' then np @ ''/'' else np)"

definition slash_redirect :: "(pattern \<times> 'h) list \<Rightarrow> string \<Rightarrow> bool" where
  "slash_redirect pats path \<longleftrightarrow>
     \<not> exactMatch (tree_match pats path) path \<and> \<not> ends_in_slash path \<and>
     exactMatch (tree_match pats (path @ ''/'')) (path @ ''/'')"

datatype 'h dispatch = Serve 'h | RedirectTo string | NotFound

definition findHandler :: "(pattern \<times> 'h) list \<Rightarrow> 'z request_scheme \<Rightarrow> 'h dispatch" where
  "findHandler pats rq =
     (let escaped = rq_EscapedPath rq;
          path = (if rq_Method rq = ''CONNECT'' then escaped else cleanPath escaped)
      in if slash_redirect pats path then RedirectTo (cleanPath (URL_Path rq) @ ''/'')
         else if path \<noteq> escaped then RedirectTo path
         else case tree_match pats path of None \<Rightarrow> NotFound | Some (_, h) \<Rightarrow> Serve h)"

section \<open>What a served path decodes to\<close>

lemma split_on_ne [simp]: "split_on c s \<noteq> []"
  by (induction s) (auto split: list.splits)

lemma split_on_hex: "is_hex a \<Longrightarrow> a \<noteq> CHR ''/''"
  by (auto simp: is_hex_def is_digit_def)

lemma split_on_step:
  "a \<noteq> c \<Longrightarrow> split_on c (a # s) = (a # hd (split_on c s)) # tl (split_on c s)"
  by (cases "split_on c s") auto

lemma unescape_segments:
  "unescape s = Some u \<Longrightarrow>
     list_all (\<lambda>w. unescape w \<noteq> None) (split_on (CHR ''/'') s) \<and>
     u = join_with ''/'' (map pathUnescape (split_on (CHR ''/'') s))"
proof (induction s arbitrary: u rule: unescape.induct)
  case 1
  then show ?case by (simp add: pathUnescape_def)
next
  case (2 c s)
  have join: "join_with ''/'' ((x # w) # ws) = x # join_with ''/'' (w # ws)" for x w ws by (cases ws) auto
  show ?case
  proof (cases "c = CHR ''%''")
    case True
    then obtain a b t v where s: "s = a # b # t" and h: "is_hex a" "is_hex b" and v: "unescape t = Some v"
      and u: "u = char_of (16 * hex_val a + hex_val b) # v"
      using 2 by (auto split: list.splits if_splits)
    have ih: "list_all (\<lambda>w. unescape w \<noteq> None) (split_on (CHR ''/'') t)"
      "v = join_with ''/'' (map pathUnescape (split_on (CHR ''/'') t))" using "2.IH"(1) [OF True s refl _ v] h by simp_all
    obtain w ws where w: "split_on (CHR ''/'') t = w # ws" by (cases "split_on (CHR ''/'') t") auto
    obtain w' where w': "unescape w = Some w'" using ih(1) w by auto
    have "split_on (CHR ''/'') (c # s) = (c # a # b # w) # ws"
      using True h by (simp add: s w split_on_hex)
    moreover have "unescape (c # a # b # w) = Some (char_of (16 * hex_val a + hex_val b) # w')"
      using True h w' by simp
    ultimately show ?thesis
      using ih w w' by (simp add: u join pathUnescape_def [of "c # a # b # w"]) (simp add: pathUnescape_def)
  next
    case False
    then obtain v where v: "unescape s = Some v" and u: "u = c # v" using 2 by auto
    have ih: "list_all (\<lambda>w. unescape w \<noteq> None) (split_on (CHR ''/'') s)"
      "v = join_with ''/'' (map pathUnescape (split_on (CHR ''/'') s))" using "2.IH"(2) [OF False v] by simp_all
    obtain w ws where w: "split_on (CHR ''/'') s = w # ws" by (cases "split_on (CHR ''/'') s") auto
    obtain w' where w': "unescape w = Some w'" using ih(1) w by auto
    show ?thesis
    proof (cases "c = CHR ''/''")
      case True
      moreover have "pathUnescape [] = []" by (simp add: pathUnescape_def)
      ultimately show ?thesis using ih w by (simp add: u)
    next
      case c: False
      then have "split_on (CHR ''/'') (c # s) = (c # w) # ws" by (simp add: w)
      moreover have "unescape (c # w) = Some (c # w')" using False w' by simp
      ultimately show ?thesis
        using ih w w' by (simp add: u join pathUnescape_def [of "c # w"]) (simp add: pathUnescape_def)
    qed
  qed
qed

text \<open>A request served under a literal pattern has exactly that path once decoded, however the
  path was encoded.\<close>

lemma literal_path:
  assumes "well_formed rq" and "path_segments (rq_EscapedPath rq) = segs" and "''/'' \<notin> set segs" and "segs \<noteq> []"
  shows "URL_Path rq = CHR ''/'' # join_with ''/'' segs"
proof -
  let ?p = "rq_EscapedPath rq"
  have p: "?p = CHR ''/'' # tl ?p"
    using assms by (cases ?p) (auto simp: well_formed_def path_segments_def)
  then obtain u where u: "unescape (tl ?p) = Some u" "URL_Path rq = CHR ''/'' # u"
    using assms(1) by (cases ?p) (auto simp: well_formed_def URL_Path_def pathUnescape_def)
  define ss where "ss = split_on (CHR ''/'') (tl ?p)"
  have "?p \<noteq> []" using p by (metis list.distinct(1))
  then have segs: "segs = map pathUnescape (butlast ss) @ [if last ss = [] then ''/'' else pathUnescape (last ss)]"
    by (simp add: assms(2) [symmetric] path_segments_def Let_def ss_def)
  with assms(3) have "last ss \<noteq> []" by auto
  with segs have "segs = map pathUnescape (butlast ss @ [last ss])" by simp
  then have "segs = map pathUnescape (split_on (CHR ''/'') (tl ?p))"
    using append_butlast_last_id [of ss] by (simp add: ss_def)
  with unescape_segments [OF u(1)] u(2) show ?thesis by simp
qed

lemma find_in: "find P xs = Some x \<Longrightarrow> x \<in> set xs \<and> P x"
  by (induction xs) (auto split: if_splits)

lemma longest_prefix_multi: "longest_prefix pats segs n = Some p \<Longrightarrow> p \<in> set pats \<and> snd (fst p)"
  by (induction n) (auto split: option.splits dest: find_in)

lemma tree_match_cases:
  assumes "tree_match pats path = Some ((segs, multi), h)"
  shows "((segs, multi), h) \<in> set pats \<and> (multi \<or> path_segments path = segs)"
  using assms
  by (auto simp: tree_match_def Let_def split: option.splits if_splits dest: find_in longest_prefix_multi)

lemma findHandler_serves:
  assumes "findHandler pats rq = Serve h"
  obtains segs multi where "((segs, multi), h) \<in> set pats" and "multi \<or> path_segments (rq_EscapedPath rq) = segs"
  using assms by (auto simp: findHandler_def Let_def split: if_splits option.splits dest!: tree_match_cases)

end
