(* ===== verification/Api.thy ===== *)
theory Api
  imports Manager Proxy PgConfig Progress Http
begin

text \<open>
  The HTTP API, src/internal/api/server.go and handlers.go: every handler, the routing
  table, and the chain of middleware (request log, authentication, rate limit).

  A handler runs in the world of its node. What it reads of components that other goroutines
  drive (health checker, proxy, VIP manager, configuration applier, rewind tracker) is their
  state at the event of the read, so these are functions of the event's number. A reply is
  a status and a value that is written as JSON; the members of an object are listed in the
  order of the source. Metrics, logs and the response headers other than the request id are
  left out, and so are the files of the dashboard (net/http's file server, a parameter).
\<close>

section \<open>Replies\<close>

datatype api_error = OfManual manual_error | OfStore go_error | OfJson json_error | OfText string

text \<open>\<open>VTime\<close> is a time.Time, \<open>VStamp\<close> an instant formatted in RFC 3339 to the second, and
  \<open>VErr p e\<close> the text \<open>p\<close> followed by the message of the error.\<close>

datatype val =
    VNull
  | VBool bool
  | VInt int
  | VFloat rat
  | VStr string
  | VTime time
  | VStamp time
  | VErr string api_error
  | VList "val list"
  | VObj "(string \<times> val) list"

fun encodable :: "val \<Rightarrow> bool" where
  "encodable (VTime t) = time_marshalable t"
| "encodable (VList vs) = list_all encodable vs"
| "encodable (VObj kvs) = list_all (\<lambda>kv. encodable (snd kv)) kvs"
| "encodable _ = True"

datatype body = Empty | Text string | Json val | Location string | Stream "val list"

text \<open>\<open>Aborted\<close>: the handler panicked, and net/http closes the connection.\<close>

datatype response = Response int body | Aborted

definition status_of :: "response \<Rightarrow> int" where
  "status_of r = (case r of Response s b \<Rightarrow> s | Aborted \<Rightarrow> 0)"

text \<open>The status is written first; a value that cannot be encoded leaves the body empty.\<close>

definition writeJSON :: "int \<Rightarrow> val \<Rightarrow> response" where
  "writeJSON status v = Response status (if encodable v then Json v else Empty)"

definition http_Error :: "string \<Rightarrow> int \<Rightarrow> response" where
  "http_Error msg code = Response code (Text msg)"

abbreviation error_reply :: "int \<Rightarrow> string \<Rightarrow> response" where
  "error_reply code msg \<equiv> writeJSON code (VObj [(''error'', VStr msg)])"

abbreviation status_reply :: "string \<Rightarrow> response" where
  "status_reply msg \<equiv> writeJSON 200 (VObj [(''status'', VStr msg)])"

text \<open>A nil slice is null.\<close>

definition VSlice :: "val list \<Rightarrow> val" where
  "VSlice vs = (if vs = [] then VNull else VList vs)"

definition VMap :: "('v \<Rightarrow> val) \<Rightarrow> 'v gomap \<Rightarrow> val" where
  "VMap f m = (case m of None \<Rightarrow> VNull | Some m \<Rightarrow> VObj (map (\<lambda>(k, v). (k, f v)) (sorted_list_of_fmap m)))"

section \<open>Requests\<close>

text \<open>The body as the handlers read it: whether reading fails, the first 1 MiB as one document
  (None when they are no JSON text), and the first value of the whole stream, or the error.\<close>

record api_request = request +
  rq_read_error :: bool
  rq_document :: "json option"
  rq_first :: "string + json"

record to_req = to_To :: string
record peer_req = peer_ID :: string  peer_Address :: string
record params_req = pq_Parameters :: "string gomap"
record names_req = nq_Parameters :: "string list"

definition dec_to :: "to_req decoder" where
  "dec_to = dec_struct [(''to'', dec_field to_To to_To_update dec_str)]"

definition dec_peer :: "peer_req decoder" where
  "dec_peer = dec_struct [(''id'', dec_field peer_ID peer_ID_update dec_str),
     (''address'', dec_field peer_Address peer_Address_update dec_str)]"

definition dec_peer_id :: "peer_req decoder" where
  "dec_peer_id = dec_struct [(''id'', dec_field peer_ID peer_ID_update dec_str)]"

definition dec_params :: "params_req decoder" where
  "dec_params = dec_struct [(''parameters'', dec_field pq_Parameters pq_Parameters_update (dec_map dec_str ''''))]"

fun dec_strs :: "json list \<Rightarrow> json_error + string list" where
  "dec_strs [] = Inr []"
| "dec_strs (j # js) =
     (case dec_str j '''' of Inl e \<Rightarrow> Inl e
      | Inr s \<Rightarrow> (case dec_strs js of Inl e \<Rightarrow> Inl e | Inr ss \<Rightarrow> Inr (s # ss)))"

fun dec_str_slice :: "string list decoder" where
  "dec_str_slice JNull ss = Inr []"
| "dec_str_slice (JArr js) ss = dec_strs js"
| "dec_str_slice _ ss = Inl UnmarshalTypeError"

definition dec_names :: "names_req decoder" where
  "dec_names = dec_struct [(''parameters'', dec_field nq_Parameters nq_Parameters_update dec_str_slice)]"

text \<open>The reading of a request that four handlers share: io.ReadAll, then json.Unmarshal.\<close>

definition read_request :: "'a decoder \<Rightarrow> 'a \<Rightarrow> 'r api_request_scheme \<Rightarrow> response + 'a" where
  "read_request d z rq =
     (if rq_read_error rq then Inl (error_reply 400 ''failed to read body'')
      else case Unmarshal d (rq_document rq) z of
          Inl e \<Rightarrow> Inl (error_reply 400 ''invalid JSON'')
        | Inr req \<Rightarrow> Inr req)"

definition decode_request :: "'a decoder \<Rightarrow> 'a \<Rightarrow> 'r api_request_scheme \<Rightarrow> response + 'a" where
  "decode_request d z rq =
     (case rq_first rq of
        Inl e \<Rightarrow> Inl (writeJSON 400 (VObj [(''error'', VErr ''invalid JSON: '' (OfText e))]))
      | Inr j \<Rightarrow> (case d j z of
            Inl e \<Rightarrow> Inl (writeJSON 400 (VObj [(''error'', VErr ''invalid JSON: '' (OfJson e))]))
          | Inr req \<Rightarrow> Inr req))"

section \<open>Dependencies\<close>

text \<open>The pointers that may be nil are given by whether they are set; the others always are
  (cmd/pgbastion/main.go creates them unconditionally).\<close>

record 'w handlers =
  h_stateSource :: "'w ClusterStateSource"
  h_raftStore :: bool
  h_clusterManager :: bool
  h_healthChecker :: bool
  h_replication :: bool
  h_progressTracker :: bool
  h_configApplier :: bool
  h_nodeName :: string
  k_owner :: "nat \<Rightarrow> bool"
  k_tracker :: "nat \<Rightarrow> ConnectionTracker"
  k_order :: "nat \<Rightarrow> 64 word ranger"
  k_status :: "nat \<Rightarrow> HealthStatus"
  k_history :: "(nat \<Rightarrow> HealthCheckEntry HealthHistory) option"
  k_rewind :: "nat \<Rightarrow> RewindProgress"
  k_applier :: "nat \<Rightarrow> ConfigApplier"
  k_random :: "nat \<Rightarrow> int list option"
  h_ui :: "string \<Rightarrow> response"

type_synonym 'z api = "'z mworld_scheme handlers"
type_synonym ('z, 'a) hact = "('z mworld_scheme, 'a) state"

definition look :: "env \<Rightarrow> (nat \<Rightarrow> 'a) \<Rightarrow> ('z, 'a) act" where
  "look E f = event E (\<lambda>k w. (f k, w))"

definition not_configured :: "string \<Rightarrow> response" where
  "not_configured what = http_Error (what @ '' not configured'') 404"

section \<open>Cluster and proxy\<close>

definition health :: "'z api \<Rightarrow> env \<Rightarrow> ('z, response) hact" where
  "health h E = do {
     primary \<leftarrow> src_GetPrimary (h_stateSource h);
     replicas \<leftarrow> src_GetReplicas (h_stateSource h);
     splitBrain \<leftarrow> src_IsSplitBrain (h_stateSource h);
     let role = (case primary of None \<Rightarrow> ''unknown''
                 | Some p \<Rightarrow> if ns_Name p = h_nodeName h then ''primary'' else ''replica'');
     let proxyHealthy = (primary \<noteq> None \<or> replicas \<noteq> []);
     let (status, code) = (if splitBrain then (''split_brain'', 503)
                           else if \<not> proxyHealthy then (''no_backends'', 503) else (''ok'', 200));
     owner \<leftarrow> look E (k_owner h);
     return (writeJSON code (VObj [(''status'', VStr status), (''node'', VStr (h_nodeName h)), (''role'', VStr role),
       (''split_brain'', VBool splitBrain), (''vip_owner'', VBool owner), (''proxy_healthy'', VBool proxyHealthy)])) }"

definition cluster :: "'z api \<Rightarrow> ('z, response) hact" where
  "cluster h = do {
     tb \<leftarrow> RoutingTable (h_stateSource h);
     return (writeJSON 200 (VObj [(''routing_table'', VObj [(''primary'', VStr (rt_Primary tb)),
       (''replicas'', VSlice (map VStr (rt_Replicas tb))), (''split_brain'', VBool (rt_SplitBrain tb))])])) }"

definition connections :: "'z api \<Rightarrow> env \<Rightarrow> ('z, response) hact" where
  "connections h E = do {
     n \<leftarrow> look E (\<lambda>k. Count (k_tracker h k));
     by_backend \<leftarrow> look E (\<lambda>k. ConnectionsByBackend (k_order h k) (k_tracker h k));
     return (writeJSON 200 (VObj [(''active_connections'', VInt (int n)),
       (''by_backend'', VMap (\<lambda>n. VInt (int n)) (Some by_backend))])) }"

definition reload :: response where
  "reload = status_reply ''state is automatically synchronized via Raft''"

section \<open>Raft\<close>

definition raftState :: "'z api \<Rightarrow> env \<Rightarrow> ('z, response) hact" where
  "raftState h E =
     (if \<not> h_raftStore h then return (not_configured ''raft'')
      else do {
        stats \<leftarrow> Store_Stats E;
        st \<leftarrow> Store_RaftState E;
        leader \<leftarrow> IsLeader E;
        addr \<leftarrow> LeaderAddr E;
        let stat = (\<lambda>k. VStr (case fmlookup stats k of None \<Rightarrow> '''' | Some v \<Rightarrow> v));
        return (writeJSON 200 (VObj [(''state'', VStr st), (''is_leader'', VBool leader), (''leader_addr'', VStr addr),
          (''commit_index'', stat ''commit_index''), (''last_log_index'', stat ''last_log_index'')])) })"

definition peerInfo :: "raft_server \<Rightarrow> val" where
  "peerInfo p = VObj [(''id'', VStr (rs_ID p)), (''address'', VStr (rs_Address p)), (''suffrage'', VStr (rs_Suffrage p))]"

definition raftPeers :: "'z api \<Rightarrow> env \<Rightarrow> ('z, response) hact" where
  "raftPeers h E =
     (if \<not> h_raftStore h then return (not_configured ''raft'')
      else do {
        peers \<leftarrow> Peers E;
        return (case peers of
            Inl e \<Rightarrow> error_reply 500 e
          | Inr ps \<Rightarrow> writeJSON 200 (VObj [(''peers'', VSlice (map peerInfo ps))])) })"

definition raftAddPeer :: "'z api \<Rightarrow> env \<Rightarrow> 'r api_request_scheme \<Rightarrow> ('z, response) hact" where
  "raftAddPeer h E rq =
     (if \<not> h_raftStore h then return (not_configured ''raft'')
      else case read_request dec_peer \<lparr>peer_ID = '''', peer_Address = ''''\<rparr> rq of
          Inl r \<Rightarrow> return r
        | Inr req \<Rightarrow>
            if peer_ID req = '''' \<or> peer_Address req = '''' then return (error_reply 400 ''id and address are required'')
            else do {
              err \<leftarrow> AddPeer E (peer_ID req) (peer_Address req);
              return (case err of Some e \<Rightarrow> error_reply 500 e | None \<Rightarrow> status_reply ''peer added'') })"

definition raftRemovePeer :: "'z api \<Rightarrow> env \<Rightarrow> 'r api_request_scheme \<Rightarrow> ('z, response) hact" where
  "raftRemovePeer h E rq =
     (if \<not> h_raftStore h then return (not_configured ''raft'')
      else case read_request dec_peer_id \<lparr>peer_ID = '''', peer_Address = ''''\<rparr> rq of
          Inl r \<Rightarrow> return r
        | Inr req \<Rightarrow>
            if peer_ID req = '''' then return (error_reply 400 ''id is required'')
            else do {
              err \<leftarrow> RemovePeer E (peer_ID req);
              return (case err of Some e \<Rightarrow> error_reply 500 e | None \<Rightarrow> status_reply ''peer removed'') })"

definition nodeInfo :: "NodeInfo \<Rightarrow> val" where
  "nodeInfo n = VObj [(''name'', VStr (ni_Name n)), (''host'', VStr (ni_Host n)), (''port'', VInt (ni_Port n)),
     (''role'', VStr (ni_Role n)), (''state'', VStr (ni_State n)), (''lag_bytes'', VInt (ni_Lag n)),
     (''last_seen'', VStamp (ni_LastSeen n))]"

definition nodes :: "'z api \<Rightarrow> env \<Rightarrow> ('z, response) hact" where
  "nodes h E =
     (if \<not> h_raftStore h then return (not_configured ''raft'')
      else do {
        ns \<leftarrow> read_fsm E (\<lambda>r s. range_vals r (Some (GetAllNodes s)));
        return (writeJSON 200 (VObj [(''nodes'', VSlice (map nodeInfo ns))])) })"

definition VOmit :: "bool \<Rightarrow> string \<Rightarrow> val \<Rightarrow> (string \<times> val) list" where
  "VOmit is_empty k v = (if is_empty then [] else [(k, v)])"

definition completed :: "Directive \<Rightarrow> (string \<times> val) list" where
  "completed d = VOmit (IsZero (d_CompletedAt d)) ''completed_at'' (VStamp (d_CompletedAt d))
     @ VOmit (d_Error d = '''') ''error'' (VStr (d_Error d))"

definition directiveInfo :: "Directive \<Rightarrow> val" where
  "directiveInfo d = VObj ([(''id'', VStr (d_ID d)), (''type'', VStr (d_Type d)), (''target_node'', VStr (d_TargetNode d))]
     @ VOmit (map_is_empty (d_Params d)) ''params'' (VMap VStr (d_Params d))
     @ [(''status'', VStr (d_Status d)), (''created_at'', VStamp (d_CreatedAt d))] @ completed d)"

definition directive_listed :: "'r api_request_scheme \<Rightarrow> Directive \<Rightarrow> bool" where
  "directive_listed rq d \<longleftrightarrow>
     (Query_Get rq ''node'' = '''' \<or> d_TargetNode d = Query_Get rq ''node'') \<and>
     (Query_Get rq ''status'' = '''' \<or> d_Status d = Query_Get rq ''status'')"

definition raftDirectives :: "'z api \<Rightarrow> env \<Rightarrow> 'r api_request_scheme \<Rightarrow> ('z, response) hact" where
  "raftDirectives h E rq =
     (if \<not> h_raftStore h then return (not_configured ''raft'')
      else do {
        ds \<leftarrow> read_fsm E (\<lambda>r s. range_vals r (Some (GetAllDirectives s)));
        return (writeJSON 200 (VObj [(''directives'', VSlice (map directiveInfo (filter (directive_listed rq) ds)))])) })"

definition raftDirective :: "'z api \<Rightarrow> env \<Rightarrow> 'r api_request_scheme \<Rightarrow> ('z, response) hact" where
  "raftDirective h E rq =
     (if \<not> h_raftStore h then return (not_configured ''raft'')
      else let path = URL_Path rq
        in if length path < length ''/raft/directives/'' then return Aborted
           else let i = drop (length ''/raft/directives/'') path
             in if i = '''' then return (error_reply 400 ''directive ID required'')
                else do {
                  d \<leftarrow> Store_GetDirective E i;
                  return (case d of
                      None \<Rightarrow> error_reply 404 ''directive not found''
                    | Some d \<Rightarrow> writeJSON 200 (VObj ([(''id'', VStr (d_ID d)), (''type'', VStr (d_Type d)),
                        (''target_node'', VStr (d_TargetNode d)), (''status'', VStr (d_Status d)),
                        (''created_at'', VStamp (d_CreatedAt d))]
                        @ VOmit (d_Params d = None) ''params'' (VMap VStr (d_Params d)) @ completed d))) })"

section \<open>Cluster management\<close>

definition nodeState :: "NodeInfo \<Rightarrow> val" where
  "nodeState n = VObj [(''role'', VStr (ni_Role n)), (''state'', VStr (ni_State n)), (''lag'', VInt (ni_Lag n)),
     (''last_seen'', VTime (ni_LastSeen n))]"

definition clusterState :: "'z api \<Rightarrow> env \<Rightarrow> ('z, response) hact" where
  "clusterState h E =
     (if \<not> h_clusterManager h then return (not_configured ''cluster manager'')
      else do {
        st \<leftarrow> Manager_State;
        p \<leftarrow> IsPaused;
        let resp = [(''node'', VStr (h_nodeName h)), (''state'', VStr (state_string st)), (''paused'', VBool p)];
        if \<not> h_raftStore h then return (writeJSON 200 (VObj resp))
        else do {
          leader \<leftarrow> IsLeader E;
          ns \<leftarrow> read_fsm E (\<lambda>r. GetAllNodes);
          return (writeJSON 200 (VObj (resp @ [(''is_leader'', VBool leader), (''nodes'', VMap nodeState (Some ns))]))) } })"

definition replicaInfo :: "ReplicaInfo \<Rightarrow> val" where
  "replicaInfo r = VObj [(''name'', VStr (ri_Name r)), (''state'', VStr (ri_State r)), (''sent_lag_bytes'', VInt (ri_SentLag r)),
     (''write_lag_bytes'', VInt (ri_WriteLag r)), (''flush_lag_bytes'', VInt (ri_FlushLag r)),
     (''replay_lag_bytes'', VInt (ri_ReplayLag r)), (''sync_state'', VStr (ri_SyncState r))]"

definition slotInfo :: "SlotInfo \<Rightarrow> val" where
  "slotInfo s = VObj [(''name'', VStr (sl_Name s)), (''type'', VStr (sl_Type s)), (''active'', VBool (sl_Active s)),
     (''wal_bytes'', VInt (sl_WALBytes s))]"

definition clusterReplication :: "'z api \<Rightarrow> env \<Rightarrow> ('z, response) hact" where
  "clusterReplication h E =
     (if \<not> h_healthChecker h then return (not_configured ''health checker'')
      else do {
        status \<leftarrow> look E (k_status h);
        return (writeJSON 200 (VObj [(''is_in_recovery'', VBool (IsInRecovery status)),
          (''replication_lag'', VInt (ReplicationLag status)), (''replicas'', VSlice (map replicaInfo (Replicas status))),
          (''replication_slots'', VSlice (map slotInfo (ReplicationSlots status)))])) })"

text \<open>fmt.Sscanf with \<open>%d\<close> on an ASCII text: white space, a sign, digits.\<close>

fun skip_space :: "string \<Rightarrow> string option" where
  "skip_space [] = Some []"
| "skip_space (c # s) =
     (if c = CHR 0x0A \<or> (c = CHR 0x0D \<and> s \<noteq> [] \<and> hd s = CHR 0x0A) then None
      else if c = CHR '' '' \<or> (CHR 0x09 \<le> c \<and> c \<le> CHR 0x0D) then skip_space s
      else Some (c # s))"

definition Sscanf_d :: "string \<Rightarrow> int option" where
  "Sscanf_d s =
     (case skip_space s of
        None \<Rightarrow> None
      | Some t \<Rightarrow>
          (let signed = (t \<noteq> [] \<and> (hd t = CHR ''-'' \<or> hd t = CHR ''+''));
               ds = takeWhile is_digit (if signed then tl t else t);
               v = (if signed \<and> hd t = CHR ''-'' then - read_abs ds else read_abs ds)
           in if ds = [] \<or> \<not> in_int64 v then None else Some v))"

definition history_limit :: "string \<Rightarrow> int" where
  "history_limit limitStr =
     (if limitStr \<noteq> '''' then (case Sscanf_d limitStr of Some limit \<Rightarrow> if limit > 0 then limit else 20 | None \<Rightarrow> 20)
      else 20)"

definition Milliseconds :: "duration \<Rightarrow> int" where
  "Milliseconds d = sgn d * (\<bar>d\<bar> div Millisecond)"

definition entryResp :: "HealthCheckEntry \<Rightarrow> val" where
  "entryResp e = VObj ([(''timestamp'', VStamp (he_Timestamp e)), (''duration_ms'', VInt (Milliseconds (he_Duration e))),
     (''healthy'', VBool (Healthy (he_Status e)))]
     @ VOmit (StatusError (he_Status e) = '''') ''error'' (VStr (StatusError (he_Status e))))"

definition stats_val :: "HistoryStats \<Rightarrow> val" where
  "stats_val s = VObj [(''total_checks'', VInt (int (total_checks s))), (''success_count'', VInt (int (success_count s))),
     (''failure_count'', VInt (int (failure_count s))), (''success_rate'', VFloat (success_rate s)),
     (''avg_duration_ms'', VFloat (avg_duration_ms s))]"

definition healthHistory :: "'z api \<Rightarrow> env \<Rightarrow> 'r api_request_scheme \<Rightarrow> ('z, response) hact" where
  "healthHistory h E rq =
     (if \<not> h_healthChecker h then return (not_configured ''health checker'')
      else case k_history h of
          None \<Rightarrow> return (writeJSON 200 (VObj [(''entries'', VList []), (''stats'', VObj [])]))
        | Some history \<Rightarrow> do {
            entries \<leftarrow> look E (\<lambda>k. GetRecent (history_limit (Query_Get rq ''limit'')) (history k));
            case entries of
              None \<Rightarrow> return Aborted
            | Some es \<Rightarrow> do {
                stats \<leftarrow> look E (\<lambda>k. Stats (history k));
                return (writeJSON 200 (VObj [(''entries'', VSlice (map entryResp es)), (''stats'', stats_val stats)])) } })"

definition clusterFailover :: "'z api \<Rightarrow> env \<Rightarrow> 'r api_request_scheme \<Rightarrow> ('z, response) hact" where
  "clusterFailover h E rq =
     (if \<not> h_clusterManager h then return (not_configured ''cluster manager'')
      else case read_request dec_to \<lparr>to_To = ''''\<rparr> rq of
          Inl r \<Rightarrow> return r
        | Inr req \<Rightarrow>
            if to_To req = '''' then return (error_reply 400 ([CHR 0x22] @ ''to'' @ [CHR 0x22] @ '' field is required''))
            else do {
              err \<leftarrow> ManualFailover E (to_To req);
              return (case err of
                  Some e \<Rightarrow> writeJSON 500 (VObj [(''error'', VErr '''' (OfManual e))])
                | None \<Rightarrow> status_reply ''failover initiated'') })"

definition clusterSwitchover :: "'z api \<Rightarrow> env \<Rightarrow> nat \<Rightarrow> 'r api_request_scheme \<Rightarrow> ('z, response waited) hact" where
  "clusterSwitchover h E fuel rq =
     (if \<not> h_clusterManager h then return (Returned (not_configured ''cluster manager''))
      else case read_request dec_to \<lparr>to_To = ''''\<rparr> rq of
          Inl r \<Rightarrow> return (Returned r)
        | Inr req \<Rightarrow>
            if to_To req = '''' then return (Returned (error_reply 400 ([CHR 0x22] @ ''to'' @ [CHR 0x22] @ '' field is required'')))
            else do {
              err \<leftarrow> ManualSwitchover E fuel (to_To req);
              return (case err of
                  waited.Waiting \<Rightarrow> waited.Waiting
                | Returned (Some e) \<Rightarrow> Returned (writeJSON 500 (VObj [(''error'', VErr '''' (OfManual e))]))
                | Returned None \<Rightarrow> Returned (status_reply ''switchover initiated'')) })"

definition clusterReinitialize :: "'z api \<Rightarrow> env \<Rightarrow> ('z, response) hact" where
  "clusterReinitialize h E =
     (if \<not> h_clusterManager h \<or> \<not> h_replication h then return (not_configured ''cluster manager'')
      else if \<not> h_raftStore h then return (error_reply 500 ''raft not configured'')
      else do {
        primary \<leftarrow> read_fsm E (\<lambda>r. GetPrimary);
        case primary of
          None \<Rightarrow> return (error_reply 500 ''no primary known'')
        | Some p \<Rightarrow> do {
            cfg \<leftarrow> gets m_cfg;
            err \<leftarrow> Reinitialize E cfg (ni_Host p);
            return (case err of Some e \<Rightarrow> error_reply 500 e | None \<Rightarrow> status_reply ''reinitialization complete'') } })"

definition clusterConfig :: "'z api \<Rightarrow> env \<Rightarrow> ('z, response) hact" where
  "clusterConfig h E =
     (if \<not> h_healthChecker h then return (not_configured ''cluster manager'')
      else do {
        status \<leftarrow> look E (k_status h);
        return (writeJSON 200 (VObj [(''healthy'', VBool (Healthy status)), (''is_recovery'', VBool (IsInRecovery status)),
          (''last_check'', VTime (LastCheck status))])) })"

definition clusterPause :: "'z api \<Rightarrow> ('z, response) hact" where
  "clusterPause h =
     (if \<not> h_clusterManager h then return (not_configured ''cluster manager'')
      else do { Pause; return (status_reply ''automatic failover paused'') })"

definition clusterResume :: "'z api \<Rightarrow> ('z, response) hact" where
  "clusterResume h =
     (if \<not> h_clusterManager h then return (not_configured ''cluster manager'')
      else do { Resume; return (status_reply ''automatic failover resumed'') })"

text \<open>Duration.Seconds: both parts are converted to float64 before they are added.\<close>

definition Seconds :: "duration \<Rightarrow> rat" where
  "Seconds d = float64 (float64 (of_int (sgn d * (\<bar>d\<bar> div Second)))
     + float64 (float64 (of_int (sgn d * (\<bar>d\<bar> mod Second))) / 1000000000))"

definition clusterProgress :: "'z api \<Rightarrow> env \<Rightarrow> ('z, response) hact" where
  "clusterProgress h E =
     (if \<not> h_progressTracker h
      then return (writeJSON 200 (VObj [(''rewind'', VObj [(''phase'', VStr ''idle'')])]))
      else do {
        progress \<leftarrow> look E (k_rewind h);
        let counters = [(''phase'', VStr (phase_string (rp_Phase progress))), (''percent'', VFloat (rp_Percent progress)),
          (''bytes_total'', VInt (rp_BytesTotal progress)), (''bytes_copied'', VInt (rp_BytesCopied progress)),
          (''files_total'', VInt (rp_FilesTotal progress)), (''files_copied'', VInt (rp_FilesCopied progress))];
        timing \<leftarrow> (if IsZero (rp_StartTime progress) then return []
          else do {
            now \<leftarrow> time_Now E;
            return [(''start_time'', VStamp (rp_StartTime progress)),
              (''elapsed_seconds'', VFloat (Seconds (Since now (rp_StartTime progress))))] });
        return (writeJSON 200 (VObj [(''rewind'', VObj (counters @ timing
          @ VOmit (rp_Error progress = '''') ''error'' (VStr (rp_Error progress))
          @ VOmit (rp_Output progress = []) ''recent_output'' (VList (map VStr (last_n 10 (rp_Output progress))))))])) })"

section \<open>Patroni-compatible endpoints\<close>

definition pgbastion_info :: val where
  "pgbastion_info = VObj [(''version'', VStr ''1.0.0''), (''scope'', VStr ''pgbastion'')]"

definition is_self :: "'z api \<Rightarrow> NodeState option \<Rightarrow> bool" where
  "is_self h primary \<longleftrightarrow> (case primary of None \<Rightarrow> False | Some p \<Rightarrow> ns_Name p = h_nodeName h)"

definition patroniRoot :: "'z api \<Rightarrow> env \<Rightarrow> ('z, response) hact" where
  "patroniRoot h E = do {
     primary \<leftarrow> src_GetPrimary (h_stateSource h);
     (role, pgState) \<leftarrow> (if h_healthChecker h then do {
         status \<leftarrow> look E (k_status h);
         return (if \<not> IsInRecovery status then ''master'' else ''replica'', if \<not> Healthy status then ''unknown'' else ''running'') }
       else return (if is_self h primary then ''master'' else ''replica'', ''running''));
     return (writeJSON 200 (VObj [(''state'', VStr pgState), (''role'', VStr role), (''server_version'', VInt 160000),
       (''pgbastion'', pgbastion_info)])) }"

text \<open>Time.Unix: seconds since 1970.\<close>

definition time_Unix :: "time \<Rightarrow> int" where
  "time_Unix t = t div Second - 62135596800"

definition patroniPatroni :: "'z api \<Rightarrow> env \<Rightarrow> ('z, response) hact" where
  "patroniPatroni h E = do {
     primary \<leftarrow> src_GetPrimary (h_stateSource h);
     replicas \<leftarrow> src_GetReplicas (h_stateSource h);
     role \<leftarrow> (if h_healthChecker h then do {
         status \<leftarrow> look E (k_status h);
         return (if \<not> IsInRecovery status then ''master'' else ''replica'') }
       else return (if is_self h primary then ''master'' else ''replica''));
     let timeline = (case primary of None \<Rightarrow> 1 | Some p \<Rightarrow> ns_Timeline p);
     now \<leftarrow> time_Now E;
     let resp = [(''state'', VStr ''running''), (''role'', VStr role), (''timeline'', VInt timeline),
       (''cluster_unlocked'', VBool False), (''dcs_last_seen'', VInt (time_Unix now)), (''pgbastion'', pgbastion_info),
       (''database_system_identifier'', VStr ''pgbastion''), (''pending_restart'', VBool False)];
     let replication = map (\<lambda>rep. VObj [(''name'', VStr (ns_Name rep)), (''host'', VStr (ns_Host rep)),
       (''port'', VInt (ns_Port rep)), (''lag'', VInt (ns_Lag rep)), (''timeline'', VInt (ns_Timeline rep))]) replicas;
     return (writeJSON 200 (VObj (resp @
       VOmit (\<not> (role = ''master'' \<and> replicas \<noteq> [])) ''replication'' (VList replication)))) }"

definition api_url :: "NodeState \<Rightarrow> val" where
  "api_url n = VStr (''http://'' @ ns_Host n @ '':8080/'')"

definition member :: "string \<Rightarrow> int \<Rightarrow> NodeState \<Rightarrow> val" where
  "member role lag n = VObj [(''name'', VStr (ns_Name n)), (''host'', VStr (ns_Host n)), (''port'', VInt (ns_Port n)),
     (''role'', VStr role), (''state'', VStr (ns_State n)), (''timeline'', VInt (ns_Timeline n)), (''lag'', VInt lag),
     (''api_url'', api_url n)]"

definition patroniCluster :: "'z api \<Rightarrow> ('z, response) hact" where
  "patroniCluster h = do {
     primary \<leftarrow> src_GetPrimary (h_stateSource h);
     replicas \<leftarrow> src_GetReplicas (h_stateSource h);
     return (writeJSON 200 (VObj [(''members'', VSlice ((case primary of None \<Rightarrow> [] | Some p \<Rightarrow> [member ''leader'' 0 p])
       @ map (\<lambda>rep. member ''replica'' (ns_Lag rep) rep) replicas)), (''scope'', VStr ''pgbastion'')])) }"

definition patroniPrimary :: "'z api \<Rightarrow> env \<Rightarrow> ('z, response) hact" where
  "patroniPrimary h E = do {
     isPrimary \<leftarrow> (if h_healthChecker h then do {
         status \<leftarrow> look E (k_status h);
         return (Healthy status \<and> \<not> IsInRecovery status) }
       else do {
         primary \<leftarrow> src_GetPrimary (h_stateSource h);
         return (is_self h primary) });
     return (if isPrimary
       then writeJSON 200 (VObj [(''role'', VStr ''master''), (''state'', VStr ''running''),
              (''message'', VStr ''this node is the primary'')])
       else writeJSON 503 (VObj [(''role'', VStr ''replica''), (''message'', VStr ''this node is not the primary'')])) }"

definition patroniReplica :: "'z api \<Rightarrow> env \<Rightarrow> ('z, response) hact" where
  "patroniReplica h E = do {
     isReplica \<leftarrow> (if h_healthChecker h then do {
         status \<leftarrow> look E (k_status h);
         return (Healthy status \<and> IsInRecovery status) }
       else do {
         primary \<leftarrow> src_GetPrimary (h_stateSource h);
         return (\<not> is_self h primary) });
     return (if isReplica
       then writeJSON 200 (VObj [(''role'', VStr ''replica''), (''state'', VStr ''running''),
              (''message'', VStr ''this node is a replica'')])
       else writeJSON 503 (VObj [(''role'', VStr ''master''), (''message'', VStr ''this node is not a replica'')])) }"

definition patroniReadWrite :: "'z api \<Rightarrow> env \<Rightarrow> ('z, response) hact" where
  "patroniReadWrite h E = patroniPrimary h E"

definition patroniReadOnly :: "'z api \<Rightarrow> env \<Rightarrow> ('z, response) hact" where
  "patroniReadOnly h E = do {
     (healthy, isReplica) \<leftarrow> (if h_healthChecker h then do {
         status \<leftarrow> look E (k_status h);
         return (Healthy status, IsInRecovery status) }
       else do {
         primary \<leftarrow> src_GetPrimary (h_stateSource h);
         replicas \<leftarrow> src_GetReplicas (h_stateSource h);
         return (primary \<noteq> None \<or> replicas \<noteq> [], True) });
     return (if healthy \<and> isReplica
       then writeJSON 200 (VObj [(''role'', VStr ''replica''), (''state'', VStr ''running''),
              (''message'', VStr ''this node is available for read-only queries'')])
       else writeJSON 503 (VObj [(''message'', VStr ''this node is not available for read-only queries'')])) }"

definition patroniLeader :: "'z api \<Rightarrow> ('z, response) hact" where
  "patroniLeader h = do {
     primary \<leftarrow> src_GetPrimary (h_stateSource h);
     return (case primary of
         None \<Rightarrow> error_reply 503 ''no leader available''
       | Some p \<Rightarrow> writeJSON 200 (VObj [(''name'', VStr (ns_Name p)), (''host'', VStr (ns_Host p)),
           (''port'', VInt (ns_Port p)), (''api_url'', api_url p)])) }"

definition patroniConfig :: response where
  "patroniConfig = writeJSON 200 (VObj [(''ttl'', VInt 30), (''loop_wait'', VInt 10), (''retry_timeout'', VInt 10),
     (''maximum_lag_on_failover'', VInt 1048576),
     (''postgresql'', VObj [(''use_pg_rewind'', VBool True), (''use_slots'', VBool True)])])"

definition patroniHistory :: response where
  "patroniHistory = writeJSON 200 (VList [])"

section \<open>PostgreSQL configuration\<close>

definition postgresqlConfig :: "'z api \<Rightarrow> env \<Rightarrow> ('z, response) hact" where
  "postgresqlConfig h E =
     (if \<not> h_raftStore h then return (error_reply 404 ''Raft store not configured'')
      else do {
        cfg \<leftarrow> Store_GetPostgreSQLConfig E;
        let resp = [(''parameters'', VMap VStr (pc_Parameters cfg)), (''version'', VInt (pc_Version cfg)),
          (''updated_at'', VTime (pc_UpdatedAt cfg)), (''updated_by'', VStr (pc_UpdatedBy cfg))];
        if \<not> h_configApplier h then return (writeJSON 200 (VObj resp))
        else do {
          pending \<leftarrow> look E (\<lambda>k. pendingRestart (k_applier h k));
          params \<leftarrow> look E (\<lambda>k. pendingRestartParams (k_applier h k));
          version \<leftarrow> look E (\<lambda>k. lastAppliedVersion (k_applier h k));
          return (writeJSON 200 (VObj (resp @ [(''pending_restart'', VBool pending),
            (''pending_restart_params'', VSlice (map VStr params)), (''last_applied_version'', VInt version)]))) } })"

definition not_leader_reply :: "string \<Rightarrow> response" where
  "not_leader_reply addr = writeJSON 503 (VObj [(''error'', VStr ''not the Raft leader''), (''leader'', VStr addr)])"

definition postgresqlConfigUpdate :: "'z api \<Rightarrow> env \<Rightarrow> 'r api_request_scheme \<Rightarrow> ('z, response) hact" where
  "postgresqlConfigUpdate h E rq =
     (if \<not> h_raftStore h then return (error_reply 404 ''Raft store not configured'')
      else do {
        l \<leftarrow> IsLeader E;
        if \<not> l then do { addr \<leftarrow> LeaderAddr E; return (not_leader_reply addr) }
        else case decode_request dec_params \<lparr>pq_Parameters = None\<rparr> rq of
            Inl r \<Rightarrow> return r
          | Inr req \<Rightarrow>
              if map_is_empty (pq_Parameters req) then return (error_reply 400 ''no parameters provided'')
              else do {
                err \<leftarrow> PatchPostgreSQLConfig E (pq_Parameters req) (h_nodeName h);
                case err of
                  Some e \<Rightarrow> return (writeJSON 500 (VObj [(''error'', VErr ''failed to update config: '' (OfStore e))]))
                | None \<Rightarrow> do {
                    cfg \<leftarrow> Store_GetPostgreSQLConfig E;
                    return (writeJSON 200 (VObj [(''message'', VStr ''configuration updated''),
                      (''version'', VInt (pc_Version cfg)), (''parameters'', VMap VStr (pc_Parameters cfg))])) } } })"

definition deletes :: "string list \<Rightarrow> string gomap" where
  "deletes names = Some (fold (\<lambda>name m. fmupd name '''' m) names fmempty)"

definition postgresqlConfigDelete :: "'z api \<Rightarrow> env \<Rightarrow> 'r api_request_scheme \<Rightarrow> ('z, response) hact" where
  "postgresqlConfigDelete h E rq =
     (if \<not> h_raftStore h then return (error_reply 404 ''Raft store not configured'')
      else do {
        l \<leftarrow> IsLeader E;
        if \<not> l then do { addr \<leftarrow> LeaderAddr E; return (not_leader_reply addr) }
        else case decode_request dec_names \<lparr>nq_Parameters = []\<rparr> rq of
            Inl r \<Rightarrow> return r
          | Inr req \<Rightarrow>
              if nq_Parameters req = [] then return (error_reply 400 ''no parameters specified for deletion'')
              else do {
                err \<leftarrow> PatchPostgreSQLConfig E (deletes (nq_Parameters req)) (h_nodeName h);
                case err of
                  Some e \<Rightarrow> return (writeJSON 500 (VObj [(''error'', VErr ''failed to delete parameters: '' (OfStore e))]))
                | None \<Rightarrow> do {
                    cfg \<leftarrow> Store_GetPostgreSQLConfig E;
                    return (writeJSON 200 (VObj [(''message'', VStr ''parameters removed''),
                      (''version'', VInt (pc_Version cfg)), (''deleted'', VList (map VStr (nq_Parameters req))),
                      (''parameters'', VMap VStr (pc_Parameters cfg))])) } } })"

definition postgresqlConfigRouter :: "'z api \<Rightarrow> env \<Rightarrow> 'r api_request_scheme \<Rightarrow> ('z, response) hact" where
  "postgresqlConfigRouter h E rq =
     (if rq_Method rq = MethodGet then postgresqlConfig h E
      else if rq_Method rq = MethodPatch \<or> rq_Method rq = MethodPost then postgresqlConfigUpdate h E rq
      else if rq_Method rq = MethodDelete then postgresqlConfigDelete h E rq
      else return (http_Error ''method not allowed'' 405))"

section \<open>Server-sent events\<close>

definition sendClusterUpdate :: "'z api \<Rightarrow> env \<Rightarrow> ('z, val) hact" where
  "sendClusterUpdate h E = do {
     now \<leftarrow> time_Now E;
     primary \<leftarrow> src_GetPrimary (h_stateSource h);
     replicas \<leftarrow> src_GetReplicas (h_stateSource h);
     sb \<leftarrow> src_IsSplitBrain (h_stateSource h);
     let routingTable = [(''split_brain'', VBool sb)]
       @ (case primary of None \<Rightarrow> [] | Some p \<Rightarrow> [(''primary'', VStr (node_addr p))])
       @ [(''replicas'', VList (map (\<lambda>r. VStr (node_addr r)) replicas))];
     raft \<leftarrow> (if \<not> h_raftStore h then return []
       else do {
         st \<leftarrow> Store_RaftState E;
         leader \<leftarrow> LeaderAddr E;
         l \<leftarrow> IsLeader E;
         return [(''raft'', VObj [(''state'', VStr st), (''leader'', VStr leader), (''is_leader'', VBool l)])] });
     healthInfo \<leftarrow> (if \<not> h_healthChecker h then return []
       else do {
         status \<leftarrow> look E (k_status h);
         return [(''health'', VObj [(''healthy'', VBool (Healthy status)), (''is_in_recovery'', VBool (IsInRecovery status)),
           (''lag'', VInt (ReplicationLag status))])] });
     nodeInfos \<leftarrow> (if \<not> h_raftStore h then return []
       else do {
         ns \<leftarrow> read_fsm E (\<lambda>r. GetAllNodes);
         return [(''cluster_state'', VObj [(''nodes'', VMap nodeState (Some ns))])] });
     return (VObj ([(''type'', VStr ''cluster_update''), (''timestamp'', VStamp now),
       (''cluster'', VObj [(''routing_table'', VObj routingTable)])] @ raft @ healthInfo @ nodeInfos)) }"

text \<open>An update that cannot be encoded is not sent. The loop ends when the client is gone; \<open>Waiting\<close>
  is the stream that is still open.\<close>

definition sent :: "val \<Rightarrow> val list" where
  "sent v = (if encodable v then [v] else [])"

fun events_loop :: "'z api \<Rightarrow> env \<Rightarrow> nat \<Rightarrow> val list \<Rightarrow> ('z, response waited) hact" where
  "events_loop h E 0 vs = return waited.Waiting"
| "events_loop h E (Suc fuel) vs = do {
     gone \<leftarrow> ctx_Done E;
     if gone then return (Returned (Response 200 (Stream vs)))
     else do {
       v \<leftarrow> sendClusterUpdate h E;
       events_loop h E fuel (vs @ sent v) } }"

definition events :: "'z api \<Rightarrow> env \<Rightarrow> nat \<Rightarrow> bool \<Rightarrow> ('z, response waited) hact" where
  "events h E fuel is_flusher =
     (if \<not> is_flusher then return (Returned (http_Error ''streaming not supported'' 500))
      else do {
        v \<leftarrow> sendClusterUpdate h E;
        events_loop h E fuel (sent v) })"

section \<open>Routing table\<close>

datatype route =
    R_health | R_cluster | R_connections | R_reload
  | R_raftState | R_raftPeers | R_raftAddPeer | R_raftRemovePeer | R_raftDirectives | R_raftDirective
  | R_clusterState | R_clusterReplication | R_healthHistory | R_clusterFailover | R_clusterSwitchover
  | R_clusterReinitialize | R_clusterConfig | R_clusterPause | R_clusterResume | R_clusterProgress | R_nodes
  | R_postgresqlConfigRouter | R_events
  | R_patroniPatroni | R_patroniRoot | R_patroniPrimary | R_patroniReplica | R_patroniReadWrite | R_patroniReadOnly
  | R_patroniLeader | R_patroniConfig | R_patroniHistory
  | R_ui

definition registrations :: "(string \<times> string option \<times> route) list" where
  "registrations =
    [(''/health'', Some MethodGet, R_health),
     (''/cluster'', Some MethodGet, R_cluster),
     (''/connections'', Some MethodGet, R_connections),
     (''/reload'', Some MethodPost, R_reload),
     (''/raft/state'', Some MethodGet, R_raftState),
     (''/raft/peers'', Some MethodGet, R_raftPeers),
     (''/raft/add-peer'', Some MethodPost, R_raftAddPeer),
     (''/raft/remove-peer'', Some MethodPost, R_raftRemovePeer),
     (''/raft/directives'', Some MethodGet, R_raftDirectives),
     (''/raft/directives/'', Some MethodGet, R_raftDirective),
     (''/cluster/state'', Some MethodGet, R_clusterState),
     (''/cluster/replication'', Some MethodGet, R_clusterReplication),
     (''/cluster/health/history'', Some MethodGet, R_healthHistory),
     (''/cluster/failover'', Some MethodPost, R_clusterFailover),
     (''/cluster/switchover'', Some MethodPost, R_clusterSwitchover),
     (''/cluster/reinitialize'', Some MethodPost, R_clusterReinitialize),
     (''/cluster/config'', Some MethodGet, R_clusterConfig),
     (''/cluster/pause'', Some MethodPost, R_clusterPause),
     (''/cluster/resume'', Some MethodPost, R_clusterResume),
     (''/cluster/progress'', Some MethodGet, R_clusterProgress),
     (''/directives'', Some MethodGet, R_raftDirectives),
     (''/members'', Some MethodGet, R_raftPeers),
     (''/nodes'', Some MethodGet, R_nodes),
     (''/cluster/postgresql'', None, R_postgresqlConfigRouter),
     (''/events'', None, R_events),
     (''/patroni'', Some MethodGet, R_patroniPatroni),
     (''/patroni/'', Some MethodGet, R_patroniRoot),
     (''/primary'', Some MethodGet, R_patroniPrimary),
     (''/master'', Some MethodGet, R_patroniPrimary),
     (''/replica'', Some MethodGet, R_patroniReplica),
     (''/read-write'', Some MethodGet, R_patroniReadWrite),
     (''/read-only'', Some MethodGet, R_patroniReadOnly),
     (''/leader'', Some MethodGet, R_patroniLeader),
     (''/config'', Some MethodGet, R_patroniConfig),
     (''/history'', Some MethodGet, R_patroniHistory),
     (''/ui/'', None, R_ui)]"

definition apiMux :: "(pattern \<times> string option \<times> route) list" where
  "apiMux = map (\<lambda>(p, r). (parse_pattern p, r)) registrations"

definition returned :: "('w, response) state \<Rightarrow> ('w, response waited) state" where
  "returned m = do { r \<leftarrow> m; return (Returned r) }"

fun serve_route :: "'z api \<Rightarrow> env \<Rightarrow> nat \<Rightarrow> bool \<Rightarrow> 'r api_request_scheme \<Rightarrow> route \<Rightarrow> ('z, response waited) hact" where
  "serve_route h E fuel fl rq R_health = returned (health h E)"
| "serve_route h E fuel fl rq R_cluster = returned (cluster h)"
| "serve_route h E fuel fl rq R_connections = returned (connections h E)"
| "serve_route h E fuel fl rq R_reload = return (Returned reload)"
| "serve_route h E fuel fl rq R_raftState = returned (raftState h E)"
| "serve_route h E fuel fl rq R_raftPeers = returned (raftPeers h E)"
| "serve_route h E fuel fl rq R_raftAddPeer = returned (raftAddPeer h E rq)"
| "serve_route h E fuel fl rq R_raftRemovePeer = returned (raftRemovePeer h E rq)"
| "serve_route h E fuel fl rq R_raftDirectives = returned (raftDirectives h E rq)"
| "serve_route h E fuel fl rq R_raftDirective = returned (raftDirective h E rq)"
| "serve_route h E fuel fl rq R_clusterState = returned (clusterState h E)"
| "serve_route h E fuel fl rq R_clusterReplication = returned (clusterReplication h E)"
| "serve_route h E fuel fl rq R_healthHistory = returned (healthHistory h E rq)"
| "serve_route h E fuel fl rq R_clusterFailover = returned (clusterFailover h E rq)"
| "serve_route h E fuel fl rq R_clusterSwitchover = clusterSwitchover h E fuel rq"
| "serve_route h E fuel fl rq R_clusterReinitialize = returned (clusterReinitialize h E)"
| "serve_route h E fuel fl rq R_clusterConfig = returned (clusterConfig h E)"
| "serve_route h E fuel fl rq R_clusterPause = returned (clusterPause h)"
| "serve_route h E fuel fl rq R_clusterResume = returned (clusterResume h)"
| "serve_route h E fuel fl rq R_clusterProgress = returned (clusterProgress h E)"
| "serve_route h E fuel fl rq R_nodes = returned (nodes h E)"
| "serve_route h E fuel fl rq R_postgresqlConfigRouter = returned (postgresqlConfigRouter h E rq)"
| "serve_route h E fuel fl rq R_events = events h E fuel fl"
| "serve_route h E fuel fl rq R_patroniPatroni = returned (patroniPatroni h E)"
| "serve_route h E fuel fl rq R_patroniRoot = returned (patroniRoot h E)"
| "serve_route h E fuel fl rq R_patroniPrimary = returned (patroniPrimary h E)"
| "serve_route h E fuel fl rq R_patroniReplica = returned (patroniReplica h E)"
| "serve_route h E fuel fl rq R_patroniReadWrite = returned (patroniReadWrite h E)"
| "serve_route h E fuel fl rq R_patroniReadOnly = returned (patroniReadOnly h E)"
| "serve_route h E fuel fl rq R_patroniLeader = returned (patroniLeader h)"
| "serve_route h E fuel fl rq R_patroniConfig = return (Returned patroniConfig)"
| "serve_route h E fuel fl rq R_patroniHistory = return (Returned patroniHistory)"
| "serve_route h E fuel fl rq R_ui = return (Returned (h_ui h (URL_Path rq)))"

definition methodGuard :: "string \<Rightarrow> 'r api_request_scheme \<Rightarrow> ('w, response waited) state \<Rightarrow> ('w, response waited) state" where
  "methodGuard meth rq next =
     (if rq_Method rq \<noteq> meth then return (Returned (http_Error ''method not allowed'' 405)) else next)"

definition serve_mux :: "'z api \<Rightarrow> env \<Rightarrow> nat \<Rightarrow> bool \<Rightarrow> 'r api_request_scheme \<Rightarrow> ('z, response waited) hact" where
  "serve_mux h E fuel fl rq =
     (case findHandler apiMux rq of
        NotFound \<Rightarrow> return (Returned (http_Error ''404 page not found'' 404))
      | RedirectTo u \<Rightarrow> return (Returned (Response 301 (Location u)))
      | Serve (None, r) \<Rightarrow> serve_route h E fuel fl rq r
      | Serve (Some m, r) \<Rightarrow> methodGuard m rq (serve_route h E fuel fl rq r))"

section \<open>Middleware\<close>

record rateLimiter =
  rl_tokens :: rat
  rl_maxTokens :: rat
  rl_refillRate :: rat
  rl_lastRefill :: time

record aworld = mworld +
  limiter :: rateLimiter

definition newRateLimiter :: "rat \<Rightarrow> rat \<Rightarrow> time \<Rightarrow> rateLimiter" where
  "newRateLimiter maxTokens tokensPerSecond now =
     \<lparr>rl_tokens = maxTokens, rl_maxTokens = maxTokens, rl_refillRate = tokensPerSecond, rl_lastRefill = now\<rparr>"

definition allow_at :: "time \<Rightarrow> rateLimiter \<Rightarrow> bool \<times> rateLimiter" where
  "allow_at now r =
     (let elapsed = Seconds (time_sub now (rl_lastRefill r));
          t1 = float64 (rl_tokens r + float64 (elapsed * rl_refillRate r));
          t2 = (if t1 > rl_maxTokens r then rl_maxTokens r else t1);
          r1 = r\<lparr>rl_tokens := t2, rl_lastRefill := now\<rparr>
      in if t2 \<ge> 1 then (True, r1\<lparr>rl_tokens := float64 (t2 - 1)\<rparr>) else (False, r1))"

definition allow :: "env \<Rightarrow> ('z aworld_scheme, bool) state" where
  "allow E = do {
     now \<leftarrow> time_Now E;
     r \<leftarrow> gets limiter;
     let (ok, r') = allow_at now r;
     modify (limiter_update (\<lambda>_. r'));
     return ok }"

definition rateLimitMiddleware :: "env \<Rightarrow> ('z aworld_scheme, response waited) state \<Rightarrow> ('z aworld_scheme, response waited) state" where
  "rateLimitMiddleware E next = do {
     ok \<leftarrow> allow E;
     if \<not> ok then return (Returned (http_Error ''rate limit exceeded'' 429)) else next }"

definition protectedPaths :: "string list" where
  "protectedPaths = [''/raft/add-peer'', ''/raft/remove-peer'', ''/cluster/failover'', ''/cluster/switchover'',
     ''/cluster/reinitialize'', ''/cluster/pause'', ''/cluster/resume'', ''/cluster/postgresql'']"

definition requiresAuth :: "string \<Rightarrow> string \<Rightarrow> bool" where
  "requiresAuth meth path \<longleftrightarrow> meth \<noteq> MethodGet \<and> path \<in> set protectedPaths"

definition authMiddleware :: "string \<Rightarrow> 'r api_request_scheme \<Rightarrow> ('w, response waited) state \<Rightarrow> ('w, response waited) state" where
  "authMiddleware authToken rq next =
     (if \<not> requiresAuth (rq_Method rq) (URL_Path rq) then next
      else if authToken = '''' then next
      else let auth = rq_Authorization rq
        in if auth = '''' then return (Returned (error_reply 401 ''authorization required''))
           else if length auth < length ''Bearer '' \<or> take (length ''Bearer '') auth \<noteq> ''Bearer ''
           then return (Returned (error_reply 401 ''invalid authorization format, expected Bearer token''))
           else if drop (length ''Bearer '') auth \<noteq> authToken then return (Returned (error_reply 403 ''invalid token''))
           else next)"

text \<open>The request id: the client's, or 16 random hexadecimal digits, or the clock.\<close>

definition hex_digit :: "int \<Rightarrow> char" where
  "hex_digit n = (if n < 10 then char_of (48 + n) else char_of (87 + n))"

function show_hex :: "int \<Rightarrow> string" where
  "show_hex n = (if n < 16 then [hex_digit n] else show_hex (n div 16) @ [hex_digit (n mod 16)])"
  by pat_completeness auto
termination by (relation "measure nat") auto

declare show_hex.simps [simp del]

definition generateRequestID :: "'z api \<Rightarrow> env \<Rightarrow> ('z, string) hact" where
  "generateRequestID h E = do {
     b \<leftarrow> look E (k_random h);
     case b of
       Some bytes \<Rightarrow> return (concat (map (\<lambda>x. [hex_digit (x div 16), hex_digit (x mod 16)]) bytes))
     | None \<Rightarrow> do {
         now \<leftarrow> time_Now E;
         let n = wrap64 (now - 62135596800 * Second);
         return (if n < 0 then CHR ''-'' # show_hex (- n) else show_hex n) } }"

text \<open>The writer handed on has no method to flush: it wraps the server's writer in a struct that
  only has the methods of http.ResponseWriter.\<close>

definition statusWriter_is_flusher :: bool where "statusWriter_is_flusher = False"

definition requestLogger ::
    "'z api \<Rightarrow> env \<Rightarrow> 'r api_request_scheme \<Rightarrow> (bool \<Rightarrow> ('z mworld_scheme, response waited) state) \<Rightarrow>
     ('z mworld_scheme, string \<times> response waited) state" where
  "requestLogger h E rq next = do {
     requestID \<leftarrow> (if rq_RequestID rq = '''' then generateRequestID h E else return (rq_RequestID rq));
     start \<leftarrow> time_Now E;
     resp \<leftarrow> next statusWriter_is_flusher;
     duration \<leftarrow> time_Now E;
     return (requestID, resp) }"

text \<open>The chain as NewServer builds it; the token is the one the server was created with.\<close>

definition ServeHTTP ::
    "string \<Rightarrow> 'z aworld_scheme handlers \<Rightarrow> env \<Rightarrow> nat \<Rightarrow> 'r api_request_scheme \<Rightarrow>
     ('z aworld_scheme, string \<times> response waited) state" where
  "ServeHTTP authToken h E fuel rq =
     (if \<not> well_formed rq then return ('''', Returned (http_Error ''400 Bad Request'' 400))
      else requestLogger h E rq (\<lambda>fl.
        authMiddleware authToken rq
          (rateLimitMiddleware E
            (serve_mux h E fuel fl rq))))"

end
