(* ===== verification/ManagerProps.thy ===== *)
theory ManagerProps
  imports Manager
begin

text \<open>
  Correctness of the cluster manager: invariants over every sequence of turns and API
  calls, sticky fencing, self-fencing on loss of quorum, completion of directives, and
  runs that show where detection and selection go wrong.
\<close>

section \<open>Invariants of a node\<close>

lemma mworld_more:
  assumes "world.more w' = world.more (w :: 'z mworld_scheme)"
  shows "m_state w' = m_state w" "raftErrorBackoff w' = raftErrorBackoff w" "m_cfg w' = m_cfg w"
    "m_has_store w' = m_has_store w" "quorumLostAt w' = quorumLostAt w" "raftErrorCount w' = raftErrorCount w"
  using assms by (cases w; cases w'; simp)+

lemma arrive_mfields [simp]:
  fixes w :: "'z mworld_scheme"
  shows "m_state (arrive E w) = m_state w" "raftErrorBackoff (arrive E w) = raftErrorBackoff w" "m_cfg (arrive E w) = m_cfg w"
    "m_has_store (arrive E w) = m_has_store w" "quorumLostAt (arrive E w) = quorumLostAt w"
    "raftErrorCount (arrive E w) = raftErrorCount w" "m_has_failover (arrive E w) = m_has_failover w"
    "paused (arrive E w) = paused w" "lastRaftError (arrive E w) = lastRaftError w"
  by (simp_all add: arrive_def)

lemmas keeps_control = keeps_bind keeps_return keeps_gets keeps_get keeps_if keeps_option keeps_sum keeps_prod keeps_let

lemma stable_steps:
  assumes "stable I" and "I w"
  shows "I (arrive E w)" "I (w\<lparr>w_trace := w_trace w @ [e]\<rparr>)"
  by (rule stableD [OF assms]; auto simp: arrive_evolves evolves_def intro: exI [of _ "[]"])+

text \<open>
  The contract of an invariant of the node: events, effects that are only recorded and writes
  to the store keep it, and so do the controller's fields and the manager's bookkeeping.
  Everything the manager does other than changing its state then keeps it.
\<close>

locale node_invariant =
  fixes I :: "'z mworld_scheme \<Rightarrow> bool" and E :: env
  assumes arrives: "I w \<Longrightarrow> I (arrive E w)"
    and records: "I w \<Longrightarrow> (\<And>j. e \<noteq> Committed j) \<Longrightarrow> I (w\<lparr>w_trace := w_trace w @ [e]\<rparr>)"
    and writes: "keeps_inv I (write_command E cmd data)"
    and fo: "I w \<Longrightarrow> I (w\<lparr>failoverInFlight := a, activeDirectiveIDs := b, failoverStartTime := c, confirmationStart := d\<rparr>)"
    and slot: "I w \<Longrightarrow> I (w\<lparr>lastSlotCleanup := t\<rparr>)"
    and quorum: "I w \<Longrightarrow> I (w\<lparr>quorumLostAt := t\<rparr>)"
    and pause: "I w \<Longrightarrow> I (w\<lparr>paused := p\<rparr>)"
    and raft: "keeps_inv I (recordRaftError E err)"
begin

lemma events_here:
  "keeps_inv I (time_Now E)" "keeps_inv I (raft_State E)" "keeps_inv I (raft_LeaderWithID E)"
  "keeps_inv I (raft_Stats E)" "keeps_inv I (read_fsm E f)" "keeps_inv I (ctx_Done E)" "keeps_inv I (pg_Connect E)"
  "keeps_inv I (pg_QuerySlots E)" "keeps_inv I (executor_Run E a)" "keeps_inv I (pg_DropSlot E o' n)"
  using arrives records [OF arrives]
  by (simp_all add: keeps_inv_def executor_Run_def pg_DropSlot_def Let_def)

lemma store_here:
  "keeps_inv I (SetPrimary E n)" "keeps_inv I (UpdateNodeHealth E n)" "keeps_inv I (PublishDirective E dir)"
  "keeps_inv I (CompleteDirective E i e)" "keeps_inv I (Store_GetDirectivesForNode E nm)"
  "keeps_inv I (Store_GetDirective E i)" "keeps_inv I (IsLeader E)" "keeps_inv I (HasQuorum E dur)"
  unfolding store_writes store_reads by (intro keeps_control events_here writes)+

lemma slots_here: "keeps_inv I (CleanupOrphanedSlots E hs)"
proof -
  have "keeps_inv I (cleanup_rows E m rows)" for m rows
  proof (induction rows)
    case (Cons row rows)
    then show ?case
      by (cases row) (auto simp: DropReplicationSlot_def intro!: keeps_control events_here)
  qed (simp add: keeps_return)
  then show ?thesis unfolding CleanupOrphanedSlots_def by (intro keeps_control events_here)
qed

lemma fo_fields:
  "I w \<Longrightarrow> I (w\<lparr>failoverInFlight := a, activeDirectiveIDs := b\<rparr>)"
  "I w \<Longrightarrow> I (failoverStartTime_update (\<lambda>_. c) w)"
  "I w \<Longrightarrow> I (confirmationStart_update (\<lambda>_. d) w)"
  "I w \<Longrightarrow> I (activeDirectiveIDs_update (\<lambda>_. b) w)"
  using fo [where w = w and a = a and b = b and c = "failoverStartTime w" and d = "confirmationStart w"]
    fo [where w = w and a = "failoverInFlight w" and b = "activeDirectiveIDs w" and c = c and d = "confirmationStart w"]
    fo [where w = w and a = "failoverInFlight w" and b = "activeDirectiveIDs w" and c = "failoverStartTime w" and d = d]
    fo [where w = w and a = "failoverInFlight w" and b = b and c = "failoverStartTime w" and d = "confirmationStart w"]
  by simp_all

lemmas keeps_here = keeps_control events_here store_here slots_here keeps_modify fo fo_fields slot quorum pause raft

lemma clearFailover_keeps: "keeps_inv I clearFailover"
  unfolding clearFailover_def by (intro keeps_here)

lemma startFailover_keeps: "keeps_inv I (startFailover E)"
  unfolding startFailover_def by (intro keeps_here)

lemma publishFailoverDirectives_keeps: "keeps_inv I (publishFailoverDirectives E p t)"
  unfolding publishFailoverDirectives_def publishFence_def by (intro keeps_here clearFailover_keeps)

lemma ExecuteFailover_keeps: "keeps_inv I (ExecuteFailover E p)" "keeps_inv I (ExecuteFailoverTo E p t)"
  unfolding ExecuteFailover_def ExecuteFailoverTo_def selectBestReplica_def
  by (intro keeps_here startFailover_keeps publishFailoverDirectives_keeps clearFailover_keeps)+

lemma ShouldFailover_keeps: "keeps_inv I (ShouldFailover E n)"
  unfolding ShouldFailover_def by (intro keeps_here)

lemma wait_keeps: "keeps_inv I (waitForDirective E n i)" "keeps_inv I (waitForReplicaSync E n r l)"
  by (induction n) (auto intro!: keeps_here)

lemma keeps_waited: "keeps_inv I m \<Longrightarrow> (\<And>x. keeps_inv I (f x)) \<Longrightarrow> keeps_inv I (case v of Waiting \<Rightarrow> m | Returned x \<Rightarrow> f x)"
  by (cases v) simp_all

lemma ExecuteSwitchover_keeps: "keeps_inv I (ExecuteSwitchover E n p t)"
  unfolding ExecuteSwitchover_def publishDemotePromote_def
  by (intro keeps_here keeps_waited startFailover_keeps clearFailover_keeps wait_keeps)

lemma MonitorDirectives_keeps: "keeps_inv I (MonitorDirectives E)"
proof -
  have "keeps_inv I (monitor_loop E el b ids d)" for el b ids d
    by (induction ids arbitrary: d) (auto intro!: keeps_here)
  then show ?thesis
    unfolding MonitorDirectives_def by (intro keeps_here clearFailover_keeps)
qed

lemma monitor_failover_keeps: "keeps_inv I (monitor_failover E)"
  unfolding monitor_failover_def by (intro keeps_here MonitorDirectives_keeps)

lemma completeDirectiveWithRetry_keeps: "keeps_inv I (completeDirectiveWithRetry E n i m)"
  by (induction n) (auto intro!: keeps_here)

lemma updateNodeHealthInFSM_keeps: "keeps_inv I (updateNodeHealthInFSM E s)"
  unfolding updateNodeHealthInFSM_def by (intro keeps_here)

lemma maybeCleanupOrphanedSlots_keeps: "keeps_inv I (maybeCleanupOrphanedSlots E)"
  unfolding maybeCleanupOrphanedSlots_def by (intro keeps_here)

lemma considers_failover_keeps: "keeps_inv I (considers_failover E)"
  unfolding considers_failover_def isRaftBackoff_def by (intro keeps_here)

lemma plain_directives_keep:
  "keeps_inv I (exec_checkpoint E c)" "keeps_inv I (exec_rewind E c d)" "keeps_inv I (exec_basebackup E c d)"
  unfolding exec_checkpoint_def exec_rewind_def exec_basebackup_def by (intro keeps_here)+

lemma setState_keeps:
  "(\<And>w. I w \<Longrightarrow> I (w\<lparr>m_state := s\<rparr>)) \<Longrightarrow> keeps_inv I (setState E s)"
  unfolding setState_def by (intro keeps_here) simp

end

locale node_invariant_any_state = node_invariant +
  assumes any_state: "I w \<Longrightarrow> I (w\<lparr>m_state := s\<rparr>)"
begin

lemma set_keeps: "keeps_inv I (setState E s)"
  by (rule setState_keeps) (rule any_state)

lemma executeDirective_keeps: "keeps_inv I (executeDirective E d)"
  unfolding executeDirective_def exec_fence_def exec_promote_def exec_demote_def
  by (intro keeps_here set_keeps plain_directives_keep)

lemma processDirectives_keeps: "keeps_inv I (processDirectives E)"
proof -
  have "keeps_inv I (process_loop E ds)" for ds
    by (induction ds) (auto intro!: keeps_here executeDirective_keeps completeDirectiveWithRetry_keeps)
  then show ?thesis unfolding processDirectives_def by (intro keeps_here)
qed

lemma checkPrimaryHealth_keeps: "keeps_inv I (checkPrimaryHealth E)"
  unfolding checkPrimaryHealth_def by (intro keeps_here set_keeps ShouldFailover_keeps ExecuteFailover_keeps)

lemma checkQuorumAndSelfFence_keeps: "keeps_inv I (checkQuorumAndSelfFence E)"
  unfolding checkQuorumAndSelfFence_def selfFence_def by (intro keeps_here set_keeps)

lemma evaluate_state_keeps: "keeps_inv I (evaluate_state E status s)"
  by (cases s)
    (auto simp: evaluate_state_def evaluate_replica_def Let_def
      intro!: keeps_here set_keeps considers_failover_keeps checkPrimaryHealth_keeps checkQuorumAndSelfFence_keeps)

lemma evaluate_keeps: "keeps_inv I (evaluate E status)"
  unfolding evaluate_def
  by (intro keeps_here processDirectives_keeps monitor_failover_keeps updateNodeHealthInFSM_keeps
      maybeCleanupOrphanedSlots_keeps evaluate_state_keeps)

lemma manual_keeps: "keeps_inv I (ManualFailover E t)" "keeps_inv I (ManualSwitchover E n t)"
  unfolding ManualFailover_def ManualSwitchover_def current_primary_def
  by (intro keeps_here set_keeps ExecuteFailover_keeps ExecuteSwitchover_keeps)+

lemma pause_keeps: "keeps_inv I Pause" "keeps_inv I Resume"
  unfolding Pause_def Resume_def by (rule keeps_modify, erule pause)+

end

section \<open>The node's invariant\<close>

definition backoffs :: "duration set" where
  "backoffs = {0, Second, 2 * Second, 4 * Second, 8 * Second, 16 * Second, 32 * Second}"

definition node_inv :: "'z mworld_scheme \<Rightarrow> bool" where
  "node_inv w \<longleftrightarrow> fsm_inv (w_fsm w) \<and> raftErrorBackoff w \<in> backoffs"

lemma backoff_doubles: "b \<in> backoffs \<Longrightarrow> (if b = 0 then Second else if b < 30 * Second then b * 2 else b) \<in> backoffs"
  by (auto simp: backoffs_def)

lemma node_inv_stable: "stable node_inv"
  by (auto simp: stable_def node_inv_def dest: mworld_more(2) intro: evolves_inv)

interpretation node: node_invariant_any_state node_inv E for E
proof unfold_locales
  show "keeps_inv node_inv (recordRaftError E e)" for e
    unfolding recordRaftError_def
    by (intro keeps_intros node_inv_stable keeps_modify)
      (auto simp: node_inv_def backoffs_def)
  show "keeps_inv node_inv (write_command E t data)" for t data by (rule write_command_keeps [OF node_inv_stable])
qed (use stable_steps [OF node_inv_stable] in \<open>auto simp: node_inv_def\<close>)

text \<open>What happens to a node: a turn of its manager's loop, or a call of the API.\<close>

inductive node_step :: "mworld \<Rightarrow> mworld \<Rightarrow> bool" where
  turn: "node_step w (snd (run_state (evaluate E status) w))"
| pause: "node_step w (snd (run_state Pause w))"
| resume: "node_step w (snd (run_state Resume w))"
| failover: "node_step w (snd (run_state (ManualFailover E t) w))"
| switchover: "node_step w (snd (run_state (ManualSwitchover E fuel t) w))"

inductive_cases node_stepE: "node_step w w'"

inductive reached :: "mworld \<Rightarrow> mworld \<Rightarrow> bool" for w0 where
  start: "reached w0 w0"
| step: "reached w0 w \<Longrightarrow> node_step w w' \<Longrightarrow> reached w0 w'"

lemma node_step_inv: "node_step w w' \<Longrightarrow> node_inv w \<Longrightarrow> node_inv w'"
  by (elim node_stepE)
    (simp_all add: keeps_invD node.evaluate_keeps node.manual_keeps node.pause_keeps)

text \<open>
  (C6) Whatever the environment does, on every state a node reaches the replicated state
  is well formed and the Raft error backoff is one of 0, 1, 2, 4, 8, 16 and 32 seconds.
\<close>

theorem node_reachable_inv:
  assumes "reached w0 w" and "fsm_inv (w_fsm w0)" and "raftErrorBackoff w0 = 0"
  shows "fsm_inv (w_fsm w) \<and> raftErrorBackoff w \<in> {0, Second, 2 * Second, 4 * Second, 8 * Second, 16 * Second, 32 * Second}"
proof -
  have "node_inv w0" using assms(2,3) by (simp add: node_inv_def backoffs_def)
  with assms(1) have "node_inv w" by (induction rule: reached.induct) (auto intro: node_step_inv)
  then show ?thesis by (simp add: node_inv_def backoffs_def)
qed

section \<open>States that hold\<close>

definition in_state :: "node_state \<Rightarrow> 'z mworld_scheme \<Rightarrow> bool" where
  "in_state s w \<longleftrightarrow> m_state w = s"

interpretation held: node_invariant "in_state s" E for s E
proof unfold_locales
  have stable: "stable (in_state s)" by (auto simp: stable_def in_state_def dest: mworld_more(1))
  then show "keeps_inv (in_state s) (write_command E t data)" for t data by (rule write_command_keeps)
  show "keeps_inv (in_state s) (recordRaftError E e)" for e
    unfolding recordRaftError_def by (intro keeps_intros stable keeps_modify) (auto simp: in_state_def)
qed (auto simp: in_state_def)

lemma executeDirective_held:
  assumes "d_Type d \<noteq> DirectivePromote" "d_Type d \<noteq> DirectiveDemote" "d_Type d = DirectiveFence \<Longrightarrow> s = StateFenced"
  shows "keeps_inv (in_state s) (executeDirective E d)"
proof -
  have "s = StateFenced \<Longrightarrow> keeps_inv (in_state s) (setState E StateFenced)"
    by (rule held.setState_keeps) (simp add: in_state_def)
  then have "d_Type d = DirectiveFence \<Longrightarrow> keeps_inv (in_state s) (exec_fence E c)" for c
    unfolding exec_fence_def using assms(3) by (auto intro!: held.keeps_here)
  with assms(1,2) show ?thesis
    unfolding executeDirective_def Let_def
    by (intro keeps_bind keeps_gets) (auto simp: held.plain_directives_keep keeps_return)
qed

lemma process_loop_held:
  assumes "\<And>d. d \<in> set ds \<Longrightarrow> d_Type d \<noteq> DirectivePromote \<and> d_Type d \<noteq> DirectiveDemote \<and>
    (d_Type d = DirectiveFence \<longrightarrow> s = StateFenced)"
  shows "keeps_inv (in_state s) (process_loop E ds)"
  using assms
  by (induction ds) (auto intro!: held.keeps_here executeDirective_held held.completeDirectiveWithRetry_keeps)

lemma processDirectives_held:
  fixes w :: "'z mworld_scheme"
  assumes "in_state s w" and "\<And>d. d \<in> set (GetDirectivesForNode (e_ranger E (w_k w)) (nc_Name (c_Node (m_cfg w)))
      (apply_log (e_arrive E (w_k w)) (w_fsm w))) \<Longrightarrow>
    d_Type d \<noteq> DirectivePromote \<and> d_Type d \<noteq> DirectiveDemote \<and> (d_Type d = DirectiveFence \<longrightarrow> s = StateFenced)"
  shows "in_state s (snd (run_state (processDirectives E) w))"
proof -
  have "in_state s (arrive E w)" using assms(1) by (simp add: in_state_def)
  moreover have "keeps_inv (in_state s) (process_loop E (GetDirectivesForNode (e_ranger E (w_k w))
      (nc_Name (c_Node (m_cfg w))) (apply_log (e_arrive E (w_k w)) (w_fsm w))))"
    by (rule process_loop_held) (rule assms(2))
  ultimately show ?thesis
    using assms(1) by (auto simp: processDirectives_def Store_GetDirectivesForNode_def dest: keeps_invD)
qed

lemma evaluate_held:
  fixes w :: "'z mworld_scheme"
  assumes s: "s \<in> {StateFenced, StateFailoverInProgress, StateDemoting, StatePromoting}" and "m_state w = s"
    and "\<And>d. d \<in> set (GetDirectivesForNode (e_ranger E (w_k w)) (nc_Name (c_Node (m_cfg w)))
      (apply_log (e_arrive E (w_k w)) (w_fsm w))) \<Longrightarrow>
    d_Type d \<noteq> DirectivePromote \<and> d_Type d \<noteq> DirectiveDemote \<and> (d_Type d = DirectiveFence \<longrightarrow> s = StateFenced)"
  shows "m_state (snd (run_state (evaluate E status) w)) = s"
proof -
  define w1 where "w1 = snd (run_state (processDirectives E) w)"
  define w2 where "w2 = snd (run_state (monitor_failover E) w1)"
  define w3 where "w3 = snd (run_state (updateNodeHealthInFSM E status) w2)"
  define w4 where "w4 = snd (run_state (maybeCleanupOrphanedSlots E) w3)"
  have "in_state s w1" unfolding w1_def by (rule processDirectives_held) (use assms in \<open>auto simp: in_state_def\<close>)
  then have 2: "in_state s w2" unfolding w2_def by (rule keeps_invD [OF held.monitor_failover_keeps])
  then have "in_state s w3" unfolding w3_def by (rule keeps_invD [OF held.updateNodeHealthInFSM_keeps])
  then have "in_state s w4" unfolding w4_def by (rule keeps_invD [OF held.maybeCleanupOrphanedSlots_keeps])
  moreover have "run_state (evaluate E status) w = run_state (evaluate_state E status (m_state w2)) w4"
    by (simp add: evaluate_def w1_def w2_def w3_def w4_def split: prod.split)
  moreover have "run_state (evaluate_state E status s) w4 = ((), w4)" using s by (auto simp: evaluate_state_def)
  ultimately show ?thesis using 2 by (simp add: in_state_def)
qed

text \<open>
  (C8) A fenced node stays fenced: whatever its health, its directives of other kinds and
  the rest of the cluster do, a turn leaves it fenced unless a promotion or a demotion of
  this very node is pending.
\<close>

theorem fenced_sticky:
  assumes "m_state w = StateFenced"
    and "\<forall>d \<in> set (GetDirectivesForNode (e_ranger E (w_k w)) (nc_Name (c_Node (m_cfg w)))
           (apply_log (e_arrive E (w_k w)) (w_fsm w))). d_Type d \<notin> {DirectivePromote, DirectiveDemote}"
  shows "m_state (snd (run_state (evaluate E status) w)) = StateFenced"
  using assms by (intro evaluate_held) auto

text \<open>
  The states of an operation in progress are left only by a directive for this node:
  without one a turn stays in FAILOVER_IN_PROGRESS, DEMOTING or PROMOTING whatever the
  health check says, also on the node that started a failover which is over.
\<close>

theorem transient_states_stuck:
  assumes "m_state w \<in> {StateFailoverInProgress, StateDemoting, StatePromoting}"
    and "GetDirectivesForNode (e_ranger E (w_k w)) (nc_Name (c_Node (m_cfg w)))
           (apply_log (e_arrive E (w_k w)) (w_fsm w)) = []"
  shows "m_state (snd (run_state (evaluate E status) w)) = m_state w"
  using assms by (intro evaluate_held) auto

section \<open>Self-fencing\<close>

lemma UpdateNodeHealth_more: "world.more (snd (run_state (UpdateNodeHealth E n) w)) = world.more w"
proof (cases "enc_NodeInfo n")
  case (Inr j)
  obtain err w' where "run_state (Store_apply E \<lparr>cmd_Type = CmdUpdateNodeHealth, cmd_Data = Some j\<rparr>) w = (err, w')"
    by fastforce
  with Inr Store_apply_cases(1) show ?thesis by (auto simp: UpdateNodeHealth_def write_command_def)
qed (simp add: UpdateNodeHealth_def write_command_def)

lemma UpdateNodeHealth_fields [simp]:
  "m_state (snd (run_state (UpdateNodeHealth E n) w)) = m_state w"
  "m_cfg (snd (run_state (UpdateNodeHealth E n) w)) = m_cfg w"
  "quorumLostAt (snd (run_state (UpdateNodeHealth E n) w)) = quorumLostAt w"
  by (rule mworld_more [OF UpdateNodeHealth_more])+

lemma setState_state: "m_state (snd (run_state (setState E s) w)) = s" "m_cfg (snd (run_state (setState E s) w)) = m_cfg w"
  by (simp_all add: setState_def split_def)

text \<open>Effects other than shell commands, as a write to the store may have.\<close>

definition no_command :: "event list \<Rightarrow> bool" where
  "no_command es \<longleftrightarrow> (\<forall>e \<in> set es. \<forall>a r. e \<noteq> Ran a r)"

lemma UpdateNodeHealth_trace:
  "\<exists>u. w_trace (snd (run_state (UpdateNodeHealth E n) w)) = w_trace w @ u \<and> no_command u"
  by (auto simp: UpdateNodeHealth_def write_command_def Store_apply_def raft_Apply_def no_command_def
      split: sum.split option.split prod.split)

lemma setState_trace: "\<exists>u. w_trace (snd (run_state (setState E s) w)) = w_trace w @ u \<and> no_command u"
proof -
  have "no_command []" by (simp add: no_command_def)
  then show ?thesis
    using UpdateNodeHealth_trace [where w = "arrive E (w\<lparr>m_state := s\<rparr>)"]
    by (simp add: setState_def split_def)
qed

lemma setState_quorum: "quorumLostAt (snd (run_state (setState E s) w)) = quorumLostAt w"
  by (simp add: setState_def split_def)

lemma selfFence_effect:
  assumes w'_def: "w' = snd (run_state (selfFence E) w)"
  shows "m_state w' = StateFenced" "quorumLostAt w' = quorumLostAt w"
    "\<exists>u err. w_trace w' = w_trace w @ u @ [Ran (stop_args (m_cfg w)) err] \<and> no_command u"
proof -
  obtain w1 where w1: "run_state (setState E StateFenced) w = ((), w1)" by (metis old.unit.exhaust surj_pair)
  then have "m_state w1 = StateFenced" "m_cfg w1 = m_cfg w" "quorumLostAt w1 = quorumLostAt w"
    "\<exists>u. w_trace w1 = w_trace w @ u \<and> no_command u"
    using setState_state [of E StateFenced w] setState_quorum [of E StateFenced w] setState_trace [of E StateFenced w] by simp_all
  then show "m_state w' = StateFenced" "quorumLostAt w' = quorumLostAt w"
    "\<exists>u err. w_trace w' = w_trace w @ u @ [Ran (stop_args (m_cfg w)) err] \<and> no_command u"
    unfolding w'_def by (auto simp: selfFence_def w1 executor_Run_def Let_def split: prod.splits)
qed

lemma HasQuorum_effect:
  assumes "run_state (HasQuorum E T) w = (q, w1)"
  shows "world.more w1 = world.more (w :: 'z mworld_scheme)" "w_trace w1 = w_trace w"
  using assms by (auto simp: HasQuorum_def LastContact_def split: if_splits)

text \<open>What a turn does before it looks at the node's state.\<close>

definition before_transition :: "env \<Rightarrow> HealthStatus \<Rightarrow> ('z, node_state) mact" where
  "before_transition E status = do {
     processDirectives E;
     monitor_failover E;
     currentState \<leftarrow> gets m_state;
     updateNodeHealthInFSM E status;
     maybeCleanupOrphanedSlots E;
     return currentState }"

lemma evaluate_split:
  "run_state (evaluate E status) w =
     (case run_state (before_transition E status) w of (st, w0) \<Rightarrow> run_state (evaluate_state E status st) w0)"
  by (simp add: evaluate_def before_transition_def split: prod.split)

lemma before_transition_state:
  assumes "run_state (before_transition E status) w = (st, w0)"
  shows "m_state w0 = st"
proof -
  define w2 where "w2 = snd (run_state (monitor_failover E) (snd (run_state (processDirectives E) w)))"
  define w3 where "w3 = snd (run_state (updateNodeHealthInFSM E status) w2)"
  have "in_state (m_state w2) w3"
    unfolding w3_def by (rule keeps_invD [OF held.updateNodeHealthInFSM_keeps]) (simp add: in_state_def)
  from keeps_invD [OF held.maybeCleanupOrphanedSlots_keeps this, of E]
  show ?thesis using assms by (auto simp: before_transition_def in_state_def w3_def w2_def split: prod.splits)
qed

text \<open>
  (C3) Split-brain protection, over a whole turn of a node that is a running primary when the
  turn looks at its state, and whose PostgreSQL is healthy and not in recovery. Without
  protection or store the rest of the turn does nothing. Otherwise the turn asks for quorum:
  with quorum a recorded loss is forgotten; without, the time of the loss is recorded if none is.
  The node is fenced, and PostgreSQL stopped by the one shell command of this part of the turn,
  exactly when quorum is missing and a loss recorded before has lasted the timeout. In all other
  cases the node remains a running primary and no command runs.
\<close>

theorem self_fence_exact:
  assumes "run_state (before_transition E status) w = (StateRunningPrimary, w0)"
    and "Healthy status" and "\<not> IsInRecovery status"
    and "run_state (evaluate E status) w = ((), w')"
  shows "let cfg = m_cfg w0; T = quorum_timeout cfg; (q, w1) = run_state (HasQuorum E T) w0;
             now = e_now E (w_k w1); lost = quorumLostAt w0
         in if \<not> IsSplitBrainProtectionEnabled (c_Failover cfg) \<or> \<not> m_has_store w0
            then w' = w0 \<and> m_state w' = StateRunningPrimary
            else quorumLostAt w' = (if q then zero_time else if IsZero lost then now else lost) \<and>
              (if \<not> q \<and> \<not> IsZero lost \<and> T \<le> time_sub now lost
               then m_state w' = StateFenced \<and>
                 (\<exists>u err. w_trace w' = w_trace w0 @ u @ [Ran (stop_args cfg) err] \<and> no_command u)
               else m_state w' = StateRunningPrimary \<and> w_trace w' = w_trace w0)"
proof -
  have w': "w' = snd (run_state (checkQuorumAndSelfFence E) w0)"
    using assms by (simp add: evaluate_split evaluate_state_def)
  obtain q w1 where q: "run_state (HasQuorum E (quorum_timeout (m_cfg w0))) w0 = (q, w1)" by fastforce
  have w1: "m_state w1 = m_state w0" "quorumLostAt w1 = quorumLostAt w0" "m_cfg w1 = m_cfg w0" "w_trace w1 = w_trace w0"
    using mworld_more [OF HasQuorum_effect(1) [OF q]] HasQuorum_effect(2) [OF q] by simp_all
  note fenced = selfFence_effect [OF refl, of E "arrive E w1", simplified w1 arrive_simps arrive_mfields]
  show ?thesis
    using fenced w1 before_transition_state [OF assms(1)]
    by (auto simp: w' checkQuorumAndSelfFence_def q Let_def split: prod.splits)
qed

section \<open>Directives on a node that does not lead\<close>

text \<open>The entries that reach the local replica from one event up to another.\<close>

definition arrivals :: "env \<Rightarrow> nat \<Rightarrow> nat \<Rightarrow> fsm_entry list" where
  "arrivals E i j = concat (map (e_arrive E) [i..<j])"

lemma arrivals_Suc: "i \<le> j \<Longrightarrow> arrivals E i (Suc j) = arrivals E i j @ e_arrive E j"
  by (simp add: arrivals_def)

lemma arrivals_append: "i \<le> j \<Longrightarrow> j \<le> k \<Longrightarrow> arrivals E i j @ arrivals E j k = arrivals E i k"
  using upt_add_eq_append [of i j "k - j"] by (simp add: arrivals_def flip: concat_append map_append)

text \<open>From \<open>w0\<close> on the node never led: its replica changed by other nodes' entries only, and
  it got nothing committed.\<close>

definition followed :: "env \<Rightarrow> 'z mworld_scheme \<Rightarrow> 'z mworld_scheme \<Rightarrow> bool" where
  "followed E w0 w \<longleftrightarrow> (\<forall>k. e_role E k \<noteq> Leader) \<and> w_k w0 \<le> w_k w \<and>
     w_fsm w = apply_log (arrivals E (w_k w0) (w_k w)) (w_fsm w0) \<and>
     (\<exists>t. w_trace w = w_trace w0 @ t \<and> (\<forall>j. Committed j \<notin> set t)) \<and> m_cfg w = m_cfg w0 \<and> m_has_store w = m_has_store w0"

lemma followed_refl: "\<forall>k. e_role E k \<noteq> Leader \<Longrightarrow> followed E w w"
  by (simp add: followed_def arrivals_def)

lemma followed_trans: "followed E w0 w1 \<Longrightarrow> followed E w1 w2 \<Longrightarrow> followed E w0 w2"
  unfolding followed_def
  by (auto simp: arrivals_append simp flip: fsm.run_append)

lemma followed_arrive: "followed E w0 w \<Longrightarrow> followed E w0 (arrive E w)"
  by (simp add: followed_def arrivals_Suc fsm.run_append)

lemma followed_writes: "keeps_inv (followed E w0) (write_command E cmd data)"
  unfolding keeps_inv_def
proof (intro allI impI)
  fix w assume w: "followed E w0 w"
  then have "e_role E (w_k w) \<noteq> Leader" by (simp add: followed_def)
  with followed_arrive [OF w] w show "followed E w0 (snd (run_state (write_command E cmd data) w))"
    by (simp add: write_command_def Store_apply_def split: sum.split)
qed

interpretation follow: node_invariant_any_state "followed E w0" E for E w0
proof unfold_locales
  show "keeps_inv (followed E w0) (recordRaftError E err)" for err
    unfolding recordRaftError_def
    by (intro keeps_control keeps_modify) (simp add: keeps_inv_def followed_arrive | simp add: followed_def)+
  show "followed E w0 (w\<lparr>w_trace := w_trace w @ [e]\<rparr>)" if "followed E w0 w" "\<And>j. e \<noteq> Committed j" for w e
    using that(1) that(2) [symmetric] by (fastforce simp: followed_def)
qed (simp_all add: followed_arrive followed_writes, auto simp: followed_def)

text \<open>The command of each kind of directive that it carries out first.\<close>

definition command_of :: "Config \<Rightarrow> Directive \<Rightarrow> string list option" where
  "command_of cfg d =
     (let t = d_Type d; pg = c_PostgreSQL cfg
      in if t = DirectiveFence \<or> t = DirectiveDemote then Some (stop_args cfg)
         else if t = DirectivePromote then Some (pg_ctl cfg [''promote'', ''-D'', pg_DataDir pg])
         else if t = DirectiveCheckpoint
         then Some [filepath_Join [pg_BinDir pg, ''psql''], ''-h'', ''localhost'', ''-p'', show_int (pg_Port pg), ''-U'',
                pg_Superuser pg, ''-c'', ''CHECKPOINT'']
         else if t = DirectiveRewind \<and> param d ''target_primary'' \<noteq> ''''
         then Some [filepath_Join [pg_BinDir pg, ''pg_rewind''], ''--target-pgdata='' @ pg_DataDir pg,
                ''--source-server='' @ ''host='' @ param d ''target_primary'' @ '' port='' @ show_int (pg_Port pg) @
                '' user='' @ pg_Superuser pg]
         else if t = DirectiveBasebackup \<and> param d ''primary_host'' \<noteq> ''''
         then Some (basebackup_args cfg (param d ''primary_host''))
         else None)"

definition ran :: "env \<Rightarrow> string list \<Rightarrow> 'z mworld_scheme \<Rightarrow> 'z mworld_scheme \<Rightarrow> bool" where
  "ran E c w0 w \<longleftrightarrow> followed E w0 w \<and> (\<exists>t err. w_trace w = w_trace w0 @ t \<and> Ran c err \<in> set t)"

lemma ran_after: "ran E c w0 w \<Longrightarrow> followed E w w' \<Longrightarrow> ran E c w0 w'"
  unfolding ran_def by (auto dest: followed_trans) (auto simp: followed_def)

lemma ran_before: "followed E w0 w \<Longrightarrow> ran E c w w' \<Longrightarrow> ran E c w0 w'"
  unfolding ran_def by (auto dest: followed_trans) (auto simp: followed_def)

lemma followed_self: "followed E w0 w \<Longrightarrow> followed E w w"
  by (simp add: followed_def arrivals_def)

text \<open>Actions that carry out a command, whatever they do before and after it.\<close>

definition carries_out :: "env \<Rightarrow> string list \<Rightarrow> 'z mworld_scheme \<Rightarrow> ('z, 'a) mact \<Rightarrow> bool" where
  "carries_out E c w0 m \<longleftrightarrow> (\<forall>w. followed E w0 w \<longrightarrow> ran E c w0 (snd (run_state m w)))"

lemma carries_Run:
  assumes "\<And>r w1. keeps_inv (followed E w1) (f r)"
  shows "carries_out E c w0 (State_Monad.bind (executor_Run E c) f)"
  unfolding carries_out_def
proof (intro allI impI)
  fix w assume w: "followed E w0 w"
  obtain r w1 where r: "run_state (executor_Run E c) w = (r, w1)" by fastforce
  have w1: "followed E w0 w1" using keeps_invD [OF follow.events_here(9) w] r by (metis snd_conv)
  have "w_trace w1 = w_trace w @ [Ran c (snd r)]" using r by (auto simp: executor_Run_def Let_def)
  with w w1 have "ran E c w0 w1" unfolding ran_def by (fastforce simp: followed_def)
  moreover have "followed E w1 (snd (run_state (f r) w1))" by (rule keeps_invD [OF assms followed_self [OF w1]])
  ultimately show "ran E c w0 (snd (run_state (State_Monad.bind (executor_Run E c) f) w))" using r by (simp add: ran_after)
qed

lemma carries_bind:
  assumes "keeps_inv (followed E w0) m" and "\<And>a. carries_out E c w0 (f a)"
  shows "carries_out E c w0 (State_Monad.bind m f)"
  using assms by (auto simp: carries_out_def keeps_inv_def split: prod.split)

lemma carries_then:
  assumes "carries_out E c w0 m" and "\<And>a w1. keeps_inv (followed E w1) (f a)"
  shows "carries_out E c w0 (State_Monad.bind m f)"
  unfolding carries_out_def
proof (intro allI impI)
  fix w assume w: "followed E w0 w"
  obtain r w1 where r: "run_state m w = (r, w1)" by fastforce
  with assms(1) w have w1: "ran E c w0 w1" by (metis carries_out_def snd_conv)
  then have "followed E w1 w1" by (simp add: ran_def followed_self [of E w0])
  from keeps_invD [OF assms(2) this] have "followed E w1 (snd (run_state (f r) w1))" .
  with w1 show "ran E c w0 (snd (run_state (State_Monad.bind m f) w))" using r by (simp add: ran_after)
qed

lemma carries_cfg: "carries_out E c w0 (f (m_cfg w0)) \<Longrightarrow> carries_out E c w0 (State_Monad.bind (gets m_cfg) f)"
  by (auto simp: carries_out_def followed_def)

lemma executeDirective_carries:
  assumes "command_of (m_cfg w0) d = Some c"
  shows "carries_out E c w0 (executeDirective E d)"
proof -
  note keep = keeps_control follow.keeps_here follow.set_keeps
  show ?thesis
    unfolding executeDirective_def Let_def
    using assms
    by (intro carries_cfg)
      (auto simp: command_of_def exec_fence_def exec_promote_def exec_demote_def exec_checkpoint_def
        exec_rewind_def exec_basebackup_def Let_def split: if_splits intro!: carries_Run carries_bind [OF follow.set_keeps] keep)
qed

lemma process_loop_carries:
  assumes "d \<in> set ds" and "command_of (m_cfg w0) d = Some c"
  shows "carries_out E c w0 (process_loop E ds)"
proof -
  have keep: "keeps_inv (followed E w1) (process_loop E ds')" for ds' and w1 :: "'a mworld_scheme"
    by (induction ds')
      (auto intro!: follow.keeps_here follow.executeDirective_keeps follow.completeDirectiveWithRetry_keeps)
  show ?thesis
    using assms(1)
  proof (induction ds)
    case (Cons d' ds)
    show ?case
    proof (cases "d' = d")
      case True
      with executeDirective_carries [OF assms(2)] show ?thesis
        by (auto intro!: carries_then keeps_bind follow.completeDirectiveWithRetry_keeps keep)
    next
      case False
      with Cons show ?thesis
        by (auto intro!: carries_bind follow.executeDirective_keeps follow.completeDirectiveWithRetry_keeps)
    qed
  qed simp
qed

text \<open>
  (C16) A node that never leads cannot report a directive as done. A turn of such a node carries
  out every directive that is pending for it when the turn reads them (its command is run), gets
  nothing committed, however often it retries, and ends with its replica changed by the entries
  that arrived during the turn and by nothing else. So, until another node's entry completes or
  replaces them, the same directives are pending at the next turn and are carried out again.
\<close>

theorem follower_repeats_directives:
  fixes w :: "'z mworld_scheme"
  assumes "\<forall>k. e_role E k \<noteq> Leader" and "m_has_store w"
    and "run_state (evaluate E status) w = ((), w')"
    and "ds = GetDirectivesForNode (e_ranger E (w_k w)) (nc_Name (c_Node (m_cfg w))) (w_fsm (arrive E w))"
  shows "w_fsm w' = apply_log (arrivals E (w_k w) (w_k w')) (w_fsm w) \<and>
    (\<exists>t. w_trace w' = w_trace w @ t \<and> (\<forall>j. Committed j \<notin> set t) \<and>
      (\<forall>d \<in> set ds. \<forall>c. command_of (m_cfg w) d = Some c \<longrightarrow> (\<exists>err. Ran c err \<in> set t)))"
proof -
  define w1 where "w1 = snd (run_state (processDirectives E) w)"
  have w: "followed E w w" by (rule followed_refl) (rule assms(1))
  have 1: "followed E w w1" unfolding w1_def by (rule keeps_invD [OF follow.processDirectives_keeps w])
  define rest :: "('z, unit) mact" where "rest = do {
      monitor_failover E; currentState \<leftarrow> gets m_state; updateNodeHealthInFSM E status;
      maybeCleanupOrphanedSlots E; evaluate_state E status currentState }"
  have "keeps_inv (followed E w1) rest"
    unfolding rest_def by (intro keeps_bind keeps_gets follow.monitor_failover_keeps follow.updateNodeHealthInFSM_keeps
        follow.maybeCleanupOrphanedSlots_keeps follow.evaluate_state_keeps)
  from keeps_invD [OF this followed_self [OF 1]] have 2: "followed E w1 w'"
    using assms(3) by (simp add: evaluate_def rest_def w1_def split_def)
  have ran: "ran E c w w'" if "d \<in> set ds" "command_of (m_cfg w) d = Some c" for d c
  proof (rule ran_after [OF _ 2])
    have "run_state (processDirectives E) w = run_state (process_loop E ds) (arrive E w)"
      using assms(2,4) by (simp add: processDirectives_def Store_GetDirectivesForNode_def)
    then show "ran E c w w1"
      using process_loop_carries [OF that, of E] followed_arrive [OF w] by (simp add: w1_def carries_out_def)
  qed
  from followed_trans [OF 1 2] obtain t where
    t: "w_trace w' = w_trace w @ t" "\<forall>j. Committed j \<notin> set t" "w_fsm w' = apply_log (arrivals E (w_k w) (w_k w')) (w_fsm w)"
    by (auto simp: followed_def)
  moreover from ran t(1) have "\<forall>d \<in> set ds. \<forall>c. command_of (m_cfg w) d = Some c \<longrightarrow> (\<exists>err. Ran c err \<in> set t)"
    unfolding ran_def by (metis same_append_eq)
  ultimately show ?thesis by blast
qed

section \<open>Concrete runs\<close>

definition ex_mconfig :: "string \<Rightarrow> int \<Rightarrow> Config" where
  "ex_mconfig name lag = zero_Config\<lparr>c_Node := \<lparr>nc_Name = name, nc_Address = name\<rparr>,
     c_PostgreSQL := (c_PostgreSQL zero_Config)\<lparr>pg_BinDir := ''/bin'', pg_DataDir := ''/pg'', pg_Port := 5432\<rparr>,
     c_Failover := \<lparr>fo_ConfirmationPeriod = 5 * Second, fo_MaxLagThreshold = lag, fo_FencingEnabled = None,
       fo_QuorumLossTimeout = 30 * Second, fo_SplitBrainProtection = None\<rparr>\<rparr>"

definition start_node :: "Config \<Rightarrow> node_state \<Rightarrow> FSMState \<Rightarrow> mworld" where
  "start_node cfg st s = \<lparr>w_k = 0, w_fsm = s, w_trace = [], f_cfg = cfg, f_has_store = True, failoverInFlight = False,
     activeDirectiveIDs = [], failoverStartTime = 0, confirmationStart = 0, m_cfg = cfg, m_has_store = True,
     m_has_failover = True, m_has_replication = False, m_state = st, paused = False, raftErrorCount = 0,
     raftErrorBackoff = 0, lastRaftError = 0, lastSlotCleanup = 0, quorumLostAt = 0\<rparr>"

definition ex_now :: time where "ex_now = 63900000000 * Second"

definition at_time :: "time \<Rightarrow> env" where
  "at_time t = quiet_env\<lparr>e_now := (\<lambda>_. t)\<rparr>"

definition replica_status :: "int \<Rightarrow> HealthStatus" where
  "replica_status lag = zero_HealthStatus\<lparr>Healthy := True, IsInRecovery := True, ReplicationLag := lag\<rparr>"

definition ex_cluster :: FSMState where
  "ex_cluster = NewClusterFSM\<lparr>PrimaryName := ''p'', Nodes := Some (fmap_of_list [
     (''p'', zero_NodeInfo\<lparr>ni_Name := ''p'', ni_Role := ''primary'', ni_LastSeen := ex_now\<rparr>),
     (''a'', zero_NodeInfo\<lparr>ni_Name := ''a'', ni_Role := ''replica'', ni_Lag := 900, ni_LastSeen := ex_now\<rparr>),
     (''b'', zero_NodeInfo\<lparr>ni_Name := ''b'', ni_Role := ''replica'', ni_Lag := 10, ni_LastSeen := ex_now\<rparr>)])\<rparr>"

definition heartbeat :: "time \<Rightarrow> json option" where
  "heartbeat t = ex_cmd CmdUpdateNodeHealth (JObj [(''name'', JStr ''p''), (''last_seen'', JTime t)])"

definition turn_at :: "time \<Rightarrow> int \<Rightarrow> mworld \<Rightarrow> mworld" where
  "turn_at t lag w = snd (run_state (evaluate (at_time t) (replica_status lag)) w)"

definition receive :: "time \<Rightarrow> mworld \<Rightarrow> mworld" where
  "receive t w = w\<lparr>w_fsm := snd (Apply t sorted_list_of_fset (heartbeat t) (w_fsm w))\<rparr>"

definition blip :: mworld where
  "blip = turn_at (ex_now + 106 * Second) 0 (turn_at (ex_now + 101 * Second) 0 (receive (ex_now + 100 * Second)
     (turn_at (ex_now + 6 * Second) 0 (start_node (ex_mconfig ''a'' 0) StateRunningReplica ex_cluster))))"

text \<open>
  The confirmation period is not restarted when the primary recovers: after one
  missed heartbeat that was followed by healthy ones, the next single finding starts a
  failover at once, with no confirmation.
\<close>

theorem confirmation_not_restarted:
  "failoverInFlight blip \<and> m_state blip = StateFailoverInProgress \<and>
   \<not> failoverInFlight (turn_at (ex_now + 106 * Second) 0
      (receive (ex_now + 100 * Second) (start_node (ex_mconfig ''a'' 0) StateRunningReplica ex_cluster)))"
  by code_simp

definition lagging :: mworld where
  "lagging = turn_at (ex_now + 12 * Second) 900 (turn_at (ex_now + 6 * Second) 0
     (start_node (ex_mconfig ''a'' 500) StateRunningReplica ex_cluster))"

definition selection :: "mworld \<Rightarrow> bool \<times> string option \<times> int option" where
  "selection w = (failoverInFlight w, map_option d_TargetNode (mget (Directives (w_fsm w)) (last (activeDirectiveIDs w))),
     map_option ni_Lag (mget (Nodes (w_fsm w)) ''b''))"

lemma lagging_selection: "selection lagging = (True, Some ''a'', Some 10)"
  by code_simp

text \<open>
  A state change reports a lag of zero: when the leader itself is a replica that falls
  behind its lag threshold in the turn in which it starts a failover, its own lag in the
  cluster state is zero at that moment, and it selects itself over a replica that is
  nearly up to date.
\<close>

theorem lagging_leader_selected:
  "failoverInFlight lagging \<and>
   map_option d_TargetNode (mget (Directives (w_fsm lagging)) (last (activeDirectiveIDs lagging))) = Some ''a'' \<and>
   map_option ni_Lag (mget (Nodes (w_fsm lagging)) ''b'') = Some 10"
  using lagging_selection by (simp add: selection_def)

definition fence_pending :: FSMState where
  "fence_pending = NewClusterFSM\<lparr>Directives := Some (fmap_of_list [(''f'', zero_Directive\<lparr>d_ID := ''f'',
     d_Type := DirectiveFence, d_TargetNode := ''a'', d_Status := DirectiveStatusPending\<rparr>)])\<rparr>"

definition follower_turn :: "mworld \<Rightarrow> mworld" where
  "follower_turn w = snd (run_state (evaluate (quiet_env\<lparr>e_now := (\<lambda>_. ex_now), e_role := (\<lambda>_. Follower)\<rparr>) zero_HealthStatus) w)"

theorem follower_repeats_directives_witness:
  "\<exists>err. Ran (stop_args (ex_mconfig ''a'' 0)) err \<in>
     set (w_trace (follower_turn (start_node (ex_mconfig ''a'' 0) StateRunningReplica fence_pending)))"
proof -
  let ?E = "quiet_env\<lparr>e_now := (\<lambda>_. ex_now), e_role := (\<lambda>_. Follower)\<rparr>"
  let ?w = "start_node (ex_mconfig ''a'' 0) StateRunningReplica fence_pending"
  have "map (command_of (m_cfg ?w)) (GetDirectivesForNode (e_ranger ?E (w_k ?w)) (nc_Name (c_Node (m_cfg ?w))) (w_fsm (arrive ?E ?w)))
      = [Some (stop_args (ex_mconfig ''a'' 0))]"
    by code_simp
  then obtain d where d: "d \<in> set (GetDirectivesForNode (e_ranger ?E (w_k ?w)) (nc_Name (c_Node (m_cfg ?w))) (w_fsm (arrive ?E ?w)))"
    "command_of (m_cfg ?w) d = Some (stop_args (ex_mconfig ''a'' 0))"
    by auto
  have "run_state (evaluate ?E zero_HealthStatus) ?w = ((), follower_turn ?w)" by (simp add: follower_turn_def prod_eq_iff)
  from follower_repeats_directives [OF _ _ this refl] d show ?thesis
    by (fastforce simp: start_node_def)
qed

theorem node_reachable_inv_witness:
  "raftErrorBackoff (follower_turn (start_node (ex_mconfig ''a'' 0) StateRunningReplica fence_pending)) \<in>
     {0, Second, 2 * Second, 4 * Second, 8 * Second, 16 * Second, 32 * Second}"
proof -
  let ?w = "start_node (ex_mconfig ''a'' 0) StateRunningReplica fence_pending"
  have "reached ?w (follower_turn ?w)" unfolding follower_turn_def by (rule reached.step [OF reached.start turn])
  moreover have "fsm_inv (w_fsm ?w)"
    by (auto simp: start_node_def fence_pending_def fsm_inv_def NewClusterFSM_def zero_FSMState_def zero_PostgreSQLConfig_def
        in_int64_def zero_Directive_def fmlookup_of_list)
  ultimately show ?thesis using node_reachable_inv by (auto simp: start_node_def)
qed

theorem fenced_sticky_witness:
  "m_state (follower_turn (start_node (ex_mconfig ''a'' 0) StateFenced fence_pending)) = StateFenced"
proof -
  let ?w = "start_node (ex_mconfig ''a'' 0) StateFenced fence_pending"
  let ?E = "quiet_env\<lparr>e_now := (\<lambda>_. ex_now), e_role := (\<lambda>_. Follower)\<rparr>"
  have "list_all (\<lambda>d. d_Type d \<noteq> DirectivePromote \<and> d_Type d \<noteq> DirectiveDemote)
      (GetDirectivesForNode (e_ranger ?E (w_k ?w)) (nc_Name (c_Node (m_cfg ?w))) (apply_log (e_arrive ?E (w_k ?w)) (w_fsm ?w)))"
    by code_simp
  then have "\<forall>d \<in> set (GetDirectivesForNode (e_ranger ?E (w_k ?w)) (nc_Name (c_Node (m_cfg ?w)))
      (apply_log (e_arrive ?E (w_k ?w)) (w_fsm ?w))). d_Type d \<notin> {DirectivePromote, DirectiveDemote}"
    by (simp add: list_all_iff)
  moreover have "m_state ?w = StateFenced" by (simp add: start_node_def)
  ultimately show ?thesis unfolding follower_turn_def by (rule fenced_sticky [rotated])
qed

theorem transient_states_stuck_witness:
  "m_state (turn_at ex_now 0 (start_node (ex_mconfig ''a'' 0) StateFailoverInProgress ex_cluster)) = StateFailoverInProgress"
proof -
  let ?w = "start_node (ex_mconfig ''a'' 0) StateFailoverInProgress ex_cluster"
  have "m_state ?w = StateFailoverInProgress" by (simp add: start_node_def)
  moreover have "GetDirectivesForNode (e_ranger (at_time ex_now) (w_k ?w)) (nc_Name (c_Node (m_cfg ?w)))
      (apply_log (e_arrive (at_time ex_now) (w_k ?w)) (w_fsm ?w)) = []" by code_simp
  ultimately show ?thesis
    unfolding turn_at_def using transient_states_stuck [of ?w "at_time ex_now" "replica_status 0"] by simp
qed

definition cut_off :: env where
  "cut_off = quiet_env\<lparr>e_now := (\<lambda>_. ex_now + 31 * Second), e_role := (\<lambda>_. Follower), e_leader := (\<lambda>_. '''')\<rparr>"

definition lost_quorum :: mworld where
  "lost_quorum = (start_node (ex_mconfig ''p'' 0) StateRunningPrimary ex_cluster)\<lparr>quorumLostAt := ex_now\<rparr>"

definition primary_status :: HealthStatus where
  "primary_status = zero_HealthStatus\<lparr>Healthy := True\<rparr>"

definition before_loss :: "node_state \<times> mworld" where
  "before_loss = run_state (before_transition cut_off primary_status) lost_quorum"

lemma before_loss_state:
  "fst before_loss = StateRunningPrimary"
  "(let w0 = snd before_loss; T = quorum_timeout (m_cfg w0); (q, w1) = run_state (HasQuorum cut_off T) w0
    in \<not> q \<and> IsSplitBrainProtectionEnabled (c_Failover (m_cfg w0)) \<and> m_has_store w0 \<and> \<not> IsZero (quorumLostAt w0) \<and>
      T \<le> time_sub (e_now cut_off (w_k w1)) (quorumLostAt w0))"
  by code_simp+

theorem self_fence_exact_witness:
  "m_state (snd (run_state (evaluate cut_off primary_status) lost_quorum)) = StateFenced"
proof -
  have "run_state (before_transition cut_off primary_status) lost_quorum = (StateRunningPrimary, snd before_loss)"
    using before_loss_state(1) by (simp add: before_loss_def prod_eq_iff)
  moreover have "Healthy primary_status" "\<not> IsInRecovery primary_status"
    by (simp_all add: primary_status_def zero_HealthStatus_def)
  moreover have "run_state (evaluate cut_off primary_status) lost_quorum =
      ((), snd (run_state (evaluate cut_off primary_status) lost_quorum))" by (simp add: prod_eq_iff)
  ultimately show ?thesis
    using self_fence_exact before_loss_state(2) by (fastforce simp: Let_def split: prod.splits)
qed

end
