(* ===== verification/ApiProps.thy ===== *)
theory ApiProps
  imports Api ManagerProps
begin

text \<open>
  What the API guarantees: only authorized requests change anything, the rate limiter admits
  what it promises despite floating-point rounding, and what the replies of the single
  endpoints mean.
\<close>

section \<open>Reading actions\<close>

definition quiet :: "'z world_scheme \<Rightarrow> 'z world_scheme \<Rightarrow> bool" where
  "quiet w w' \<longleftrightarrow> (\<exists>k es. w' = w\<lparr>w_k := k, w_fsm := apply_log es (w_fsm w)\<rparr>)"

definition reads :: "('z, 'a) act \<Rightarrow> bool" where
  "reads m \<longleftrightarrow> (\<forall>w. quiet w (snd (run_state m w)))"

named_theorems reads_intros \<open>actions that change nothing\<close>

lemma quiet_refl: "quiet w w"
  unfolding quiet_def by (rule exI [of _ "w_k w"], rule exI [of _ "[]"]) simp

lemma quiet_trans: "quiet u v \<Longrightarrow> quiet v w \<Longrightarrow> quiet u w"
proof -
  assume "quiet u v" "quiet v w"
  then obtain k es k' es' where v: "v = u\<lparr>w_k := k, w_fsm := apply_log es (w_fsm u)\<rparr>"
    and w: "w = v\<lparr>w_k := k', w_fsm := apply_log es' (w_fsm v)\<rparr>" by (auto simp: quiet_def)
  then have "w = u\<lparr>w_k := k', w_fsm := apply_log (es @ es') (w_fsm u)\<rparr>" by (simp add: fsm.run_append)
  then show ?thesis unfolding quiet_def by blast
qed

lemma arrive_quiet: "quiet w (arrive E w)"
  by (auto simp: quiet_def arrive_def)

lemma reads_bind [reads_intros]:
  "reads m \<Longrightarrow> (\<And>a. reads (f a)) \<Longrightarrow> reads (State_Monad.bind m f)"
  unfolding reads_def by (auto split: prod.splits intro: quiet_trans)

lemma reads_return [reads_intros]: "reads (return a)"
  by (simp add: reads_def quiet_refl)

lemma reads_gets [reads_intros]: "reads (gets f)"
  by (simp add: reads_def quiet_refl)

lemma reads_cases [reads_intros]:
  "reads m \<Longrightarrow> reads n \<Longrightarrow> reads (if b then m else n)"
  "reads m \<Longrightarrow> (\<And>x. reads (f x)) \<Longrightarrow> reads (case v of None \<Rightarrow> m | Some x \<Rightarrow> f x)"
  "(\<And>x. reads (g x)) \<Longrightarrow> (\<And>y. reads (g' y)) \<Longrightarrow> reads (case s of Inl x \<Rightarrow> g x | Inr y \<Rightarrow> g' y)"
  "(\<And>x y. reads (k x y)) \<Longrightarrow> reads (case p of (x, y) \<Rightarrow> k x y)"
  "(\<And>x. reads (l x)) \<Longrightarrow> reads (let x = e in l x)"
  by (simp_all split: option.split sum.split prod.split)

lemma reads_events [reads_intros]:
  "reads (time_Now E)" "reads (raft_State E)" "reads (raft_LeaderWithID E)" "reads (raft_Stats E)"
  "reads (raft_GetConfiguration E)" "reads (read_fsm E q)" "reads (ctx_Done E)" "reads (look E f)"
  by (simp_all add: reads_def arrive_quiet look_def)

lemma reads_store [reads_intros]:
  "reads (IsLeader E)" "reads (LeaderAddr E)" "reads (Store_RaftState E)" "reads (Store_Stats E)" "reads (Peers E)"
  "reads (Store_GetDirective E i)" "reads (Store_GetPostgreSQLConfig E)" "reads Manager_State" "reads IsPaused"
  unfolding store_reads Manager_State_def IsPaused_def by (intro reads_intros)+

section \<open>Read-only endpoints\<close>

fun mutates :: "string \<Rightarrow> route \<Rightarrow> bool" where
  "mutates meth R_postgresqlConfigRouter \<longleftrightarrow> meth \<in> {MethodPatch, MethodPost, MethodDelete}"
| "mutates meth r \<longleftrightarrow> r \<in> {R_raftAddPeer, R_raftRemovePeer, R_clusterFailover, R_clusterSwitchover, R_clusterReinitialize,
     R_clusterPause, R_clusterResume}"

text \<open>The contract of the state source: asking it changes nothing.\<close>

locale read_only_source =
  fixes h :: "'z api"
  assumes source_reads [reads_intros]: "reads (src_GetPrimary (h_stateSource h))"
      "reads (src_GetReplicas (h_stateSource h))" "reads (src_IsSplitBrain (h_stateSource h))"
begin

lemma reads_update [reads_intros]: "reads (sendClusterUpdate h E)"
  unfolding sendClusterUpdate_def by (intro reads_intros)

lemma reads_events_loop [reads_intros]: "reads (events_loop h E fuel vs)"
  by (induction fuel arbitrary: vs) (auto intro!: reads_intros)

lemma reads_plain:
  "reads (health h E)" "reads (cluster h)" "reads (connections h E)" "reads (raftState h E)" "reads (raftPeers h E)"
  "reads (raftDirectives h E rq)" "reads (raftDirective h E rq)" "reads (clusterState h E)" "reads (clusterReplication h E)"
  "reads (healthHistory h E rq)" "reads (clusterConfig h E)" "reads (clusterProgress h E)" "reads (nodes h E)"
  "reads (postgresqlConfig h E)" "reads (events h E fuel fl)"
  unfolding health_def cluster_def RoutingTable_def connections_def raftState_def raftPeers_def raftDirectives_def
    raftDirective_def clusterState_def clusterReplication_def healthHistory_def clusterConfig_def clusterProgress_def
    nodes_def postgresqlConfig_def events_def
  by (intro reads_intros)+

lemma reads_patroni:
  "reads (patroniRoot h E)" "reads (patroniPatroni h E)" "reads (patroniPrimary h E)" "reads (patroniReplica h E)"
  "reads (patroniReadWrite h E)" "reads (patroniReadOnly h E)" "reads (patroniLeader h)"
  unfolding patroniRoot_def patroniPatroni_def patroniReadWrite_def patroniPrimary_def patroniReplica_def
    patroniReadOnly_def patroniLeader_def
  by (intro reads_intros)+

lemma reads_route:
  assumes "\<not> mutates (rq_Method rq) r"
  shows "reads (serve_route h E fuel fl rq r)"
  using assms reads_plain reads_patroni
  by (cases r) (auto simp: returned_def postgresqlConfigRouter_def intro!: reads_intros)

lemma reads_request_id [reads_intros]: "reads (generateRequestID h E)"
  unfolding generateRequestID_def by (intro reads_intros)

end

interpretation api_source: read_only_source "h\<lparr>h_stateSource := RaftStateAdapter E\<rparr>" for h E
  by unfold_locales (simp_all add: RaftStateAdapter_def reads_events)

section \<open>Authorization\<close>

lemma mutates_post: "mutates meth r \<Longrightarrow> mutates MethodPost r"
  by (cases r) auto

lemma mux_protects:
  "list_all (\<lambda>((segs, multi), (m, r)). mutates MethodPost r \<longrightarrow>
     \<not> multi \<and> segs \<noteq> [] \<and> ''/'' \<notin> set segs \<and> CHR ''/'' # join_with ''/'' segs \<in> set protectedPaths \<and>
     (if r = R_postgresqlConfigRouter then m = None else m = Some MethodPost)) apiMux"
  by code_simp

text \<open>What reaches a handler that can change something needs authorization.\<close>

lemma mutation_requires_auth:
  assumes "well_formed rq" and "findHandler apiMux rq = Serve (m, r)" and "mutates (rq_Method rq) r"
  shows "URL_Path rq \<in> set protectedPaths \<and> (if r = R_postgresqlConfigRouter then m = None else m = Some MethodPost)"
proof -
  from assms(2) obtain segs multi where p: "((segs, multi), (m, r)) \<in> set apiMux"
    "multi \<or> path_segments (rq_EscapedPath rq) = segs" by (rule findHandler_serves)
  with mux_protects mutates_post [OF assms(3)]
  have "\<not> multi" "segs \<noteq> []" "''/'' \<notin> set segs" "CHR ''/'' # join_with ''/'' segs \<in> set protectedPaths"
    "if r = R_postgresqlConfigRouter then m = None else m = Some MethodPost"
    by (auto simp: list_all_iff)
  with p(2) literal_path [OF assms(1)] show ?thesis by metis
qed

lemma reads_mux:
  assumes "h_stateSource h = RaftStateAdapter E" and "well_formed rq" and "\<not> requiresAuth (rq_Method rq) (URL_Path rq)"
  shows "reads (serve_mux h E fuel fl rq)"
proof (cases "findHandler apiMux rq")
  case (Serve mr)
  obtain m r where mr: "mr = (m, r)" by fastforce
  have h: "h\<lparr>h_stateSource := RaftStateAdapter E\<rparr> = h" using assms(1) by simp
  show ?thesis
  proof (cases "mutates (rq_Method rq) r")
    case False
    have "reads (serve_route (h\<lparr>h_stateSource := RaftStateAdapter E\<rparr>) E fuel fl rq r)"
      by (rule api_source.reads_route [OF False])
    with h show ?thesis
      by (auto simp: serve_mux_def Serve mr methodGuard_def intro!: reads_intros split: option.split)
  next
    case True
    from mutation_requires_auth [OF assms(2) Serve [unfolded mr] True] assms(3) have "rq_Method rq = MethodGet"
      "if r = R_postgresqlConfigRouter then m = None else m = Some MethodPost" by (auto simp: requiresAuth_def)
    with True have "m = Some MethodPost" by (cases "r = R_postgresqlConfigRouter") auto
    with \<open>rq_Method rq = MethodGet\<close> show ?thesis
      by (auto simp: serve_mux_def Serve mr methodGuard_def intro!: reads_intros)
  qed
qed (auto simp: serve_mux_def intro!: reads_intros)

text \<open>The limiter is the only thing the chain itself changes.\<close>

definition api_quiet :: "'z aworld_scheme \<Rightarrow> 'z aworld_scheme \<Rightarrow> bool" where
  "api_quiet w w' \<longleftrightarrow> (\<exists>k es l. w' = w\<lparr>w_k := k, w_fsm := apply_log es (w_fsm w), limiter := l\<rparr>)"

lemma quiet_api_quiet:
  assumes "quiet w w'"
  shows "api_quiet w w'"
proof -
  obtain k es where "w' = w\<lparr>w_k := k, w_fsm := apply_log es (w_fsm w)\<rparr>" using assms by (auto simp: quiet_def)
  then have "w' = w\<lparr>w_k := k, w_fsm := apply_log es (w_fsm w), limiter := limiter w\<rparr>" by (cases w) simp
  then show ?thesis unfolding api_quiet_def by blast
qed

lemma api_quiet_trans: "api_quiet u v \<Longrightarrow> api_quiet v w \<Longrightarrow> api_quiet u w"
proof -
  assume "api_quiet u v" "api_quiet v w"
  then obtain k es l k' es' l' where v: "v = u\<lparr>w_k := k, w_fsm := apply_log es (w_fsm u), limiter := l\<rparr>"
    and w: "w = v\<lparr>w_k := k', w_fsm := apply_log es' (w_fsm v), limiter := l'\<rparr>" by (auto simp: api_quiet_def)
  then have "w = u\<lparr>w_k := k', w_fsm := apply_log (es @ es') (w_fsm u), limiter := l'\<rparr>"
    by (cases u) (simp add: fsm.run_append)
  then show ?thesis unfolding api_quiet_def by blast
qed

definition api_reads :: "('z aworld_scheme, 'a) state \<Rightarrow> bool" where
  "api_reads m \<longleftrightarrow> (\<forall>w. api_quiet w (snd (run_state m w)))"

lemma reads_api_reads: "reads m \<Longrightarrow> api_reads m"
  by (simp add: reads_def api_reads_def quiet_api_quiet)

lemma api_reads_bind:
  "api_reads m \<Longrightarrow> (\<And>a. api_reads (f a)) \<Longrightarrow> api_reads (State_Monad.bind m f)"
  unfolding api_reads_def by (auto split: prod.splits intro: api_quiet_trans)

lemma api_reads_limiter: "api_reads (modify (limiter_update f))"
  unfolding api_reads_def
proof
  fix w :: "'z aworld_scheme"
  have "limiter_update f w = w\<lparr>w_k := w_k w, w_fsm := apply_log [] (w_fsm w), limiter := f (limiter w)\<rparr>"
    by (cases w) simp
  then show "api_quiet w (snd (run_state (modify (limiter_update f)) w))" unfolding api_quiet_def run_modify snd_conv by blast
qed

lemma api_reads_rate_limit: "api_reads m \<Longrightarrow> api_reads (rateLimitMiddleware E m)"
  unfolding rateLimitMiddleware_def allow_def Let_def case_prod_beta
  by (intro api_reads_bind api_reads_limiter) (auto intro!: reads_api_reads reads_intros)

lemma authMiddleware_cases:
  assumes "authToken \<noteq> ''''" and "rq_Authorization rq \<noteq> ''Bearer '' @ authToken"
  shows "(\<exists>r. authMiddleware authToken rq next = return (Returned r) \<and> status_of r \<in> {401, 403}) \<or>
    authMiddleware authToken rq next = next \<and> \<not> requiresAuth (rq_Method rq) (URL_Path rq)"
proof -
  have "rq_Authorization rq = ''Bearer '' @ authToken"
    if "take (length ''Bearer '') (rq_Authorization rq) = ''Bearer ''"
      "drop (length ''Bearer '') (rq_Authorization rq) = authToken"
    using that append_take_drop_id [of "length ''Bearer ''" "rq_Authorization rq"] by metis
  with assms show ?thesis by (auto simp: authMiddleware_def Let_def writeJSON_def status_of_def)
qed

text \<open>
  (C25) No change without the token: when a token is configured, a request that does not carry
  it as its bearer token changes nothing but the rate limiter, whatever its method, path and
  encoding; the local copy of the replicated state changes by what other nodes commit only.
\<close>

theorem unauthorized_changes_nothing:
  assumes "authToken \<noteq> ''''" and "rq_Authorization rq \<noteq> ''Bearer '' @ authToken" and "h_stateSource h = RaftStateAdapter E"
    and "run_state (ServeHTTP authToken h E fuel rq) w = (reply, w')"
  shows "\<exists>k es l. w' = w\<lparr>w_k := k, w_fsm := apply_log es (w_fsm w), limiter := l\<rparr>"
proof -
  have h: "h\<lparr>h_stateSource := RaftStateAdapter E\<rparr> = h" using assms(3) by simp
  have "reads (generateRequestID (h\<lparr>h_stateSource := RaftStateAdapter E\<rparr>) E)" by (rule api_source.reads_request_id)
  then have ri: "reads (if rq_RequestID rq = '''' then generateRequestID h E else return (rq_RequestID rq))"
    using h by (auto intro: reads_intros)
  have "api_reads (authMiddleware authToken rq (rateLimitMiddleware E (serve_mux h E fuel fl rq)))" if "well_formed rq" for fl
    using authMiddleware_cases [OF assms(1,2), of "rateLimitMiddleware E (serve_mux h E fuel fl rq)"]
      api_reads_rate_limit [OF reads_api_reads [OF reads_mux [OF assms(3) that]]] reads_api_reads [OF reads_return] by metis
  then have "api_reads (ServeHTTP authToken h E fuel rq)"
    unfolding ServeHTTP_def requestLogger_def
    using reads_api_reads [OF ri]
    by (auto intro!: api_reads_bind reads_api_reads [OF reads_return] reads_api_reads [OF reads_events(1)])
  with assms(4) show ?thesis unfolding api_reads_def api_quiet_def by (metis snd_conv)
qed

section \<open>The rate limit\<close>

fun admitted :: "time list \<Rightarrow> rateLimiter \<Rightarrow> nat" where
  "admitted [] r = 0"
| "admitted (t # ts) r = (case allow_at t r of (ok, r') \<Rightarrow> (if ok then 1 else 0) + admitted ts r')"

definition limiter_ok :: "rateLimiter \<Rightarrow> bool" where
  "limiter_ok r \<longleftrightarrow> 0 \<le> rl_tokens r \<and> rl_tokens r \<le> 10 \<and> rl_maxTokens r = 10 \<and> rl_refillRate r = 5"

lemma Seconds_nonneg: "0 \<le> d \<Longrightarrow> 0 \<le> Seconds d"
  unfolding Seconds_def by (intro float64_nonneg add_nonneg_nonneg divide_nonneg_nonneg) (simp_all add: sgn_if)

text \<open>The rounding errors add up.\<close>

lemma seconds_arith: "(A::rat) \<le> s + s / 1000000000000000 + 1 / 1000000000000000000000000000000 \<Longrightarrow>
  B \<le> n + n / 1000000000000000 + 1 / 1000000000000000000000000000000 \<Longrightarrow>
  C \<le> B / 1000000000 + B / 1000000000 / 1000000000000000 + 1 / 1000000000000000000000000000000 \<Longrightarrow>
  S \<le> A + C + (A + C) / 1000000000000000 + 1 / 1000000000000000000000000000000 \<Longrightarrow>
  s \<le> 2 \<Longrightarrow> n \<le> 1000000000 \<Longrightarrow> S \<le> (s * 1000000000 + n) / 1000000000 + 2 / 100000000000000"
  by (simp add: field_simps)

lemma refill_arith: "(S::rat) \<le> d / 1000000000 + 2 / 100000000000000 \<Longrightarrow>
   inc \<le> S * 5 + S * 5 / 1000000000000000 + 1 / 1000000000000000000000000000000 \<Longrightarrow>
   t1 \<le> tok + inc + (tok + inc) / 1000000000000000 + 1 / 1000000000000000000000000000000 \<Longrightarrow>
   d \<le> 3000000000 \<Longrightarrow> t2 \<le> t1 \<Longrightarrow> 0 \<le> tok \<Longrightarrow> tok \<le> 10 \<Longrightarrow> d \<le> x \<Longrightarrow> t2 \<le> tok + 5 * x / 1000000000 + 5 / 10000000000000"
  by (simp add: field_simps)

lemma Seconds_upper:
  assumes "0 \<le> d" and "d < 3 * Second"
  shows "Seconds d \<le> of_int d / 1000000000 + 2 / 100000000000000"
proof -
  define s n where "s = d div Second" and "n = d mod Second"
  have sn: "0 \<le> s" "s \<le> 2" "0 \<le> n" "n < Second" "d = s * Second + n"
    using assms unfolding s_def n_def by (simp_all add: pos_imp_zdiv_nonneg_iff)
  have eq: "Seconds d = float64 (float64 (of_int s) + float64 (float64 (of_int n) / 1000000000))"
    using assms by (cases "d = 0") (simp_all add: Seconds_def s_def n_def)
  have r: "of_int d = of_int s * 1000000000 + (of_int n :: rat)" "(0::rat) \<le> of_int s" "of_int s \<le> (2::rat)"
    "(0::rat) \<le> of_int n" "of_int n < (1000000000::rat)"
    using sn by (simp_all add: sn(5) of_int_le_iff [of _ 2, where 'a = rat, simplified])
  define A B C where "A = float64 (of_int s)" and "B = float64 (of_int n)" and "C = float64 (B / 1000000000)"
  have nonneg: "0 \<le> A" "0 \<le> B" "0 \<le> C" using r by (auto simp: A_def B_def C_def intro!: float64_nonneg)
  have a: "A \<le> of_int s + of_int s / 1000000000000000 + 1 / 1000000000000000000000000000000" unfolding A_def by (intro float64_upper r)
  have b: "B \<le> of_int n + of_int n / 1000000000000000 + 1 / 1000000000000000000000000000000" unfolding B_def by (intro float64_upper r)
  have c: "C \<le> B / 1000000000 + B / 1000000000 / 1000000000000000 + 1 / 1000000000000000000000000000000"
    unfolding C_def using nonneg by (intro float64_upper) simp
  have "Seconds d \<le> A + C + (A + C) / 1000000000000000 + 1 / 1000000000000000000000000000000"
    unfolding eq A_def [symmetric] B_def [symmetric] C_def [symmetric] using nonneg by (intro float64_upper) simp
  from seconds_arith [OF a b c this] r show ?thesis by simp
qed

lemma allow_at_step:
  assumes "limiter_ok r" and "rl_lastRefill r \<le> now" and "allow_at now r = (ok, r')"
  shows "limiter_ok r' \<and> rl_lastRefill r' = now \<and>
    (if ok then 1 else 0) + rl_tokens r' \<le> rl_tokens r + 5 * of_int (now - rl_lastRefill r) / 1000000000 + 1 / 1000000000000 \<and>
    (if ok then 1 else 0) + rl_tokens r' \<le> 10 + 1 / 1000000000000"
proof -
  define d where "d = time_sub now (rl_lastRefill r)"
  define x where "x = (of_int (now - rl_lastRefill r) :: rat)"
  define inc where "inc = float64 (Seconds d * 5)"
  define t1 where "t1 = float64 (rl_tokens r + inc)"
  define t2 where "t2 = (if t1 > 10 then 10 else t1)"
  have d: "0 \<le> d" "d \<le> now - rl_lastRefill r" using assms(2) by (auto simp: d_def time_sub_def min_duration_def max_duration_def)
  then have dx: "(of_int d :: rat) \<le> x" "0 \<le> x" using assms(2) by (simp_all only: x_def of_int_le_iff of_int_0_le_iff)
  have tok: "0 \<le> rl_tokens r" "rl_tokens r \<le> 10" "rl_maxTokens r = 10" "rl_refillRate r = 5"
    using assms(1) by (simp_all add: limiter_ok_def)
  have inc: "0 \<le> inc" unfolding inc_def using Seconds_nonneg [OF d(1)] by (intro float64_nonneg) simp
  have t1: "0 \<le> t1" unfolding t1_def using inc tok by (intro float64_nonneg) simp
  have t2: "0 \<le> t2" "t2 \<le> 10" using t1 by (simp_all add: t2_def)
  have refill: "t2 \<le> rl_tokens r + 5 * x / 1000000000 + 5 / 10000000000000"
  proof (cases "d < 3 * Second")
    case True
    have "inc \<le> Seconds d * 5 + Seconds d * 5 / 1000000000000000 + 1 / 1000000000000000000000000000000"
      unfolding inc_def using Seconds_nonneg [OF d(1)] by (intro float64_upper) simp
    moreover have "t1 \<le> rl_tokens r + inc + (rl_tokens r + inc) / 1000000000000000 + 1 / 1000000000000000000000000000000"
      unfolding t1_def using inc tok by (intro float64_upper) simp
    moreover have "(of_int d :: rat) \<le> 3000000000" using True by linarith
    moreover have "t2 \<le> t1" by (simp add: t2_def)
    ultimately show ?thesis by (intro refill_arith [OF Seconds_upper [OF d(1) True]] tok dx)
  next
    case False
    then have "(3000000000 :: rat) \<le> x" using dx(1) by linarith
    then show ?thesis using tok t2 by linarith
  qed
  have pay: "0 \<le> float64 (t2 - 1) \<and> float64 (t2 - 1) \<le> t2 - 1 + 1 / 10000000000000" if "1 \<le> t2"
  proof -
    have "float64 (t2 - 1) \<le> t2 - 1 + (t2 - 1) / 1000000000000000 + 1 / 1000000000000000000000000000000" using that by (intro float64_upper) simp
    with t2 show ?thesis using float64_nonneg [of "t2 - 1"] that by (simp add: field_simps)
  qed
  have a: "allow_at now r = (if 1 \<le> t2 then (True, r\<lparr>rl_tokens := float64 (t2 - 1), rl_lastRefill := now\<rparr>)
      else (False, r\<lparr>rl_tokens := t2, rl_lastRefill := now\<rparr>))"
    by (simp add: allow_at_def Let_def t2_def t1_def inc_def d_def tok)
  show ?thesis
  proof (cases "1 \<le> t2")
    case True
    with a assms(3) have "ok" "r' = r\<lparr>rl_tokens := float64 (t2 - 1), rl_lastRefill := now\<rparr>" by auto
    with pay [OF True] t2 tok refill show ?thesis by (simp add: limiter_ok_def x_def)
  next
    case False
    with a assms(3) have "\<not> ok" "r' = r\<lparr>rl_tokens := t2, rl_lastRefill := now\<rparr>" by auto
    with t2 tok refill show ?thesis by (simp add: limiter_ok_def x_def)
  qed
qed

lemma admitted_bound:
  "limiter_ok r \<Longrightarrow> sorted (rl_lastRefill r # ts) \<Longrightarrow>
     of_nat (admitted ts r) \<le> rl_tokens r + 5 * of_int (last (rl_lastRefill r # ts) - rl_lastRefill r) / 1000000000
       + of_nat (length ts) / 1000000000000"
proof (induction ts arbitrary: r)
  case (Cons t ts)
  obtain ok r' where a: "allow_at t r = (ok, r')" by fastforce
  have step: "limiter_ok r'" "rl_lastRefill r' = t"
    "(if ok then 1 else 0) + rl_tokens r' \<le> rl_tokens r + 5 * of_int (t - rl_lastRefill r) / 1000000000 + 1 / 1000000000000"
    using allow_at_step [OF Cons.prems(1) _ a] Cons.prems(2) by auto
  have "of_nat (admitted ts r') \<le> rl_tokens r' + 5 * of_int (last (t # ts) - t) / 1000000000 + of_nat (length ts) / 1000000000000"
    using Cons.IH [OF step(1)] Cons.prems(2) by (simp add: step(2))
  with step(3) show ?case by (simp add: a add_divide_distrib diff_divide_distrib split: if_splits)
qed (simp add: limiter_ok_def)

text \<open>The limiter after the requests at the given times.\<close>

definition limiter_after :: "time list \<Rightarrow> rateLimiter \<Rightarrow> rateLimiter" where
  "limiter_after ts r = fold (\<lambda>t r. snd (allow_at t r)) ts r"

lemma limiter_after_ok:
  "limiter_ok r \<Longrightarrow> sorted (rl_lastRefill r # ts) \<Longrightarrow>
   limiter_ok (limiter_after ts r) \<and> rl_lastRefill (limiter_after ts r) = last (rl_lastRefill r # ts)"
proof (induction ts arbitrary: r)
  case (Cons t ts)
  obtain ok r' where a: "allow_at t r = (ok, r')" by fastforce
  with allow_at_step [OF Cons.prems(1) _ a] Cons.prems Cons.IH [of r'] show ?case by (simp add: limiter_after_def)
qed (simp add: limiter_after_def)

text \<open>
  (C31) The rate limit holds in spite of rounding, over every stretch of the server's life: on a clock that
  does not run backwards, whatever requests came before, of n requests that arrive within t seconds
  the limiter admits at most 10 + 5 t, up to n millionths of a millionth; so never more than ten at
  one instant, however long the server was idle.
\<close>

theorem rate_limit_bound:
  assumes "sorted (t0 # before @ t # ts)"
  shows "of_nat (admitted (t # ts) (limiter_after before (newRateLimiter 10 5 t0))) \<le>
    10 + 5 * (of_int (last (t # ts) - t) :: rat) / 1000000000 + of_nat (length (t # ts)) / 1000000000000"
proof -
  define r where "r = limiter_after before (newRateLimiter 10 5 t0)"
  have new: "limiter_ok (newRateLimiter 10 5 t0)" "rl_lastRefill (newRateLimiter 10 5 t0) = t0"
    by (simp_all add: newRateLimiter_def limiter_ok_def)
  have "sorted (t0 # before)" "last (t0 # before) \<le> t" "sorted (t # ts)"
    using assms by (auto simp: sorted_append)
  with limiter_after_ok [OF new(1), of before] new(2) have r: "limiter_ok r" "rl_lastRefill r \<le> t" by (simp_all add: r_def)
  obtain ok r' where a: "allow_at t r = (ok, r')" by fastforce
  from allow_at_step [OF r a] have r': "limiter_ok r'" "rl_lastRefill r' = t"
    "(if ok then 1 else 0) + rl_tokens r' \<le> 10 + 1 / 1000000000000" by simp_all
  have "of_nat (admitted ts r') \<le> rl_tokens r' + 5 * of_int (last (t # ts) - t) / 1000000000 + of_nat (length ts) / 1000000000000"
    using admitted_bound [OF r'(1), of ts] \<open>sorted (t # ts)\<close> by (simp add: r'(2))
  with r'(3) show ?thesis
    by (simp add: r_def [symmetric] a add_divide_distrib diff_divide_distrib split: if_splits)
qed

theorem rate_limit_bound_witness:
  "of_nat (admitted (replicate 12 9000000000) (limiter_after [0, 1] (newRateLimiter 10 5 0))) \<le> (10 + 12 / 1000000000000 :: rat)"
  using rate_limit_bound [of 0 "[0, 1]" 9000000000 "replicate 11 9000000000"]
  by (simp add: sorted_replicate sorted_append numeral_eq_Suc)

section \<open>Configuration endpoint\<close>

text \<open>The change of the parameters a request asks for: an empty value deletes.\<close>

definition requested_patch :: "'r api_request_scheme \<Rightarrow> string gomap option" where
  "requested_patch rq =
     (if rq_Method rq = MethodDelete
      then (case decode_request dec_names \<lparr>nq_Parameters = []\<rparr> rq of
              Inr req \<Rightarrow> if nq_Parameters req = [] then None
                else Some (Some (fmap_of_list (map (\<lambda>name. (name, '''')) (nq_Parameters req)))) | Inl _ \<Rightarrow> None)
      else (case decode_request dec_params \<lparr>pq_Parameters = None\<rparr> rq of
              Inr req \<Rightarrow> if map_is_empty (pq_Parameters req) then None else Some (pq_Parameters req) | Inl _ \<Rightarrow> None))"

lemma deletes_all: "deletes names = Some (fmap_of_list (map (\<lambda>name. (name, '''')) names))"
proof -
  have "fmlookup (fold (\<lambda>name. fmupd name '''') names m) k = (if k \<in> set names then Some '''' else fmlookup m k)"
    for k and m :: "(string, string) fmap"
    by (induction names arbitrary: m) auto
  moreover have "map_of (map (\<lambda>name. (name, '''')) names) k = (if k \<in> set names then Some ('''' :: string) else None)" for k
    by (induction names) auto
  ultimately show ?thesis by (auto simp: deletes_def fmlookup_of_list intro!: fmap_ext)
qed

definition patched :: "string \<Rightarrow> string gomap \<Rightarrow> FSMState \<Rightarrow> FSMState \<Rightarrow> bool" where
  "patched author patch s s' \<longleftrightarrow>
     (\<forall>k. mget (pc_Parameters (PgConfig s')) k =
        (case mget patch k of None \<Rightarrow> mget (pc_Parameters (PgConfig s)) k | Some v \<Rightarrow> if v = '''' then None else Some v)) \<and>
     pc_Version (PgConfig s') = wrap64 (pc_Version (PgConfig s) + 1) \<and>
     pc_UpdatedBy (PgConfig s') = author \<and> s' = s\<lparr>PgConfig := PgConfig s'\<rparr>"

lemma later_fsm: "w_fsm (later E n w) = apply_log (arrivals E (w_k w) (w_k w + n)) (w_fsm w)"
proof (induction n arbitrary: w)
  case (Suc n)
  have "arrivals E (w_k w) (w_k w + Suc n) = e_arrive E (w_k w) @ arrivals E (Suc (w_k w)) (Suc (w_k w) + n)"
    by (simp add: arrivals_def upt_conv_Cons del: upt_Suc)
  then show ?case using Suc.IH [of "arrive E w"] by (simp add: fsm.run_append)
qed (simp add: arrivals_def)

text \<open>
  A write of a patch without an error: the entries of other nodes that came first, the patch, and those that came
  after it.
\<close>

lemma patch_lands:
  assumes "fsm_inv (w_fsm w)" and "\<And>k. is_ranger (e_ranger E k)"
    and "run_state (PatchPostgreSQLConfig E patch author) w = (err, w')"
  shows "if err = None
    then \<exists>s. patched author patch (w_fsm (later E 3 w)) s \<and> w_fsm w' = apply_log (e_arrive E (w_k w + 3)) s \<and> w_k w' = w_k w + 4
    else w_trace w' = w_trace w"
proof -
  let ?s = "w_fsm (later E 3 w)" and ?pp = "\<lparr>pp_Parameters = patch, pp_UpdatedBy = author\<rparr>"
  have run: "run_state (do_write E (WPatchPostgreSQLConfig patch author)) w = (err, w')" using assms(3) by simp
  have s: "apply_log (e_arrive E (w_k w) @ e_arrive E (w_k w + 1) @ e_arrive E (w_k w + 2)) (w_fsm w) = ?s"
    by (simp add: fsm.run_append numeral_3_eq_3 numeral_2_eq_2)
  have "err = None \<Longrightarrow> w_fsm w' = apply_log (e_arrive E (w_k w + 3))
      (snd (apply_PatchPostgreSQLConfig (e_now E (w_k w + 2)) (e_ranger E (w_k w + 2)) ?pp ?s))"
    and "err \<noteq> None \<Longrightarrow> w_trace w' = w_trace w"
    using write_refines [OF _ assms(1), of "WPatchPostgreSQLConfig patch author" E, unfolded Let_def run prod.case s write_effect.simps]
    by (simp_all only: write_ok.simps simp_thms)
  moreover have "err = None \<Longrightarrow> w_k w' = w_k w + 4"
    using do_write_spec [of "WPatchPostgreSQLConfig patch author" E w] run
    by (auto simp: write_spec_def Let_def split: if_splits option.splits prod.splits)
  moreover have "patched author patch ?s (snd (apply_PatchPostgreSQLConfig (e_now E (w_k w + 2)) (e_ranger E (w_k w + 2)) ?pp ?s))"
    using patch_effect [OF assms(2), of "e_now E (w_k w + 2)" "w_k w + 2" ?pp ?s] unfolding patched_def by (simp add: Let_def)
  ultimately show ?thesis by auto
qed

lemmas config_simps = IsLeader_def LeaderAddr_def Store_GetPostgreSQLConfig_def not_leader_reply_def writeJSON_def status_of_def
  requested_patch_def

lemma decode_request_400: "decode_request d z rq = Inl e \<Longrightarrow> status_of e = 400"
  by (auto simp: decode_request_def writeJSON_def status_of_def split: sum.splits)

text \<open>The change lands after four events of the handler, between what other nodes committed before and after.\<close>

definition config_ok :: "'z api \<Rightarrow> env \<Rightarrow> 'r api_request_scheme \<Rightarrow> 'z mworld_scheme \<Rightarrow> response \<Rightarrow> 'z mworld_scheme \<Rightarrow> bool" where
  "config_ok h E rq w r w' \<longleftrightarrow>
     (if status_of r = 200
      then \<exists>patch s. requested_patch rq = Some patch \<and> patched (h_nodeName h) patch (w_fsm (later E 4 w)) s \<and>
        w_fsm w' = apply_log (arrivals E (w_k w + 4) (w_k w')) s
      else w_trace w' = w_trace w)"

lemma config_landed:
  assumes "patched author patch (w_fsm (later E 3 (arrive E w))) s" "w_fsm w1 = apply_log (e_arrive E (Suc (w_k w) + 3)) s"
    "w_k w1 = Suc (w_k w) + 4"
  shows "patched author patch (w_fsm (later E 4 w)) s"
    "w_fsm (arrive E w1) = apply_log (arrivals E (w_k w + 4) (w_k (arrive E w1))) s"
proof -
  have "arrivals E (w_k w + 4) (Suc (Suc (Suc (w_k w) + 3))) = e_arrive E (w_k w + 4) @ e_arrive E (w_k w + 5)"
    by (simp add: arrivals_def upt_conv_Cons add.commute del: upt_Suc)
  with assms(2,3) show "w_fsm (arrive E w1) = apply_log (arrivals E (w_k w + 4) (w_k (arrive E w1))) s"
    by (simp add: fsm.run_append add.commute)
  have "later E 4 w = later E 3 (arrive E w)" by (simp add: numeral_eq_Suc)
  with assms(1) show "patched author patch (w_fsm (later E 4 w)) s" by simp
qed

lemma config_update_ok:
  assumes "fsm_inv (w_fsm w)" and r: "\<And>k. is_ranger (e_ranger E k)"
    and run: "run_state (postgresqlConfigUpdate h E rq) w = (r, w')" and m: "rq_Method rq \<noteq> MethodDelete"
  shows "config_ok h E rq w r w'"
proof (cases "decode_request dec_params \<lparr>pq_Parameters = None\<rparr> rq")
  case (Inl e)
  with decode_request_400 [OF Inl] run show ?thesis
    by (auto simp: config_ok_def postgresqlConfigUpdate_def config_simps split: if_splits)
next
  case (Inr req)
  have inv: "fsm_inv (w_fsm (arrive E w))" by (rule evolves_inv [OF arrive_evolves assms(1)])
  obtain err w1 where p: "run_state (PatchPostgreSQLConfig E (pq_Parameters req) (h_nodeName h)) (arrive E w) = (err, w1)" by fastforce
  from patch_lands [OF inv r p] config_landed [of "h_nodeName h" "pq_Parameters req" E w _ w1] run Inr p m show ?thesis
    by (fastforce simp: config_ok_def postgresqlConfigUpdate_def config_simps simp del: arrive_simps(2) split: if_splits option.splits)
qed

lemma config_delete_ok:
  assumes "fsm_inv (w_fsm w)" and r: "\<And>k. is_ranger (e_ranger E k)"
    and run: "run_state (postgresqlConfigDelete h E rq) w = (r, w')" and m: "rq_Method rq = MethodDelete"
  shows "config_ok h E rq w r w'"
proof (cases "decode_request dec_names \<lparr>nq_Parameters = []\<rparr> rq")
  case (Inl e)
  with decode_request_400 [OF Inl] run show ?thesis
    by (auto simp: config_ok_def postgresqlConfigDelete_def config_simps split: if_splits)
next
  case (Inr req)
  have inv: "fsm_inv (w_fsm (arrive E w))" by (rule evolves_inv [OF arrive_evolves assms(1)])
  obtain err w1 where p: "run_state (PatchPostgreSQLConfig E (deletes (nq_Parameters req)) (h_nodeName h)) (arrive E w) = (err, w1)" by fastforce
  from patch_lands [OF inv r p] config_landed [of "h_nodeName h" "deletes (nq_Parameters req)" E w _ w1] run Inr p m show ?thesis
    by (fastforce simp: config_ok_def postgresqlConfigDelete_def config_simps deletes_all simp del: arrive_simps(2) split: if_splits option.splits)
qed

text \<open>
  (C28) A reply of the configuration endpoint means what it says. On a well-formed replicated state,
  status 200 to PATCH, POST or DELETE means that one change was committed by this handler: the parameters
  as they were when it was applied (with all entries of other nodes that came first) changed as asked, in one
  new version signed with this node's name and nothing else changed; what the state is when the handler returns
  differs from that only by the entries that arrived afterwards. Any other status means that no commit by this
  node was acknowledged (a proposal that failed may still reach the log later).
\<close>

theorem config_endpoint:
  assumes "fsm_inv (w_fsm w)" and "\<And>k. is_ranger (e_ranger E k)"
    and "rq_Method rq \<in> {MethodPatch, MethodPost, MethodDelete}"
    and "run_state (postgresqlConfigRouter h E rq) w = (r, w')"
  shows "if status_of r = 200
    then \<exists>patch s. requested_patch rq = Some patch \<and> patched (h_nodeName h) patch (w_fsm (later E 4 w)) s \<and>
      w_fsm w' = apply_log (arrivals E (w_k w + 4) (w_k w')) s
    else w_trace w' = w_trace w"
proof -
  have "config_ok h E rq w r w'"
    using assms(3,4) config_update_ok [OF assms(1,2)] config_delete_ok [OF assms(1,2)]
    by (cases "rq_Method rq = MethodDelete") (force simp: postgresqlConfigRouter_def)+
  then show ?thesis unfolding config_ok_def .
qed

section \<open>Manual failover\<close>

text \<open>The effects of a report of this node's health.\<close>

definition health_report :: "event \<Rightarrow> bool" where
  "health_report e \<longleftrightarrow> (\<exists>n j. enc_NodeInfo n = Inr j \<and>
     e = Committed (projr (enc_FSMCommand \<lparr>cmd_Type = CmdUpdateNodeHealth, cmd_Data = Some j\<rparr>)))"

lemma UpdateNodeHealth_reports:
  "\<exists>u. w_trace (snd (run_state (UpdateNodeHealth E n) v)) = w_trace v @ u \<and> list_all health_report u"
proof (cases "enc_NodeInfo n")
  case (Inr j)
  obtain data where data: "enc_FSMCommand \<lparr>cmd_Type = CmdUpdateNodeHealth, cmd_Data = Some j\<rparr> = Inr data"
    using enc_FSMCommand_ok by blast
  then have "health_report (Committed data)" using Inr unfolding health_report_def by (metis sum.sel(2))
  then show ?thesis
    by (auto simp: UpdateNodeHealth_def write_command_def Store_apply_def raft_Apply_def Inr data split: option.split prod.split)
qed (simp add: UpdateNodeHealth_def write_command_def)

lemma setState_failover:
  assumes "run_state (setState E st) w = ((), w')"
  shows "f_cfg w' = f_cfg w \<and> failoverInFlight w' = failoverInFlight w \<and> (\<exists>u. w_trace w' = w_trace w @ u \<and> list_all health_report u)"
proof -
  have f: "f_cfg (snd (run_state (UpdateNodeHealth E n) v)) = f_cfg v"
    "failoverInFlight (snd (run_state (UpdateNodeHealth E n) v)) = failoverInFlight v" for n and v :: "'b fworld_scheme"
    by (rule more_fields [OF UpdateNodeHealth_more])+
  define n where "n = zero_NodeInfo\<lparr>ni_Name := nc_Name (c_Node (m_cfg w)), ni_State := state_string st, ni_LastSeen := e_now E (w_k w)\<rparr>"
  show ?thesis
    using assms UpdateNodeHealth_reports [of E n "arrive E (w\<lparr>m_state := st\<rparr>)"]
    by (auto simp: setState_def split_def f n_def split: if_splits)
qed

lemma current_primary_cases:
  assumes "run_state (current_primary E) w = (res, w1)"
  shows "f_cfg w1 = f_cfg w \<and> failoverInFlight w1 = failoverInFlight w \<and> w_trace w1 = w_trace w \<and>
    (\<forall>nm. res = Inr nm \<longrightarrow> (\<exists>p. GetPrimary (w_fsm (later E 2 w)) = Some p \<and> ni_Name p = nm))"
  using assms
  by (auto simp: current_primary_def IsLeader_def numeral_2_eq_2 split: if_splits option.splits)

lemma manual_failover_published:
  assumes "run_state (ManualFailover E target) w = (err, w')"
  shows "if err = None
    then \<exists>p now u. GetPrimary (w_fsm (later E 2 w)) = Some p \<and> failoverInFlight w' \<and> list_all health_report u \<and>
      w_trace w' = w_trace w @ u @ map (Committed \<circ> publish_entry)
        ((if IsFencingEnabled (c_Failover (f_cfg w)) then [fence_of (ni_Name p) now] else []) @ [promote_of target now])
    else failoverInFlight w' \<longrightarrow> failoverInFlight w"
proof -
  obtain res w1 where 1: "run_state (current_primary E) w = (res, w1)" by fastforce
  note c = current_primary_cases [OF 1]
  show ?thesis
  proof (cases res)
    case (Inl e)
    with assms 1 c show ?thesis by (auto simp: ManualFailover_def)
  next
    case (Inr nm)
    obtain w2 where 2: "run_state (setState E StateFailoverInProgress) w1 = ((), w2)"
        by (metis old.unit.exhaust surj_pair)
    note s2 = setState_failover [OF 2]
    obtain e w3 where 3: "run_state (ExecuteFailoverTo E nm target) w2 = (e, w3)" by fastforce
    note f3 = failover_published [where E = E and p = nm and t = target and w = w2, unfolded 3 prod.case]
    show ?thesis
    proof (cases e)
      case None
      with assms 1 Inr 2 3 have "err = None" "w' = w3" by (auto simp: ManualFailover_def)
      with f3 s2 c Inr None show ?thesis by (fastforce simp: Let_def)
    next
      case (Some x)
      obtain w4 where 4: "run_state (setState E StateRunningReplica) w3 = ((), w4)"
        by (metis old.unit.exhaust surj_pair)
      from assms 1 Inr 2 3 4 Some have "err \<noteq> None" "w' = w4" by (auto simp: ManualFailover_def)
      with f3 Some setState_failover [OF 4] show ?thesis by (auto simp: Let_def cleared_def)
    qed
  qed
qed

text \<open>
  (C29) Status 200 of the failover endpoint means that the promotion of the node asked for was committed, after,
  when fencing is on, the fencing of the node that the local replica had as primary when the handler read it, and that the
  failover is in flight; besides these the handler committed reports of this node's health at most. Any other reply
  leaves the controller idle if it was idle.
\<close>

theorem failover_endpoint:
  assumes "run_state (clusterFailover h E rq) w = (r, w')"
  shows "if status_of r = 200
    then \<exists>to p now u. read_request dec_to \<lparr>to_To = ''''\<rparr> rq = Inr \<lparr>to_To = to\<rparr> \<and> to \<noteq> '''' \<and>
      GetPrimary (w_fsm (later E 2 w)) = Some p \<and> failoverInFlight w' \<and> list_all health_report u \<and>
      w_trace w' = w_trace w @ u @ map (Committed \<circ> publish_entry)
        ((if IsFencingEnabled (c_Failover (f_cfg w)) then [fence_of (ni_Name p) now] else []) @ [promote_of to now])
    else failoverInFlight w' \<longrightarrow> failoverInFlight w"
proof (cases "h_clusterManager h")
  case False
  with assms show ?thesis by (auto simp: clusterFailover_def not_configured_def http_Error_def status_of_def)
next
  case True
  show ?thesis
  proof (cases "read_request dec_to \<lparr>to_To = ''''\<rparr> rq")
    case (Inl e)
    then have "status_of e = 400" by (auto simp: read_request_def writeJSON_def status_of_def split: sum.splits if_splits)
    with True Inl assms show ?thesis by (auto simp: clusterFailover_def)
  next
    case (Inr req)
    show ?thesis
    proof (cases "to_To req = ''''")
      case True
      with \<open>h_clusterManager h\<close> Inr assms show ?thesis by (auto simp: clusterFailover_def writeJSON_def status_of_def)
    next
      case to: False
      obtain err where m: "run_state (ManualFailover E (to_To req)) w = (err, w')" and r: "status_of r = 200 \<longleftrightarrow> err = None"
        using True Inr to assms
        by (auto simp: clusterFailover_def writeJSON_def status_of_def split: prod.splits option.splits)
      from manual_failover_published [OF m] show ?thesis using Inr to r by (cases req) (fastforce split: if_splits)
    qed
  qed
qed

section \<open>Probes of load balancers\<close>

lemma findHandler_literal:
  assumes "rq_Method rq \<noteq> ''CONNECT''" and "rq_EscapedPath rq = path"
    and "cleanPath path = path" and "\<not> slash_redirect apiMux path" and "tree_match apiMux path = Some (pat, h)"
  shows "findHandler apiMux rq = Serve h"
  using assms by (simp add: findHandler_def Let_def)

lemma probe_routes:
  assumes "rq_Method rq = MethodGet"
  shows "rq_EscapedPath rq = ''/primary'' \<Longrightarrow> findHandler apiMux rq = Serve (Some MethodGet, R_patroniPrimary)"
    "rq_EscapedPath rq = ''/replica'' \<Longrightarrow> findHandler apiMux rq = Serve (Some MethodGet, R_patroniReplica)"
    "rq_EscapedPath rq = ''/read-only'' \<Longrightarrow> findHandler apiMux rq = Serve (Some MethodGet, R_patroniReadOnly)"
proof -
  have m: "rq_Method rq \<noteq> ''CONNECT''" using assms by simp
  have "tree_match apiMux ''/primary'' = Some (([''primary''], False), (Some MethodGet, R_patroniPrimary))"
    "tree_match apiMux ''/replica'' = Some (([''replica''], False), (Some MethodGet, R_patroniReplica))"
    "tree_match apiMux ''/read-only'' = Some (([''read-only''], False), (Some MethodGet, R_patroniReadOnly))"
    "\<not> slash_redirect apiMux ''/primary''" "\<not> slash_redirect apiMux ''/replica''" "\<not> slash_redirect apiMux ''/read-only''"
    "cleanPath ''/primary'' = ''/primary''" "cleanPath ''/replica'' = ''/replica''" "cleanPath ''/read-only'' = ''/read-only''"
    by code_simp+
  note facts = this
  show "rq_EscapedPath rq = ''/primary'' \<Longrightarrow> findHandler apiMux rq = Serve (Some MethodGet, R_patroniPrimary)"
    by (rule findHandler_literal [OF m _ facts(7,4,1)])
  show "rq_EscapedPath rq = ''/replica'' \<Longrightarrow> findHandler apiMux rq = Serve (Some MethodGet, R_patroniReplica)"
    by (rule findHandler_literal [OF m _ facts(8,5,2)])
  show "rq_EscapedPath rq = ''/read-only'' \<Longrightarrow> findHandler apiMux rq = Serve (Some MethodGet, R_patroniReadOnly)"
    by (rule findHandler_literal [OF m _ facts(9,6,3)])
qed

text \<open>What the chain does before the handler: the events of the request id, the start time and the limiter.\<close>

definition id_events :: "'z api \<Rightarrow> 'r api_request_scheme \<Rightarrow> nat \<Rightarrow> nat" where
  "id_events h rq k = (if rq_RequestID rq \<noteq> '''' then 0 else if k_random h k = None then 2 else 1)"

lemma run_request_id:
  "snd (run_state (if rq_RequestID rq = '''' then generateRequestID h E else return (rq_RequestID rq)) w) = later E (id_events h rq (w_k w)) w"
  by (auto simp: id_events_def generateRequestID_def look_def Let_def numeral_2_eq_2 split: option.split)

lemma run_allow:
  "run_state (allow E) w = (let (ok, l) = allow_at (e_now E (w_k w)) (limiter w) in (ok, (arrive E w)\<lparr>limiter := l\<rparr>))"
proof -
  have "limiter (arrive E w) = limiter w" by (simp add: arrive_def)
  then show ?thesis by (auto simp: allow_def split: prod.split)
qed

lemma limiter_later: "limiter (later E n w) = limiter w"
  by (induction n arbitrary: w) (simp_all add: arrive_def)

text \<open>
  A request that needs no token, through the chain: the limiter decides at the clock reading of its event, and a
  request that it admits is served in the world of that moment.
\<close>

lemma serve_chain:
  fixes w :: "'z aworld_scheme"
  assumes "well_formed rq" and "authToken = '''' \<or> \<not> requiresAuth (rq_Method rq) (URL_Path rq)"
    and "run_state (ServeHTTP authToken h E fuel rq) w = ((rid, resp), w')"
  obtains l w2 where "allow_at (e_now E (w_k w + id_events h rq (w_k w) + 1)) (limiter w) = (False, l)"
      "resp = Returned (http_Error ''rate limit exceeded'' 429)" "w' = arrive E ((later E (id_events h rq (w_k w) + 2) w)\<lparr>limiter := l\<rparr>)"
  | l w2 where "allow_at (e_now E (w_k w + id_events h rq (w_k w) + 1)) (limiter w) = (True, l)"
      "run_state (serve_mux h E fuel False rq) ((later E (id_events h rq (w_k w) + 2) w)\<lparr>limiter := l\<rparr>) = (resp, w2)" "w' = arrive E w2"
proof -
  let ?n = "id_events h rq (w_k w)"
  obtain i where id: "run_state (if rq_RequestID rq = '''' then generateRequestID h E else return (rq_RequestID rq)) w = (i, later E ?n w)"
    using run_request_id [of rq h E w] by (metis prod.collapse)
  have step: "arrive E (later E m w) = later E (Suc m) w" for m
    using later_later [of E 1 m w] by simp
  have two: "later E (Suc (Suc ?n)) w = later E (?n + 2) w" by simp
  obtain ok l where al: "allow_at (e_now E (w_k w + ?n + 1)) (limiter w) = (ok, l)" by fastforce
  then have "run_state (allow E) (later E (Suc ?n) w) = (ok, (later E (?n + 2) w)\<lparr>limiter := l\<rparr>)"
    by (simp add: run_allow limiter_later step del: later.simps)
  moreover have "authMiddleware authToken rq m = m" for m :: "('z aworld_scheme, response waited) state"
    using assms(2) by (auto simp: authMiddleware_def)
  ultimately have run: "run_state (ServeHTTP authToken h E fuel rq) w =
      (case (if ok then run_state (serve_mux h E fuel False rq) ((later E (?n + 2) w)\<lparr>limiter := l\<rparr>)
             else (Returned (http_Error ''rate limit exceeded'' 429), (later E (?n + 2) w)\<lparr>limiter := l\<rparr>)) of
         (resp, w2) \<Rightarrow> ((i, resp), arrive E w2))"
    using assms(1)
    by (simp add: ServeHTTP_def requestLogger_def rateLimitMiddleware_def statusWriter_is_flusher_def id step split: prod.split del: later.simps)
  show ?thesis
  proof (cases ok)
    case True
    then show ?thesis using run assms(3) al that(2) by (auto split: prod.splits)
  next
    case False
    then show ?thesis using run assms(3) al that(1) by auto
  qed
qed

text \<open>
  (C30) What load balancers are told, through the whole chain of the server, on a node that has a health checker: a GET of /primary,
  /replica or /read-only is answered with 429 when the rate limiter refuses it, and otherwise by what the last health
  check found at that moment: 200 for /primary exactly when PostgreSQL is healthy and not in recovery, 200 for
  /replica and /read-only exactly when it is healthy and in recovery (so /read-only is 503 on a healthy
  primary, although the comment of its handler says any healthy node), and else 503. No token is needed.
\<close>

theorem probes_exact:
  assumes "h_healthChecker h" and "rq_Method rq = MethodGet"
    and "rq_EscapedPath rq \<in> {''/primary'', ''/replica'', ''/read-only''}"
    and "run_state (ServeHTTP authToken h E fuel rq) w = ((rid, resp), w')"
  shows "\<exists>r. resp = Returned r \<and>
    (let k = w_k w + id_events h rq (w_k w) + 1; status = k_status h (k + 1)
     in status_of r =
       (if \<not> fst (allow_at (e_now E k) (limiter w)) then 429
        else if Healthy status \<and> (IsInRecovery status \<longleftrightarrow> rq_EscapedPath rq \<noteq> ''/primary'') then 200 else 503))"
proof -
  have paths: "list_all (\<lambda>p. unescape p = Some p \<and> p \<notin> set protectedPaths) [''/primary'', ''/replica'', ''/read-only'']" by code_simp
  then have "well_formed rq" using assms(3) by (auto simp: well_formed_def pathUnescape_def)
  moreover have "\<not> requiresAuth (rq_Method rq) (URL_Path rq)" using assms(2) by (simp add: requiresAuth_def)
  ultimately show ?thesis
  proof (rule serve_chain [OF _ disjI2 assms(4)])
    fix l assume "allow_at (e_now E (w_k w + id_events h rq (w_k w) + 1)) (limiter w) = (False, l)"
      and "resp = Returned (http_Error ''rate limit exceeded'' 429)"
    then show ?thesis by (simp add: http_Error_def status_of_def Let_def)
  next
    fix l w2 assume ok: "allow_at (e_now E (w_k w + id_events h rq (w_k w) + 1)) (limiter w) = (True, l)"
      and run: "run_state (serve_mux h E fuel False rq) ((later E (id_events h rq (w_k w) + 2) w)\<lparr>limiter := l\<rparr>) = (resp, w2)"
    note simps = serve_mux_def methodGuard_def returned_def look_def writeJSON_def status_of_def assms(1)
    have k: "w_k ((later E (id_events h rq (w_k w) + 2) w)\<lparr>limiter := l\<rparr>) = w_k w + id_events h rq (w_k w) + 1 + 1" by simp
    consider "rq_EscapedPath rq = ''/primary''" | "rq_EscapedPath rq = ''/replica''" | "rq_EscapedPath rq = ''/read-only''"
      using assms(3) by auto
    then show ?thesis
    proof cases
      case 1
      with run probe_routes(1) [OF assms(2) 1] assms(2) ok show ?thesis
        by (auto simp: simps patroniPrimary_def k Let_def split: if_splits)
    next
      case 2
      with run probe_routes(2) [OF assms(2) 2] assms(2) ok show ?thesis
        by (auto simp: simps patroniReplica_def k Let_def split: if_splits)
    next
      case 3
      with run probe_routes(3) [OF assms(2) 3] assms(2) ok show ?thesis
        by (auto simp: simps patroniReadOnly_def k Let_def split: if_splits)
    qed
  qed
qed

section \<open>The event stream\<close>

text \<open>
  The event stream of the dashboard never starts: behind the request log the writer cannot
  flush, so every request for /events is refused with status 500 (or 429).
\<close>

theorem events_refused:
  assumes "rq_EscapedPath rq = ''/events''" and "rq_Method rq \<noteq> ''CONNECT''"
    and "run_state (ServeHTTP authToken h E fuel rq) w = ((rid, resp), w')"
  shows "\<exists>r. resp = Returned r \<and> status_of r \<in> {500, 429}"
proof -
  have f: "findHandler apiMux rq = Serve (None, R_events)"
  proof (rule findHandler_literal [OF assms(2,1)])
    show "tree_match apiMux ''/events'' = Some (([''events''], False), (None, R_events))" by code_simp
  qed code_simp+
  have "unescape ''/events'' = Some ''/events''" by code_simp
  moreover have "''/events'' \<notin> set protectedPaths" by code_simp
  ultimately have p: "well_formed rq" "\<not> requiresAuth (rq_Method rq) (URL_Path rq)"
    using assms(1) by (simp_all add: well_formed_def URL_Path_def pathUnescape_def requiresAuth_def)
  show ?thesis
    using assms(3) p f
    by (auto simp: ServeHTTP_def requestLogger_def authMiddleware_def rateLimitMiddleware_def serve_mux_def events_def
        statusWriter_is_flusher_def http_Error_def status_of_def split: prod.splits if_splits)
qed

section \<open>Concrete requests\<close>

definition ex_api :: "'z api" where
  "ex_api = \<lparr>h_stateSource = RaftStateAdapter quiet_env, h_raftStore = True, h_clusterManager = True, h_healthChecker = True,
     h_replication = True, h_progressTracker = True, h_configApplier = True, h_nodeName = ''n1'', k_owner = (\<lambda>_. False),
     k_tracker = (\<lambda>_. NewConnectionTracker), k_order = (\<lambda>_. sorted_list_of_fset), k_status = (\<lambda>_. replica_status 0),
     k_history = None, k_rewind = (\<lambda>_. idle_progress), k_applier = (\<lambda>_. NewConfigApplier True), k_random = (\<lambda>_. None),
     h_ui = (\<lambda>_. Aborted)\<rparr>"

definition ex_request :: "string \<Rightarrow> string \<Rightarrow> json \<Rightarrow> api_request" where
  "ex_request meth path j = \<lparr>rq_Method = meth, rq_EscapedPath = path, rq_Query = [], rq_Authorization = '''', rq_RequestID = ''r1'',
     rq_read_error = False, rq_document = Some j, rq_first = Inr j\<rparr>"

definition ex_aworld :: aworld where
  "ex_aworld = mworld.extend (start_node (ex_mconfig ''n1'' 0) StateRunningReplica ex_cluster) (aworld.fields (newRateLimiter 10 5 0))"

theorem unauthorized_changes_nothing_witness:
  "paused (snd (run_state (ServeHTTP ''s3cret'' ex_api quiet_env 0 (ex_request MethodPost ''/cluster/p%61use'' JNull)) ex_aworld)) = False"
proof -
  let ?rq = "ex_request MethodPost ''/cluster/p%61use'' JNull"
  let ?m = "run_state (ServeHTTP ''s3cret'' ex_api quiet_env 0 ?rq) ex_aworld"
  have "rq_Authorization ?rq \<noteq> ''Bearer '' @ ''s3cret''" "h_stateSource ex_api = RaftStateAdapter quiet_env"
    by (simp_all add: ex_request_def ex_api_def)
  from unauthorized_changes_nothing [OF _ this, of 0 ex_aworld "fst ?m" "snd ?m"]
  obtain k es l where "snd ?m = ex_aworld\<lparr>w_k := k, w_fsm := apply_log es (w_fsm ex_aworld), limiter := l\<rparr>" by auto
  moreover have "paused ex_aworld = False" by code_simp
  ultimately show ?thesis by simp
qed

definition ex_patch :: json where
  "ex_patch = JObj [(''parameters'', JObj [(''jit'', JStr ''off'')])]"

definition ex_config_run :: "response \<times> mworld" where
  "ex_config_run = run_state (postgresqlConfigRouter ex_api quiet_env (ex_request MethodPatch ''/cluster/postgresql'' ex_patch))
     (start_node (ex_mconfig ''n1'' 0) StateRunningReplica NewClusterFSM)"

theorem config_endpoint_witness:
  "mget (pc_Parameters (PgConfig (w_fsm (snd ex_config_run)))) ''jit'' = Some ''off''"
proof -
  let ?rq = "ex_request MethodPatch ''/cluster/postgresql'' ex_patch" and ?w = "start_node (ex_mconfig ''n1'' 0) StateRunningReplica NewClusterFSM"
  have "status_of (fst ex_config_run) = 200" by code_simp
  moreover have run: "run_state (postgresqlConfigRouter ex_api quiet_env ?rq) ?w = (fst ex_config_run, snd ex_config_run)"
    by (simp add: ex_config_run_def)
  have "fsm_inv (w_fsm ?w)" "rq_Method ?rq \<in> {MethodPatch, MethodPost, MethodDelete}"
    "is_ranger (e_ranger quiet_env k)" for k
    by (simp_all add: start_node_def fsm_inv_NewClusterFSM ex_request_def quiet_env_def ranger_sorted)
  note config_endpoint [OF this(1,3,2) run]
  moreover have "arrivals quiet_env i j = []" for i j by (simp add: arrivals_def quiet_env_def concat_eq_Nil_conv)
  ultimately obtain patch where "requested_patch ?rq = Some patch" "patched ''n1'' patch NewClusterFSM (w_fsm (snd ex_config_run))"
    by (auto simp: ex_api_def start_node_def later_fsm)
  moreover have "requested_patch ?rq = Some (Some (fmupd ''jit'' ''off'' fmempty))"
    by (simp add: requested_patch_def ex_request_def ex_patch_def decode_request_def dec_params_def dec_field_def key_matches_def
        map_is_empty_def)
  ultimately show ?thesis by (auto simp: patched_def)
qed

definition ex_failover_run :: "response \<times> mworld" where
  "ex_failover_run = run_state (clusterFailover ex_api quiet_env (ex_request MethodPost ''/cluster/failover'' (JObj [(''to'', JStr ''n2'')])))
     (start_node (ex_mconfig ''n1'' 0) StateRunningReplica ex_cluster)"

theorem failover_endpoint_witness: "failoverInFlight (snd ex_failover_run)"
proof -
  have "status_of (fst ex_failover_run) = 200" by code_simp
  then show ?thesis
    using failover_endpoint [of ex_api quiet_env "ex_request MethodPost ''/cluster/failover'' (JObj [(''to'', JStr ''n2'')])"
        "start_node (ex_mconfig ''n1'' 0) StateRunningReplica ex_cluster" "fst ex_failover_run" "snd ex_failover_run"]
    by (auto simp: ex_failover_run_def)
qed

text \<open>
  The target of a manual failover is not checked: asked to fail over to a node that does
  not exist, the endpoint answers 200 and the primary's fencing is pending.
\<close>

theorem failover_to_unknown_node:
  "fmlookup (GetAllNodes ex_cluster) ''n2'' = None \<and> status_of (fst ex_failover_run) = 200 \<and>
   map d_Type (GetDirectivesForNode sorted_list_of_fset ''p'' (w_fsm (snd ex_failover_run))) = [DirectiveFence]"
  by code_simp

theorem probes_exact_witness:
  "\<exists>r. snd (fst (run_state (ServeHTTP ''s3cret'' ex_api quiet_env 0 (ex_request MethodGet ''/replica'' JNull)) ex_aworld)) = Returned r \<and>
     status_of r \<in> {200, 429}"
proof -
  let ?rq = "ex_request MethodGet ''/replica'' JNull"
  let ?m = "run_state (ServeHTTP ''s3cret'' ex_api quiet_env 0 ?rq) ex_aworld"
  have "h_healthChecker ex_api" "rq_Method ?rq = MethodGet" "rq_EscapedPath ?rq \<in> {''/primary'', ''/replica'', ''/read-only''}"
    by (simp_all add: ex_api_def ex_request_def)
  from probes_exact [OF this, of "''s3cret''" quiet_env 0 ex_aworld "fst (fst ?m)" "snd (fst ?m)" "snd ?m"] show ?thesis
    by (auto simp: ex_api_def ex_request_def replica_status_def Let_def)
qed

theorem events_refused_witness:
  "\<exists>r. snd (fst (run_state (ServeHTTP '''' ex_api quiet_env 5 (ex_request MethodGet ''/events'' JNull)) ex_aworld)) = Returned r \<and>
     status_of r \<in> {500, 429}"
proof -
  let ?m = "run_state (ServeHTTP '''' ex_api quiet_env 5 (ex_request MethodGet ''/events'' JNull)) ex_aworld"
  show ?thesis
    using events_refused [of "ex_request MethodGet ''/events'' JNull" "''''" ex_api quiet_env 5 ex_aworld "fst (fst ?m)" "snd (fst ?m)" "snd ?m"]
    by (simp add: ex_request_def)
qed

end
