(* ===== verification/Cli.thy ===== *)
theory Cli
  imports ApiProps
begin

text \<open>
  The commands that talk to the local daemon (\<open>cmd/pgbastion/main.go\<close>): \<open>status\<close> and the commands that post
  to the API. The HTTP client is an argument, \<open>Post\<close> or \<open>Get\<close> from a URL to an error or a reply, in the state
  of whatever answers; a reply is a status and the first JSON value of its body, if there is one.
  \<open>local_server\<close> instantiates it with the API of this repository. A command returns its error and
  what it prints. Limits of time and the parsing of flags (cobra) are not modelled.
\<close>

section \<open>Commands\<close>

type_synonym reply = "int \<times> json option"

datatype cli_error =
    Required string
  | NotReachable string
  | Fetching string string
  | Decoding string
  | ServerError json
  | StatusFailed int

datatype cli_output = Println json | PrintIndented json | Line string

definition cliAPIPort :: "(string \<Rightarrow> load_error + Config) \<Rightarrow> string \<Rightarrow> int" where
  "cliAPIPort load cfgFile = (case load cfgFile of Inr cfg \<Rightarrow> ap_Port (c_API cfg) | Inl _ \<Rightarrow> 8080)"

definition baseURL :: "int \<Rightarrow> string" where
  "baseURL port = ''http://127.0.0.1:'' @ show_int port"

text \<open>What encoding/json makes of a value of type any: the last of equal keys counts, and the keys are
  sorted when it is printed again. Numbers become float64, which is exact up to 2 to the 53.\<close>

fun as_any :: "json \<Rightarrow> json" where
  "as_any (JArr js) = JArr (map as_any js)"
| "as_any (JObj kvs) = JObj (sorted_list_of_fmap (fmap_of_list (rev (map (\<lambda>kv. (fst kv, as_any (snd kv))) kvs))))"
| "as_any j = j"

definition dec_any_map :: "json gomap decoder" where
  "dec_any_map = dec_map (\<lambda>j _. Inr (as_any j)) JNull"

definition post_result :: "string + reply \<Rightarrow> cli_error option \<times> cli_output list" where
  "post_result r =
     (case r of Inl err \<Rightarrow> (Some (NotReachable err), [])
      | Inr (code, doc) \<Rightarrow> (case Unmarshal dec_any_map doc None of
          Inl _ \<Rightarrow> (Some (Decoding ''response''), [])
        | Inr result \<Rightarrow>
            if code \<ge> 400
            then (case mget result ''error'' of
                Some errMsg \<Rightarrow> (Some (ServerError errMsg), [])
              | None \<Rightarrow> (Some (StatusFailed code), []))
            else (case mget result ''status'' of
                Some status \<Rightarrow> (None, [Println status])
              | None \<Rightarrow> (None, [PrintIndented (case result of Some m \<Rightarrow> JObj (sorted_list_of_fmap m) | None \<Rightarrow> JNull)]))))"

definition cliPost ::
  "(string \<Rightarrow> load_error + Config) \<Rightarrow> string \<Rightarrow> (string \<Rightarrow> json option \<Rightarrow> ('w, string + reply) state) \<Rightarrow>
   string \<Rightarrow> json option \<Rightarrow> ('w, cli_error option \<times> cli_output list) state" where
  "cliPost load cfgFile Post endpoint body = do {
     r \<leftarrow> Post (baseURL (cliAPIPort load cfgFile) @ endpoint) body;
     return (post_result r) }"

text \<open>What a command posts: an endpoint and a body, or the flag it misses. The keys of a map are sorted.\<close>

type_synonym posting = "cli_error + string \<times> json option"

definition failoverCmd :: "string \<Rightarrow> posting" where
  "failoverCmd to = (if to = '''' then Inl (Required ''--to flag is required'')
     else Inr (''/cluster/failover'', Some (JObj [(''to'', JStr to)])))"

definition switchoverCmd :: "string \<Rightarrow> posting" where
  "switchoverCmd to = (if to = '''' then Inl (Required ''--to flag is required'')
     else Inr (''/cluster/switchover'', Some (JObj [(''to'', JStr to)])))"

definition reinitializeCmd :: "string \<Rightarrow> posting" where
  "reinitializeCmd node = Inr (''/cluster/reinitialize'', None)"

definition pauseCmd :: posting where "pauseCmd = Inr (''/cluster/pause'', None)"

definition resumeCmd :: posting where "resumeCmd = Inr (''/cluster/resume'', None)"

definition addNodeCmd :: "string \<Rightarrow> string \<Rightarrow> posting" where
  "addNodeCmd address name = (if address = '''' \<or> name = '''' then Inl (Required ''--name and --address flags are required'')
     else Inr (''/raft/add-peer'', Some (JObj [(''address'', JStr address), (''id'', JStr name)])))"

definition removeNodeCmd :: "string \<Rightarrow> posting" where
  "removeNodeCmd name = (if name = '''' then Inl (Required ''--name flag is required'')
     else Inr (''/raft/remove-peer'', Some (JObj [(''id'', JStr name)])))"

definition run_command ::
  "(string \<Rightarrow> load_error + Config) \<Rightarrow> string \<Rightarrow> (string \<Rightarrow> json option \<Rightarrow> ('w, string + reply) state) \<Rightarrow>
   posting \<Rightarrow> ('w, cli_error option \<times> cli_output list) state" where
  "run_command load cfgFile Post p =
     (case p of Inl err \<Rightarrow> return (Some err, []) | Inr (endpoint, body) \<Rightarrow> cliPost load cfgFile Post endpoint body)"

definition versionCmd :: "string \<Rightarrow> string \<Rightarrow> string \<Rightarrow> cli_output list" where
  "versionCmd version commit buildDate =
     [Line (''pgbastion '' @ version @ '' (commit: '' @ commit @ '', built: '' @ buildDate @ '')'')]"

section \<open>status\<close>

record health_reply =
  hr_Status :: string
  hr_Node :: string
  hr_Role :: string
  hr_SplitBrain :: bool
  hr_VIPOwner :: bool

record routing_reply =
  rr_Primary :: string
  rr_Replicas :: "string list"
  rr_SplitBrain :: bool

record cluster_reply = cr_RoutingTable :: routing_reply

record connections_reply =
  cn_ActiveConnections :: int
  cn_ByBackend :: "int gomap"

definition dec_health :: "health_reply decoder" where
  "dec_health = dec_struct [(''status'', dec_field hr_Status hr_Status_update dec_str),
     (''node'', dec_field hr_Node hr_Node_update dec_str), (''role'', dec_field hr_Role hr_Role_update dec_str),
     (''split_brain'', dec_field hr_SplitBrain hr_SplitBrain_update dec_bool),
     (''vip_owner'', dec_field hr_VIPOwner hr_VIPOwner_update dec_bool)]"

definition dec_routing :: "routing_reply decoder" where
  "dec_routing = dec_struct [(''primary'', dec_field rr_Primary rr_Primary_update dec_str),
     (''replicas'', dec_field rr_Replicas rr_Replicas_update dec_str_slice),
     (''split_brain'', dec_field rr_SplitBrain rr_SplitBrain_update dec_bool)]"

definition dec_cluster :: "cluster_reply decoder" where
  "dec_cluster = dec_struct [(''routing_table'', dec_field cr_RoutingTable cr_RoutingTable_update dec_routing)]"

definition dec_connections :: "connections_reply decoder" where
  "dec_connections = dec_struct [(''active_connections'', dec_field cn_ActiveConnections cn_ActiveConnections_update dec_int64),
     (''by_backend'', dec_field cn_ByBackend cn_ByBackend_update (dec_map dec_int64 0))]"

definition replica_lines :: "string list \<Rightarrow> string list" where
  "replica_lines rs = (case rs of [] \<Rightarrow> [''Replicas:    (none)'']
     | r # rest \<Rightarrow> (''Replicas:    '' @ r) # map (\<lambda>r. ''             '' @ r) rest)"

definition backend_line :: "int gomap \<Rightarrow> string \<Rightarrow> string" where
  "backend_line m backend = ''  '' @ backend @ '': '' @ show_int (case mget m backend of None \<Rightarrow> 0 | Some n \<Rightarrow> n)"

definition show_bool :: "bool \<Rightarrow> string" where
  "show_bool b = (if b then ''true'' else ''false'')"

definition status_lines :: "string ranger \<Rightarrow> health_reply \<Rightarrow> cluster_reply \<Rightarrow> connections_reply \<Rightarrow> string list" where
  "status_lines rg h c n =
     [''=== pgbastion status ==='', ''Node:        '' @ hr_Node h, ''Status:      '' @ hr_Status h, ''Role:        '' @ hr_Role h,
      ''VIP Owner:   '' @ show_bool (hr_VIPOwner h)]
     @ (if hr_SplitBrain h then [''SPLIT-BRAIN: *** DETECTED ***''] else [])
     @ ['''', ''=== routing table ==='',
        ''Primary:     '' @ (if rr_Primary (cr_RoutingTable c) \<noteq> '''' then rr_Primary (cr_RoutingTable c) else ''(none)'')]
     @ replica_lines (rr_Replicas (cr_RoutingTable c))
     @ ['''', ''=== connections: '' @ show_int (cn_ActiveConnections n) @ '' active ==='']
     @ map (backend_line (cn_ByBackend n)) (range_keys rg (cn_ByBackend n))"

definition decode_reply :: "string \<Rightarrow> 'a decoder \<Rightarrow> 'a \<Rightarrow> reply \<Rightarrow> cli_error + 'a" where
  "decode_reply what d z r = (case Unmarshal d (snd r) z of Inl _ \<Rightarrow> Inl (Decoding what) | Inr x \<Rightarrow> Inr x)"

text \<open>One request of \<open>status\<close> and the rest of the command, which runs when the reply was decoded.\<close>

definition fetch ::
  "(string \<Rightarrow> ('w, string + reply) state) \<Rightarrow> string \<Rightarrow> string \<Rightarrow> 'a decoder \<Rightarrow> 'a \<Rightarrow>
   ('a \<Rightarrow> ('w, cli_error option \<times> cli_output list) state) \<Rightarrow> ('w, cli_error option \<times> cli_output list) state" where
  "fetch Get base path d z rest = do {
     r \<leftarrow> Get (base @ path);
     case r of Inl err \<Rightarrow> return (Some (if path = ''/health'' then NotReachable err else Fetching path err), [])
     | Inr reply \<Rightarrow> (case decode_reply (path @ '' response'') d z reply of
           Inl e \<Rightarrow> return (Some e, []) | Inr x \<Rightarrow> rest x) }"

definition statusCmd ::
  "(string \<Rightarrow> load_error + Config) \<Rightarrow> string \<Rightarrow> (string \<Rightarrow> ('w, string + reply) state) \<Rightarrow> string ranger \<Rightarrow>
   ('w, cli_error option \<times> cli_output list) state" where
  "statusCmd load cfgFile Get rg =
     (let base = baseURL (cliAPIPort load cfgFile) in
      fetch Get base ''/health'' dec_health
        \<lparr>hr_Status = '''', hr_Node = '''', hr_Role = '''', hr_SplitBrain = False, hr_VIPOwner = False\<rparr> (\<lambda>h.
      fetch Get base ''/cluster'' dec_cluster \<lparr>cr_RoutingTable = \<lparr>rr_Primary = '''', rr_Replicas = [], rr_SplitBrain = False\<rparr>\<rparr> (\<lambda>c.
      fetch Get base ''/connections'' dec_connections \<lparr>cn_ActiveConnections = 0, cn_ByBackend = None\<rparr> (\<lambda>n.
      return (None, map Line (status_lines rg h c n))))))"

section \<open>The daemon at the other end\<close>

text \<open>\<open>message\<close> gives the text of an error that a reply carries.\<close>

fun json_of :: "(api_error \<Rightarrow> string) \<Rightarrow> val \<Rightarrow> json" where
  "json_of message VNull = JNull"
| "json_of message (VBool b) = JBool b"
| "json_of message (VInt i) = JInt i"
| "json_of message (VFloat x) = (if of_int \<lfloor>x\<rfloor> = x then JInt \<lfloor>x\<rfloor> else JFrac)"
| "json_of message (VStr s) = JStr s"
| "json_of message (VTime t) = JTime t"
| "json_of message (VStamp t) = JTime (Second * (t div Second))"
| "json_of message (VErr pre e) = JStr (pre @ message e)"
| "json_of message (VList vs) = JArr (map (json_of message) vs)"
| "json_of message (VObj kvs) = JObj (map (\<lambda>kv. (fst kv, json_of message (snd kv))) kvs)"

text \<open>Plain text is never a JSON object, and a reply that never comes is a timeout of the client.\<close>

definition received :: "(api_error \<Rightarrow> string) \<Rightarrow> response waited \<Rightarrow> string + reply" where
  "received message r = (case r of waited.Waiting \<Rightarrow> Inl ''Client.Timeout exceeded''
     | Returned Aborted \<Rightarrow> Inl ''EOF''
     | Returned (Response code body) \<Rightarrow> Inr (code, case body of Json v \<Rightarrow> Some (json_of message v) | _ \<Rightarrow> None))"

definition cli_request :: "string \<Rightarrow> string \<Rightarrow> json option \<Rightarrow> api_request" where
  "cli_request meth path body = \<lparr>rq_Method = meth, rq_EscapedPath = path, rq_Query = [], rq_Authorization = '''', rq_RequestID = '''',
     rq_read_error = False, rq_document = body, rq_first = (case body of None \<Rightarrow> Inl ''EOF'' | Some j \<Rightarrow> Inr j)\<rparr>"

definition local_server ::
  "int \<Rightarrow> string \<Rightarrow> 'z aworld_scheme handlers \<Rightarrow> env \<Rightarrow> nat \<Rightarrow> (api_error \<Rightarrow> string) \<Rightarrow> string \<Rightarrow>
   string \<Rightarrow> json option \<Rightarrow> ('z aworld_scheme, string + reply) state" where
  "local_server port authToken h E fuel message meth url body =
     (let base = baseURL port in
      if take (length base) url \<noteq> base then return (Inl ''connection refused'')
      else do {
        (requestID, resp) \<leftarrow> ServeHTTP authToken h E fuel (cli_request meth (drop (length base) url) body);
        return (received message resp) })"

section \<open>The commands against the API\<close>

abbreviation local_Post ::
  "(string \<Rightarrow> load_error + Config) \<Rightarrow> string \<Rightarrow> string \<Rightarrow> 'z aworld_scheme handlers \<Rightarrow> env \<Rightarrow> nat \<Rightarrow> (api_error \<Rightarrow> string) \<Rightarrow>
   string \<Rightarrow> json option \<Rightarrow> ('z aworld_scheme, string + reply) state" where
  "local_Post load cfgFile authToken h E fuel message \<equiv>
     local_server (cliAPIPort load cfgFile) authToken h E fuel message MethodPost"

definition is_command :: "posting \<Rightarrow> bool" where
  "is_command p \<longleftrightarrow> (\<exists>to. p = failoverCmd to) \<or> (\<exists>to. p = switchoverCmd to) \<or> (\<exists>node. p = reinitializeCmd node) \<or>
     p = pauseCmd \<or> p = resumeCmd \<or> (\<exists>address name. p = addNodeCmd address name) \<or> (\<exists>name. p = removeNodeCmd name)"

definition cli_paths :: "string list" where
  "cli_paths = [''/cluster/failover'', ''/cluster/switchover'', ''/cluster/reinitialize'', ''/cluster/pause'', ''/cluster/resume'',
     ''/raft/add-peer'', ''/raft/remove-peer'']"

lemma is_command_path: "is_command (Inr (path, body)) \<Longrightarrow> path \<in> set cli_paths"
  by (auto simp: is_command_def cli_paths_def failoverCmd_def switchoverCmd_def reinitializeCmd_def pauseCmd_def resumeCmd_def
      addNodeCmd_def removeNodeCmd_def split: if_splits)

lemma cli_paths_plain:
  "\<forall>path \<in> set cli_paths. unescape path = Some path \<and> hd path = CHR ''/'' \<and> path \<in> set protectedPaths"
  by code_simp

lemma cli_request_path:
  assumes "path \<in> set cli_paths"
  shows "well_formed (cli_request meth path body)" "URL_Path (cli_request meth path body) = path"
    "requiresAuth MethodPost path"
  using assms cli_paths_plain by (auto simp: cli_request_def well_formed_def URL_Path_def pathUnescape_def requiresAuth_def)

lemma run_posting:
  "run_command load cfgFile (local_Post load cfgFile authToken h E fuel message) (Inr (path, body)) = do {
     (requestID, resp) \<leftarrow> ServeHTTP authToken h E fuel (cli_request MethodPost path body);
     return (post_result (received message resp)) }"
  by (simp add: run_command_def cliPost_def local_server_def Let_def case_prod_unfold)

lemma cli_id_reads: "reads (generateRequestID h E)"
  unfolding generateRequestID_def by (intro reads_intros)

lemma reads_id: "reads (if rq_RequestID rq = '''' then generateRequestID h E else return (rq_RequestID rq))"
  by (auto intro: cli_id_reads reads_intros)

text \<open>
  (C40) With a token configured no command of the command line works. Whatever the flags, the
  commands send no authorization: each one that has its flags fails with the API's message that authorization
  is required, prints nothing, and changes nothing on the node but what other nodes commit.
\<close>

theorem cli_refused_with_token:
  fixes h :: "'z aworld_scheme handlers"
  assumes "authToken \<noteq> ''''" and "is_command p"
    and "run_state (run_command load cfgFile (local_Post load cfgFile authToken h E fuel message) p) w = ((err, out), w')"
  shows "out = [] \<and> api_quiet w w' \<and>
    (case p of Inl e \<Rightarrow> err = Some e | Inr _ \<Rightarrow> err = Some (ServerError (JStr ''authorization required'')))"
proof (cases p)
  case (Inl e)
  with assms(3) show ?thesis by (auto simp: run_command_def intro: quiet_api_quiet quiet_refl)
next
  case (Inr q)
  obtain path body where q: "q = (path, body)" by fastforce
  let ?rq = "cli_request MethodPost path body"
  have path: "path \<in> set cli_paths" using assms(2) is_command_path Inr q by metis
  have "authMiddleware authToken ?rq nxt = return (Returned (error_reply 401 ''authorization required''))"
    for nxt :: "('z aworld_scheme, response waited) state"
    using cli_request_path(2) [OF path] cli_request_path(3) [OF path] assms(1) by (simp add: authMiddleware_def cli_request_def)
  then have serve: "ServeHTTP authToken h E fuel ?rq =
      requestLogger h E ?rq (\<lambda>_. return (Returned (error_reply 401 ''authorization required'')))"
    using cli_request_path(1) [OF path] by (simp add: ServeHTTP_def)
  have "reads (requestLogger h E ?rq (\<lambda>_. return (Returned (error_reply 401 ''authorization required''))))"
    unfolding requestLogger_def by (intro reads_intros reads_id)
  then have "quiet w (snd (run_state (ServeHTTP authToken h E fuel ?rq) w))" by (simp add: serve reads_def)
  moreover have "snd (fst (run_state (ServeHTTP authToken h E fuel ?rq) w)) = Returned (error_reply 401 ''authorization required'')"
    by (simp add: serve requestLogger_def split: prod.split)
  ultimately show ?thesis using assms(3) unfolding Inr q run_posting
    by (auto simp: received_def writeJSON_def post_result_def Unmarshal_def dec_any_map_def quiet_api_quiet split: prod.splits)
qed

text \<open>Without a token a request reaches its handler, unless the rate limit stops it.\<close>

lemma serve_run:
  assumes "well_formed rq"
    and "run_state (if rq_RequestID rq = '''' then generateRequestID h E else return (rq_RequestID rq)) w = (i, wa)"
    and "run_state (time_Now E) wa = (t, wb)" and "run_state (allow E) wb = (ok, wc)"
    and "(resp, w2) = (if ok then run_state (serve_mux h E fuel False rq) wc else (Returned (http_Error ''rate limit exceeded'' 429), wc))"
  shows "run_state (ServeHTTP '''' h E fuel rq) w = (let (d, wd) = run_state (time_Now E) w2 in ((i, resp), wd))"
  using assms
  by (auto simp: ServeHTTP_def requestLogger_def authMiddleware_def rateLimitMiddleware_def statusWriter_is_flusher_def
      split: prod.splits if_splits)

lemma failover_route:
  "findHandler apiMux (cli_request MethodPost ''/cluster/failover'' body) = Serve (Some MethodPost, R_clusterFailover)"
proof (rule findHandler_literal)
  show "tree_match apiMux ''/cluster/failover'' = Some (([''cluster'', ''failover''], False), (Some MethodPost, R_clusterFailover))"
    by code_simp
qed (simp_all add: cli_request_def, code_simp+)

lemma failover_request_decoded:
  "read_request dec_to \<lparr>to_To = ''''\<rparr> (cli_request MethodPost path (Some (JObj [(''to'', JStr to)]))) = Inr \<lparr>to_To = to\<rparr>"
  by (simp add: read_request_def cli_request_def Unmarshal_def dec_to_def dec_field_def key_matches_def)

lemma post_result_replies:
  "post_result (Inr (code, None)) = (Some (Decoding ''response''), [])"
  "code \<ge> 400 \<Longrightarrow> post_result (Inr (code, Some (JObj [(''error'', JStr t)]))) = (Some (ServerError (JStr t)), [])"
  "post_result (Inr (200, Some (JObj [(''status'', JStr t)]))) = (None, [Println (JStr t)])"
  by (simp_all add: post_result_def Unmarshal_def dec_any_map_def)

lemma rate_limited_fails: "post_result (received message (Returned (http_Error ''rate limit exceeded'' 429))) \<noteq> (None, out)"
  by (simp add: received_def http_Error_def post_result_replies)

lemma failover_reply:
  fixes h :: "'z aworld_scheme handlers"
  assumes "run_state (clusterFailover h E (cli_request MethodPost path (Some (JObj [(''to'', JStr to)])))) w = (r, w')"
    and "to \<noteq> ''''" and "post_result (received message (Returned r)) = (None, out)"
  shows "out = [Println (JStr ''failover initiated'')] \<and> run_state (ManualFailover E to) w = (None, w')"
  using assms
  by (auto simp: clusterFailover_def not_configured_def http_Error_def failover_request_decoded writeJSON_def received_def
      post_result_replies split: if_splits prod.splits option.splits)

text \<open>
  (C39) When the command failover reports success the failover has really begun, on a server without a token and over plain
  HTTP. From the command line through the request, the middleware, the routing and the handler to the Raft log: an exit without an
  error means that the promotion of the node that was named is committed, after, if fencing is on, the fencing of the node that the
  local replica had as primary when the handler read it (five events after the request came in, six when the request id had to
  come from the clock), and that the failover is in flight; besides these only reports of this node's health were committed.
\<close>

theorem cli_failover_begins:
  fixes h :: "'z aworld_scheme handlers"
  assumes "run_state (run_command load cfgFile (local_Post load cfgFile '''' h E fuel message) (failoverCmd to)) w = ((None, out), w')"
  shows "out = [Println (JStr ''failover initiated'')] \<and>
    (\<exists>p now u. GetPrimary (w_fsm (later E (if k_random h (w_k w) = None then 6 else 5) w)) = Some p \<and>
    failoverInFlight w' \<and> list_all health_report u \<and> w_trace w' = w_trace w @ u @ map (Committed \<circ> publish_entry)
      ((if IsFencingEnabled (c_Failover (f_cfg w)) then [fence_of (ni_Name p) now] else []) @ [promote_of to now]))"
proof -
  let ?path = "''/cluster/failover''" and ?body = "Some (JObj [(''to'', JStr to)])"
  let ?rq = "cli_request MethodPost ?path ?body"
  let ?n = "if k_random h (w_k w) = None then 4 else 3"
  have to: "to \<noteq> ''''" using assms by (auto simp: failoverCmd_def run_command_def)
  obtain rid resp where serve: "run_state (ServeHTTP '''' h E fuel ?rq) w = ((rid, resp), w')"
    and result: "post_result (received message resp) = (None, out)"
    using assms to by (auto simp: failoverCmd_def run_posting split: prod.splits)
  have wf: "well_formed ?rq" by (rule cli_request_path(1)) (simp add: cli_paths_def)
  have n: "id_events h ?rq (w_k w) + 2 = ?n" by (simp add: id_events_def cli_request_def)
  have "\<exists>l w2. run_state (serve_mux h E fuel False ?rq) ((later E ?n w)\<lparr>limiter := l\<rparr>) = (resp, w2) \<and> w' = arrive E w2"
    by (rule serve_chain [OF wf disjI1 [OF refl] serve, unfolded n]) (metis rate_limited_fails result, blast)
  then obtain l w2 where "run_state (serve_mux h E fuel False ?rq) ((later E ?n w)\<lparr>limiter := l\<rparr>) = (resp, w2)"
    and w': "w' = arrive E w2" by blast
  moreover have "serve_mux h E fuel False ?rq = returned (clusterFailover h E ?rq)"
    by (simp add: serve_mux_def failover_route methodGuard_def) (simp add: cli_request_def)
  ultimately obtain r where r: "run_state (clusterFailover h E ?rq) ((later E ?n w)\<lparr>limiter := l\<rparr>) = (r, w2)" "resp = Returned r"
    by (auto simp: returned_def split: prod.splits)
  from failover_reply [OF r(1) to result [unfolded r(2)]] have out: "out = [Println (JStr ''failover initiated'')]"
    and m: "run_state (ManualFailover E to) ((later E ?n w)\<lparr>limiter := l\<rparr>) = (None, w2)" by blast+
  have p: "w_fsm (later E 2 ((later E ?n w)\<lparr>limiter := l\<rparr>)) = w_fsm (later E (if k_random h (w_k w) = None then 6 else 5) w)"
    by (simp add: later_fsm fsm.run_append [symmetric] arrivals_append add.commute)
  have "f_cfg ((later E ?n w)\<lparr>limiter := l\<rparr>) = f_cfg w" using more_fields(1) [OF later_simps(1), of E ?n w] by simp
  with manual_failover_published [OF m] out show ?thesis
    unfolding p by (auto simp: w')
qed

section \<open>Instances\<close>

definition ex_load :: "string \<Rightarrow> load_error + Config" where
  "ex_load _ = Inl (ReadError ''no such file'')"

theorem cli_refused_with_token_witness:
  "\<exists>out w'. run_state (run_command ex_load ''f'' (local_Post ex_load ''f'' ''s3cret'' ex_api quiet_env 0 (\<lambda>_. [])) pauseCmd) ex_aworld =
     ((Some (ServerError (JStr ''authorization required'')), out), w') \<and> out = []"
proof -
  let ?m = "run_state (run_command ex_load ''f'' (local_Post ex_load ''f'' ''s3cret'' ex_api quiet_env 0 (\<lambda>_. [])) pauseCmd) ex_aworld"
  have "is_command pauseCmd" by (simp add: is_command_def)
  from cli_refused_with_token [OF _ this, of "''s3cret''" ex_load "''f''" ex_api quiet_env 0 "\<lambda>_. []" ex_aworld "fst (fst ?m)" "snd (fst ?m)" "snd ?m"]
  show ?thesis by (intro exI [of _ "snd (fst ?m)"] exI [of _ "snd ?m"]) (auto simp: pauseCmd_def prod_eq_iff)
qed

text \<open>A clock that stands still: no time passes between the start of the server and the request.\<close>

definition still_env :: env where
  "still_env = quiet_env\<lparr>e_now := (\<lambda>_. 0)\<rparr>"

text \<open>A fresh limiter admits a request.\<close>

lemma allow_fresh: "fst (allow_at t (newRateLimiter 10 5 t))"
proof -
  have "Seconds (time_sub t t) = 0"
    by (simp add: Seconds_def time_sub_def float64_def min_duration_def max_duration_def)
  moreover have "\<bar>float64 10 - 10\<bar> \<le> 1 + 1"
    by (rule order_trans [OF float64_error add_mono]) (simp_all add: tiny_def)
  then have "1 \<le> float64 10" by (simp add: abs_le_iff)
  ultimately show ?thesis by (simp add: allow_at_def newRateLimiter_def float64_def [of 0] Let_def)
qed

abbreviation ex_failover_request :: api_request where
  "ex_failover_request \<equiv> cli_request MethodPost ''/cluster/failover'' (Some (JObj [(''to'', JStr ''n2'')]))"

lemma ex_failover_served:
  "fst (run_state (serve_mux ex_api still_env 0 False ex_failover_request) (ex_aworld\<lparr>w_k := k, limiter := l\<rparr>)) =
     Returned (status_reply ''failover initiated'')"
  by code_simp

definition ex_cli_failover :: "(cli_error option \<times> cli_output list) \<times> aworld" where
  "ex_cli_failover = run_state (run_command ex_load ''f'' (local_Post ex_load ''f'' '''' ex_api still_env 0 (\<lambda>_. [])) (failoverCmd ''n2'')) ex_aworld"

lemma ex_failover_reply:
  "snd (fst (run_state (ServeHTTP '''' ex_api still_env 0 ex_failover_request) ex_aworld)) = Returned (status_reply ''failover initiated'')"
proof -
  let ?w = "\<lambda>k. ex_aworld\<lparr>w_k := k\<rparr>" and ?l = "snd (allow_at 0 (newRateLimiter 10 5 0))"
  have wf: "well_formed ex_failover_request" by (rule cli_request_path(1)) (simp add: cli_paths_def)
  have w: "limiter ex_aworld = newRateLimiter 10 5 0" "w_k ex_aworld = 0"
    by (simp_all add: ex_aworld_def aworld.defs mworld.defs start_node_def)
  have env: "e_arrive still_env k = []" "e_now still_env k = 0" for k by (simp_all add: still_env_def quiet_env_def)
  obtain i where id: "run_state (if rq_RequestID ex_failover_request = '''' then generateRequestID ex_api still_env
      else return (rq_RequestID ex_failover_request)) ex_aworld = (i, ?w 2)"
    by (simp add: cli_request_def generateRequestID_def look_def ex_api_def arrive_def env w Let_def numeral_2_eq_2)
  have start: "run_state (time_Now still_env) (?w 2) = (0, ?w 3)" by (simp add: arrive_def env)
  have allow: "run_state (allow still_env) (?w 3) = (True, ex_aworld\<lparr>w_k := 4, limiter := ?l\<rparr>)"
    using allow_fresh [of 0] by (auto simp: allow_def arrive_def env w split: prod.split)
  obtain resp w2 where s: "run_state (serve_mux ex_api still_env 0 False ex_failover_request) (ex_aworld\<lparr>w_k := 4, limiter := ?l\<rparr>) = (resp, w2)"
    by fastforce
  with ex_failover_served [of ?l 4] have resp: "resp = Returned (status_reply ''failover initiated'')" by simp
  have "(resp, w2) = (if True then run_state (serve_mux ex_api still_env 0 False ex_failover_request) (ex_aworld\<lparr>w_k := 4, limiter := ?l\<rparr>)
      else (Returned (http_Error ''rate limit exceeded'' 429), ex_aworld\<lparr>w_k := 4, limiter := ?l\<rparr>))" using s by simp
  from serve_run [OF wf id start allow this] resp show ?thesis by (simp add: case_prod_beta)
qed

theorem cli_failover_begins_witness: "failoverInFlight (snd ex_cli_failover)"
proof -
  have "fst (fst ex_cli_failover) = None" using ex_failover_reply
    by (auto simp: ex_cli_failover_def failoverCmd_def run_posting received_def writeJSON_def post_result_replies split: prod.splits)
  then have "run_state (run_command ex_load ''f'' (local_Post ex_load ''f'' '''' ex_api still_env 0 (\<lambda>_. [])) (failoverCmd ''n2'')) ex_aworld =
      ((None, snd (fst ex_cli_failover)), snd ex_cli_failover)"
    by (simp add: ex_cli_failover_def prod_eq_iff)
  from cli_failover_begins [OF this] show ?thesis by blast
qed

end
