(* ===== verification/Vip.thy ===== *)
theory Vip
  imports World GoStd
begin

text \<open>
  The virtual IP manager (\<open>vip/\<close>): gratuitous ARP (\<open>arp_linux.go\<close>), leadership on top of Raft
  observations (\<open>raft_leadership.go\<close>) and the manager that holds the address while its node leads
  (\<open>manager_linux.go\<close>).

  Three kinds of goroutine run here: the manager's \<open>Run\<close>, the watchers that \<open>Campaign\<close> starts, and
  Raft, which sends observations. \<open>vip_step\<close> is one step of one of them. The manager's position in
  its code is a \<open>pc\<close>; a select takes the branch that the action names, when that branch is ready.

  Raft, netlink and the kernel's sockets are not part of the repository. Their results are arguments
  of the actions, and what the manager relies on is \<open>announces\<close>: when the node stops or starts leading
  Raft has an observation for every registered observer, which is dropped only if the channel is full.
  The observation of a loss and the loss are one step: an observer that is told of it sees it.
\<close>

section \<open>Addresses and packets\<close>

type_synonym byte = "8 word"

definition hex_digit_val :: "char \<Rightarrow> int" where
  "hex_digit_val c = (if is_digit c then digit_val c
     else if CHR ''a'' \<le> c then int (of_char c) - 87 else int (of_char c) - 55)"

definition hex_word :: "string \<Rightarrow> 16 word" where
  "hex_word h = word_of_int (foldl (\<lambda>acc c. 16 * acc + hex_digit_val c) 0 h)"

definition PutUint16 :: "16 word \<Rightarrow> byte list" where
  "PutUint16 v = [ucast (drop_bit 8 v), ucast v]"

text \<open>net.ParseIP: the bytes of the address, in the 16-byte form. \<open>octets\<close> holds the octets read so far.\<close>

fun IPv4_bytes :: "int \<Rightarrow> byte list \<Rightarrow> string \<Rightarrow> byte list" where
  "IPv4_bytes val octets [] = octets @ [word_of_int val]"
| "IPv4_bytes val octets (c # s) =
     (if is_digit c then IPv4_bytes (val * 10 + digit_val c) octets s
      else IPv4_bytes 0 (octets @ [word_of_int val]) s)"

definition expand_ellipsis :: "byte list \<Rightarrow> nat option \<Rightarrow> byte list" where
  "expand_ellipsis ip ell = (case ell of None \<Rightarrow> ip
     | Some e \<Rightarrow> take e ip @ replicate (16 - length ip) 0 @ drop e ip)"

fun IPv6_bytes :: "nat \<Rightarrow> byte list \<Rightarrow> nat option \<Rightarrow> string \<Rightarrow> byte list" where
  "IPv6_bytes 0 ip ell s = expand_ellipsis ip ell"
| "IPv6_bytes (Suc n) ip ell s =
     (let h = takeWhile is_hex s; t = dropWhile is_hex s; ip' = ip @ PutUint16 (hex_word h)
      in if t \<noteq> [] \<and> hd t = CHR ''.'' then expand_ellipsis (ip @ IPv4_bytes 0 [] s) ell
         else if t = [] then expand_ellipsis ip' ell
         else if hd (tl t) = CHR '':''
         then (if tl (tl t) = [] then expand_ellipsis ip' (Some (length ip'))
               else IPv6_bytes n ip' (Some (length ip')) (tl (tl t)))
         else IPv6_bytes n ip' ell (tl t))"

definition v4_prefix :: "byte list" where
  "v4_prefix = replicate 10 0 @ [255, 255]"

text \<open>nil is the empty list. \<open>ParseIP_ok\<close> says when the text is an address.\<close>

definition ParseIP :: "string \<Rightarrow> byte list" where
  "ParseIP s = (if \<not> ParseIP_ok s then []
     else if CHR '':'' \<notin> set s then v4_prefix @ IPv4_bytes 0 [] s
     else if take 2 s = ''::'' then (if drop 2 s = [] then replicate 16 0 else IPv6_bytes 8 [] (Some 0) (drop 2 s))
     else IPv6_bytes 8 [] None s)"

definition To4 :: "byte list \<Rightarrow> byte list" where
  "To4 ip = (if length ip = 4 then ip
     else if length ip = 16 \<and> take 12 ip = v4_prefix then drop 12 ip else [])"

unbundle bit_operations_syntax

definition htons :: "16 word \<Rightarrow> 16 word" where
  "htons v = push_bit 8 v OR drop_bit 8 v"

text \<open>\<open>copy(packet[i:j], bs)\<close>: as many bytes as both sides have.\<close>

definition copy_slice :: "nat \<Rightarrow> nat \<Rightarrow> byte list \<Rightarrow> byte list \<Rightarrow> byte list" where
  "copy_slice i j bs pkt = take i pkt @ take (j - i) bs @ drop (i + min (j - i) (length bs)) pkt"

definition broadcast :: "byte list" where
  "broadcast = [0xff, 0xff, 0xff, 0xff, 0xff, 0xff]"

definition arp_packet :: "byte list \<Rightarrow> byte list \<Rightarrow> byte list" where
  "arp_packet mac ip4 = foldl (\<lambda>pkt write. write pkt) (replicate 42 0)
     [copy_slice 0 6 broadcast,
      copy_slice 6 12 mac,
      copy_slice 12 14 (PutUint16 0x0806),
      copy_slice 14 16 (PutUint16 1),
      copy_slice 16 18 (PutUint16 0x0800),
      \<lambda>pkt. pkt[18 := 6],
      \<lambda>pkt. pkt[19 := 4],
      copy_slice 20 22 (PutUint16 1),
      copy_slice 22 28 mac,
      copy_slice 28 32 ip4,
      copy_slice 32 38 broadcast,
      copy_slice 38 42 ip4]"

record net_interface =
  HardwareAddr :: "byte list"
  Index :: int

record sockaddr_linklayer =
  sll_Protocol :: "16 word"
  sll_Ifindex :: int
  sll_Halen :: byte
  sll_Addr :: "byte list"

text \<open>The results of the calls into the kernel: an error, or success.\<close>

record net_results =
  net_InterfaceByName :: "string \<Rightarrow> string + net_interface"
  sys_Socket :: "string option"
  sys_Sendto :: "string option"
  nl_LinkByName :: "string \<Rightarrow> string option"
  nl_ParseAddr :: "string \<Rightarrow> string option"
  nl_AddrAdd :: "string option"
  nl_AddrDel :: "string option"

text \<open>The error, and the frame with the address it was sent to when it reached the wire.\<close>

definition SendGratuitousARP ::
  "net_results \<Rightarrow> string \<Rightarrow> byte list \<Rightarrow> string option \<times> (byte list \<times> sockaddr_linklayer) option" where
  "SendGratuitousARP R ifaceName ip =
     (case net_InterfaceByName R ifaceName of
        Inl err \<Rightarrow> (Some (''getting interface '' @ ifaceName @ '': '' @ err), None)
      | Inr iface \<Rightarrow>
          if To4 ip = [] then (Some ''only IPv4 is supported for gratuitous ARP'', None)
          else case sys_Socket R of
            Some err \<Rightarrow> (Some (''creating raw socket: '' @ err), None)
          | None \<Rightarrow> (case sys_Sendto R of
              Some err \<Rightarrow> (Some (''sending ARP packet: '' @ err), None)
            | None \<Rightarrow> (None, Some (arp_packet (HardwareAddr iface) (To4 ip),
                \<lparr>sll_Protocol = htons 0x0806, sll_Ifindex = Index iface, sll_Halen = 6,
                 sll_Addr = copy_slice 0 8 broadcast (replicate 8 0)\<rparr>))))"

text \<open>The stub for the other platforms (\<open>arp_other.go\<close>).\<close>

definition SendGratuitousARP_other :: "string \<Rightarrow> byte list \<Rightarrow> string option" where
  "SendGratuitousARP_other ifaceName ip = Some ''gratuitous ARP is not supported on this platform''"

section \<open>The manager\<close>

definition DefaultResignTimeout :: duration where "DefaultResignTimeout = 5 * Second"

text \<open>
  \<open>has_leadership\<close> says whether \<open>leadership\<close> is set. \<open>on_iface\<close>, \<open>frames\<close>, \<open>acq_total\<close> and \<open>lost_total\<close> are
  what the manager does outside: whether the address is on the interface, the ARP frames sent, and
  the two counters of transitions.
\<close>

record vip_manager =
  vipAddress :: string
  ifaceName :: string
  renewInterval :: duration
  resignTimeout :: duration
  vm_nodeName :: string
  has_leadership :: bool
  isOwner :: bool
  on_iface :: bool
  frames :: "(byte list \<times> sockaddr_linklayer) list"
  acq_total :: nat
  lost_total :: nat

definition NewVipManager :: "string \<Rightarrow> string \<Rightarrow> string \<Rightarrow> duration \<Rightarrow> bool \<Rightarrow> bool \<Rightarrow> vip_manager" where
  "NewVipManager address iface name interval leadership present =
     \<lparr>vipAddress = address, ifaceName = iface, renewInterval = interval, resignTimeout = DefaultResignTimeout,
      vm_nodeName = name, has_leadership = leadership, isOwner = False, on_iface = present, frames = [],
      acq_total = 0, lost_total = 0\<rparr>"

definition IsOwner :: "vip_manager \<Rightarrow> bool" where
  "IsOwner m = isOwner m"

definition assignVIP :: "net_results \<Rightarrow> vip_manager \<Rightarrow> string option \<times> vip_manager" where
  "assignVIP R m =
     (case nl_LinkByName R (ifaceName m) of
        Some err \<Rightarrow> (Some (''finding interface '' @ ifaceName m @ '': '' @ err), m)
      | None \<Rightarrow> (case nl_ParseAddr R (vipAddress m @ ''/32'') of
          Some err \<Rightarrow> (Some (''parsing VIP address: '' @ err), m)
        | None \<Rightarrow>
            (let added = (case nl_AddrAdd R of
                 Some err \<Rightarrow> if err \<noteq> ''file exists'' then Inl (''adding VIP to interface: '' @ err) else Inr m
               | None \<Rightarrow> Inr (m\<lparr>on_iface := True\<rparr>))
             in case added of
                Inl err \<Rightarrow> (Some err, m)
              | Inr m \<Rightarrow>
                  (None, case SendGratuitousARP R (ifaceName m) (ParseIP (vipAddress m)) of
                     (_, None) \<Rightarrow> m\<lparr>acq_total := acq_total m + 1\<rparr>
                   | (_, Some frame) \<Rightarrow> m\<lparr>acq_total := acq_total m + 1, frames := frames m @ [frame]\<rparr>))))"

definition removeVIP :: "net_results \<Rightarrow> vip_manager \<Rightarrow> vip_manager" where
  "removeVIP R m =
     (if \<not> isOwner m then m
      else case nl_LinkByName R (ifaceName m) of Some _ \<Rightarrow> m
      | None \<Rightarrow> (case nl_ParseAddr R (vipAddress m @ ''/32'') of Some _ \<Rightarrow> m
        | None \<Rightarrow> (case nl_AddrDel R of Some _ \<Rightarrow> m
          | None \<Rightarrow> m\<lparr>on_iface := False, isOwner := False, lost_total := lost_total m + 1\<rparr>)))"

section \<open>Goroutines\<close>

text \<open>Where the manager is: in \<open>Run\<close>, in \<open>campaignForVIP\<close> or in \<open>Campaign\<close>, which has registered
  the observer it carries.\<close>

datatype vip_pc =
    Disabled
  | Campaign_start
  | Campaign_check nat
  | Campaign_wait nat
  | Won
  | Assigned
  | Assign_failed string
  | Holding
  | Cancelled
  | Resigning
  | Lost_lead
  | Campaign_failed string
  | Pausing
  | Run_returned "string option"

text \<open>
  \<open>obsCh\<close> is the buffer of the channel of observations (the leader's address in each), \<open>lostCh\<close>
  whether its channel of one signal is full, \<open>observers\<close> the observers that Raft knows, \<open>watchers\<close>
  the watcher goroutines that run, named by their observers, and \<open>transfers\<close> the number of
  leadership transfers asked for.
\<close>

record vip_sys =
  mgr :: vip_manager
  pc :: vip_pc
  cancelled :: bool
  vs_role :: RaftState
  observers :: "nat list"
  obsCh :: "string list"
  lostCh :: bool
  watchers :: "nat list"
  next_obs :: nat
  transfers :: nat

definition NewRaftLeadership :: "vip_manager \<Rightarrow> RaftState \<Rightarrow> vip_sys" where
  "NewRaftLeadership m r = \<lparr>mgr = m, pc = (if vipAddress m = '''' \<or> \<not> has_leadership m then Disabled else Campaign_start),
     cancelled = False, vs_role = r, observers = [], obsCh = [], lostCh = False, watchers = [], next_obs = 0, transfers = 0\<rparr>"

definition Resign :: "string option \<Rightarrow> vip_sys \<Rightarrow> string option \<times> vip_sys" where
  "Resign err s = (if vs_role s = Leader then (err, s\<lparr>transfers := transfers s + 1\<rparr>) else (None, s))"

definition register :: "vip_sys \<Rightarrow> vip_sys" where
  "register s = s\<lparr>observers := observers s @ [next_obs s], next_obs := next_obs s + 1, pc := Campaign_check (next_obs s)\<rparr>"

definition campaign_check :: "nat \<Rightarrow> vip_sys \<Rightarrow> vip_sys" where
  "campaign_check ob s =
     (if vs_role s = Leader then s\<lparr>watchers := watchers s @ [ob], pc := Won\<rparr> else s\<lparr>pc := Campaign_wait ob\<rparr>)"

definition ctx_Err :: string where "ctx_Err = ''context canceled''"

text \<open>The manager up to its next shared action. \<open>R\<close> and \<open>err\<close> are the results of its calls.\<close>

definition campaignForVIP :: "net_results \<Rightarrow> string option \<Rightarrow> vip_sys \<Rightarrow> vip_sys option" where
  "campaignForVIP R err s =
     (case pc s of
        Campaign_start \<Rightarrow> Some (register s)
      | Campaign_check ob \<Rightarrow> Some (campaign_check ob s)
      | Won \<Rightarrow> (case assignVIP R (mgr s) of
            (None, m) \<Rightarrow> Some (s\<lparr>mgr := m, pc := Assigned\<rparr>)
          | (Some e, m) \<Rightarrow> Some (s\<lparr>mgr := m, pc := Assign_failed e\<rparr>))
      | Assign_failed e \<Rightarrow> Some ((snd (Resign err s))\<lparr>pc := Campaign_failed e\<rparr>)
      | Assigned \<Rightarrow> Some (s\<lparr>mgr := (mgr s)\<lparr>isOwner := True\<rparr>, pc := Holding\<rparr>)
      | Cancelled \<Rightarrow> Some (s\<lparr>mgr := removeVIP R (mgr s), pc := Resigning\<rparr>)
      | Resigning \<Rightarrow> Some ((snd (Resign err s))\<lparr>pc := Campaign_failed ctx_Err\<rparr>)
      | Lost_lead \<Rightarrow> Some (s\<lparr>mgr := removeVIP R (mgr s), pc := Campaign_failed ''leadership lost''\<rparr>)
      | _ \<Rightarrow> None)"

definition vip_Run :: "net_results \<Rightarrow> string option \<Rightarrow> vip_sys \<Rightarrow> vip_sys option" where
  "vip_Run R err s =
     (case pc s of
        Campaign_failed e \<Rightarrow> Some (s\<lparr>mgr := removeVIP R (mgr s), pc := (if cancelled s then Run_returned (Some ctx_Err) else Pausing)\<rparr>)
      | _ \<Rightarrow> campaignForVIP R err s)"

text \<open>The branch of a select on \<open>ctx.Done()\<close>.\<close>

definition select_done :: "vip_sys \<Rightarrow> vip_sys option" where
  "select_done s =
     (if \<not> cancelled s then None
      else case pc s of
        Disabled \<Rightarrow> Some (s\<lparr>pc := Run_returned None\<rparr>)
      | Campaign_wait ob \<Rightarrow> Some (s\<lparr>observers := remove1 ob (observers s), pc := Campaign_failed (''campaign failed: '' @ ctx_Err)\<rparr>)
      | Holding \<Rightarrow> Some (s\<lparr>pc := Cancelled\<rparr>)
      | Pausing \<Rightarrow> Some (s\<lparr>pc := Run_returned (Some ctx_Err)\<rparr>)
      | _ \<Rightarrow> None)"

text \<open>Its other branch: an observation, the signal of a loss, or the timer.\<close>

definition select_recv :: "vip_sys \<Rightarrow> vip_sys option" where
  "select_recv s =
     (case pc s of
        Campaign_wait ob \<Rightarrow> (case obsCh s of [] \<Rightarrow> None | _ # q \<Rightarrow> Some (s\<lparr>obsCh := q, pc := Campaign_check ob\<rparr>))
      | Holding \<Rightarrow> if lostCh s then Some (s\<lparr>lostCh := False, pc := Lost_lead\<rparr>) else None
      | Pausing \<Rightarrow> Some (s\<lparr>pc := Campaign_start\<rparr>)
      | _ \<Rightarrow> None)"

definition watchLeadership :: "nat \<Rightarrow> vip_sys \<Rightarrow> vip_sys option" where
  "watchLeadership ob s =
     (if ob \<notin> set (watchers s) then None
      else case obsCh s of [] \<Rightarrow> None
      | addr # q \<Rightarrow>
          if addr = '''' \<or> vs_role s \<noteq> Leader
          then Some (s\<lparr>obsCh := q, lostCh := True, observers := remove1 ob (observers s), watchers := remove1 ob (watchers s)\<rparr>)
          else Some (s\<lparr>obsCh := q\<rparr>))"

text \<open>Raft sends an observation to every observer, and drops it when the buffer of sixteen is full.\<close>

definition send_obs :: "string \<Rightarrow> nat \<Rightarrow> string list \<Rightarrow> string list" where
  "send_obs addr ob q = (if length q < 16 then q @ [addr] else q)"

definition observe :: "string \<Rightarrow> vip_sys \<Rightarrow> vip_sys" where
  "observe addr s = s\<lparr>obsCh := fold (send_obs addr) (observers s) (obsCh s)\<rparr>"

definition raft_change :: "string list \<Rightarrow> RaftState \<Rightarrow> vip_sys \<Rightarrow> vip_sys" where
  "raft_change addrs r s = (fold observe addrs s)\<lparr>vs_role := r\<rparr>"

datatype vip_action =
    Manager_runs net_results "string option"
  | Manager_done
  | Manager_receives
  | Watcher nat
  | Raft_changes "string list" RaftState
  | Cancel

fun vip_act :: "vip_action \<Rightarrow> vip_sys \<Rightarrow> vip_sys option" where
  "vip_act (Manager_runs R err) s = vip_Run R err s"
| "vip_act Manager_done s = select_done s"
| "vip_act Manager_receives s = select_recv s"
| "vip_act (Watcher ob) s = watchLeadership ob s"
| "vip_act (Raft_changes addrs r) s = Some (raft_change addrs r s)"
| "vip_act Cancel s = Some (s\<lparr>cancelled := True\<rparr>)"

inductive vip_reached :: "(vip_action \<Rightarrow> vip_sys \<Rightarrow> bool) \<Rightarrow> vip_sys \<Rightarrow> vip_sys \<Rightarrow> bool" for G s0 where
  start: "vip_reached G s0 s0"
| act: "vip_reached G s0 s \<Longrightarrow> G a s \<Longrightarrow> vip_act a s = Some t \<Longrightarrow> vip_reached G s0 t"

fun vip_exec :: "(vip_action \<Rightarrow> vip_sys \<Rightarrow> bool) \<Rightarrow> vip_action list \<Rightarrow> vip_sys \<Rightarrow> vip_sys option" where
  "vip_exec G [] s = Some s"
| "vip_exec G (a # as) s = (if G a s then Option.bind (vip_act a s) (vip_exec G as) else None)"

text \<open>The other platforms (\<open>manager_other.go\<close>): \<open>Run\<close> only waits for the end of its context.\<close>

definition vip_Run_other :: "vip_sys \<Rightarrow> vip_sys option" where
  "vip_Run_other s = (if cancelled s then Some (s\<lparr>pc := Run_returned None\<rparr>) else None)"

end
