(* ===== verification/Daemon.thy ===== *)
theory Daemon
  imports Config GoStd Health PoolManager Vip
begin

text \<open>
  How a node comes up and goes down: the Raft node (\<open>consensus/raft.go\<close>), tracing
  (\<open>tracing/tracing.go\<close>) and \<open>runDaemon\<close> with its signal handler (\<open>cmd/pgbastion/main.go\<close>).

  What the libraries answer (hashicorp/raft, bolt, memberlist, OpenTelemetry, TLS and the file system)
  is a record of results, an error or success for each call. An operation returns what it opened and closed,
  in order, besides its result.
\<close>

section \<open>What is opened and closed\<close>

datatype resource = BoltStore | Transport | RaftInstance | RaftMetrics | Memberlist | TracingProvider | DaemonContext

datatype component = ProxyRun | VIPRun | APIRun | ManagerRun | WatcherRun

datatype daemon_event = Open resource | Close resource | Bootstrap string string | Start component

fun still_open :: "daemon_event list \<Rightarrow> resource list \<Rightarrow> resource list" where
  "still_open [] rs = rs"
| "still_open (Open r # evs) rs = still_open evs (r # rs)"
| "still_open (Close r # evs) rs = still_open evs (remove1 r rs)"
| "still_open (_ # evs) rs = still_open evs rs"

section \<open>The Raft node\<close>

record RaftOptions =
  ro_LogLevel :: string
  ro_SnapshotRetain :: int
  ro_TransportTimeout :: duration
  ro_HeartbeatTimeout :: duration
  ro_ElectionTimeout :: duration
  ro_TLSEnabled :: bool
  ro_TLSCert :: string
  ro_TLSKey :: string
  ro_TLSCA :: string

definition DefaultRaftOptions :: RaftOptions where
  "DefaultRaftOptions = \<lparr>ro_LogLevel = ''WARN'', ro_SnapshotRetain = 2, ro_TransportTimeout = 10 * Second,
     ro_HeartbeatTimeout = 1 * Second, ro_ElectionTimeout = 1 * Second,
     ro_TLSEnabled = False, ro_TLSCert = '''', ro_TLSKey = '''', ro_TLSCA = ''''\<rparr>"

text \<open>The part of raft.Config that is set; the rest comes from \<open>raft.DefaultConfig\<close>.\<close>

record raft_config =
  LocalID :: string
  LogLevel :: string
  HeartbeatTimeout :: duration
  ElectionTimeout :: duration

text \<open>
  The settings of crypto/tls that are used, as in \<open>tls.Config\<close>; the others keep their zero value, so
  certificates are verified. A certificate and a pool of CA certificates are named by their text. No pool of roots
  stands for the host's.
\<close>

datatype client_auth = NoClientCert | RequireAndVerifyClientCert

record tls_config =
  Certificates :: "string list"
  MinVersion :: int
  RootCAs :: "string option"
  ClientCAs :: "string option"
  ClientAuth :: client_auth

definition VersionTLS12 :: int where "VersionTLS12 = 771"

record tlsStreamLayer =
  sl_listener :: "string \<times> tls_config"
  sl_tlsConfig :: tls_config
  sl_addr :: string

datatype raft_transport = TCPTransport string duration | TLSTransport tlsStreamLayer duration

record raft_results =
  rr_MkdirAll :: "string \<Rightarrow> string option"
  rr_NewBoltStore :: "string \<Rightarrow> string option"
  rr_NewFileSnapshotStore :: "string \<Rightarrow> int \<Rightarrow> string option"
  rr_ResolveTCPAddr :: "string \<Rightarrow> string + string"
  rr_LoadX509KeyPair :: "string \<Rightarrow> string \<Rightarrow> string + string"
  rr_ReadFile :: "string \<Rightarrow> string + string"
  rr_AppendCertsFromPEM :: "string \<Rightarrow> bool"
  rr_Listen :: "string \<Rightarrow> tls_config \<Rightarrow> string option"
  rr_NewTCPTransport :: "string \<Rightarrow> duration \<Rightarrow> string option"
  rr_NewRaft :: "raft_config \<Rightarrow> raft_transport \<Rightarrow> string option"
  rr_LastIndex :: "int option"
  rr_BootstrapCluster :: "string option"

definition tls_settings :: "raft_results \<Rightarrow> RaftOptions \<Rightarrow> string \<Rightarrow> string + tls_config" where
  "tls_settings R opts cert =
     (let tlsConfig = \<lparr>Certificates = [cert], MinVersion = VersionTLS12, RootCAs = None, ClientCAs = None, ClientAuth = NoClientCert\<rparr>
      in if ro_TLSCA opts \<noteq> ''''
         then case rr_ReadFile R (ro_TLSCA opts) of
             Inl err \<Rightarrow> Inl (''reading CA cert: '' @ err)
           | Inr caCert \<Rightarrow>
               if \<not> rr_AppendCertsFromPEM R caCert then Inl ''failed to parse CA certificate''
               else Inr (tlsConfig\<lparr>RootCAs := Some caCert, ClientCAs := Some caCert, ClientAuth := RequireAndVerifyClientCert\<rparr>)
         else Inr tlsConfig)"

definition createTLSTransport :: "raft_results \<Rightarrow> string \<Rightarrow> duration \<Rightarrow> RaftOptions \<Rightarrow> string + raft_transport" where
  "createTLSTransport R tcpAddr timeout opts =
     (case rr_LoadX509KeyPair R (ro_TLSCert opts) (ro_TLSKey opts) of
        Inl err \<Rightarrow> Inl (''loading TLS cert/key: '' @ err)
      | Inr cert \<Rightarrow> (case tls_settings R opts cert of
          Inl err \<Rightarrow> Inl err
        | Inr tlsConfig \<Rightarrow> (case rr_Listen R tcpAddr tlsConfig of
            Some err \<Rightarrow> Inl (''creating TLS listener: '' @ err)
          | None \<Rightarrow> Inr (TLSTransport \<lparr>sl_listener = (tcpAddr, tlsConfig), sl_tlsConfig = tlsConfig, sl_addr = tcpAddr\<rparr> timeout))))"

text \<open>
  The stream layer. Accept takes a connection of the listener, whose handshake succeeds as the documentation of
  ClientAuth says: without verification for every client, otherwise only for one whose certificate is signed by a CA of
  the pool (\<open>signed_by\<close>). Dial connects (\<open>net\<close> gives an error, or the certificate the server presents) and
  verifies that certificate against the roots and the host name of the address (\<open>verify\<close> gives the error, if any).
\<close>

definition Stream_Accept :: "(string option \<Rightarrow> string \<Rightarrow> bool) \<Rightarrow> tlsStreamLayer \<Rightarrow> string option \<Rightarrow> bool" where
  "Stream_Accept signed_by t clientCert =
     (case ClientAuth (snd (sl_listener t)) of
        NoClientCert \<Rightarrow> True
      | RequireAndVerifyClientCert \<Rightarrow>
          (case clientCert of None \<Rightarrow> False | Some cert \<Rightarrow> signed_by (ClientCAs (snd (sl_listener t))) cert))"

definition tls_hostname :: "string \<Rightarrow> string" where
  "tls_hostname addr = (if CHR '':'' \<in> set addr then rev (tl (dropWhile (\<lambda>c. c \<noteq> CHR '':'') (rev addr))) else addr)"

definition Stream_Dial ::
    "(string \<Rightarrow> duration \<Rightarrow> string + string) \<Rightarrow> (string option \<Rightarrow> string \<Rightarrow> string \<Rightarrow> string option) \<Rightarrow> tlsStreamLayer \<Rightarrow>
     string \<Rightarrow> duration \<Rightarrow> string + tls_config" where
  "Stream_Dial net verify t address timeout =
     (case net address timeout of
        Inl err \<Rightarrow> Inl err
      | Inr cert \<Rightarrow> (case verify (RootCAs (sl_tlsConfig t)) (tls_hostname address) cert of
          Some err \<Rightarrow> Inl err
        | None \<Rightarrow> Inr (sl_tlsConfig t)))"

definition Stream_Addr :: "tlsStreamLayer \<Rightarrow> string" where
  "Stream_Addr t = sl_addr t"

definition transport_timeout :: "RaftOptions \<Rightarrow> duration" where
  "transport_timeout opts = (if ro_TransportTimeout opts = 0 then 10 * Second else ro_TransportTimeout opts)"

definition newTransport :: "raft_results \<Rightarrow> string \<Rightarrow> RaftOptions \<Rightarrow> string + raft_transport" where
  "newTransport R tcpAddr opts =
     (let transportTimeout = transport_timeout opts
      in if ro_TLSEnabled opts then createTLSTransport R tcpAddr transportTimeout opts
         else case rr_NewTCPTransport R tcpAddr transportTimeout of
             Some err \<Rightarrow> Inl err | None \<Rightarrow> Inr (TCPTransport tcpAddr transportTimeout))"

definition raft_settings :: "raft_config \<Rightarrow> string \<Rightarrow> RaftOptions \<Rightarrow> raft_config" where
  "raft_settings base nodeID opts = base\<lparr>LocalID := nodeID, LogLevel := ro_LogLevel opts,
     HeartbeatTimeout := (if ro_HeartbeatTimeout opts > 0 then ro_HeartbeatTimeout opts else HeartbeatTimeout base),
     ElectionTimeout := (if ro_ElectionTimeout opts > 0 then ro_ElectionTimeout opts else ElectionTimeout base)\<rparr>"

definition snapshot_retain :: "RaftOptions \<Rightarrow> int" where
  "snapshot_retain opts = (if ro_SnapshotRetain opts < 1 then 2 else ro_SnapshotRetain opts)"

text \<open>An error of \<open>LastIndex\<close> is ignored, and the index is 0 then.\<close>

definition last_index :: "raft_results \<Rightarrow> int" where
  "last_index R = (case rr_LastIndex R of None \<Rightarrow> 0 | Some i \<Rightarrow> i)"

definition raft_teardown :: "daemon_event list" where
  "raft_teardown = [Close RaftInstance, Close Transport, Close BoltStore]"

definition NewRaftNode ::
  "raft_results \<Rightarrow> raft_config \<Rightarrow> string \<Rightarrow> string \<Rightarrow> int \<Rightarrow> string \<Rightarrow> bool \<Rightarrow> RaftOptions \<Rightarrow>
   daemon_event list \<times> (string + raft_transport)" where
  "NewRaftNode R base nodeID bindAddr bindPort dataDir bootstrap opts =
     (case rr_MkdirAll R dataDir of Some err \<Rightarrow> ([], Inl (''create data dir: '' @ err))
      | None \<Rightarrow> (case rr_NewBoltStore R (filepath_Join [dataDir, ''raft.db'']) of
          Some err \<Rightarrow> ([], Inl (''new bolt store: '' @ err))
        | None \<Rightarrow> (case rr_NewFileSnapshotStore R dataDir (snapshot_retain opts) of
            Some err \<Rightarrow> ([Open BoltStore, Close BoltStore], Inl (''new snapshot store: '' @ err))
          | None \<Rightarrow>
              let addr = bindAddr @ '':'' @ show_int bindPort
              in (case rr_ResolveTCPAddr R addr of
                Inl err \<Rightarrow> ([Open BoltStore, Close BoltStore], Inl (''resolve tcp addr: '' @ err))
              | Inr tcpAddr \<Rightarrow> (case newTransport R tcpAddr opts of
                  Inl err \<Rightarrow> ([Open BoltStore, Close BoltStore], Inl (''new transport: '' @ err))
                | Inr transport \<Rightarrow> (case rr_NewRaft R (raft_settings base nodeID opts) transport of
                    Some err \<Rightarrow> ([Open BoltStore, Open Transport, Close Transport, Close BoltStore], Inl (''new raft: '' @ err))
                  | None \<Rightarrow>
                      if bootstrap \<and> last_index R = 0
                      then (case rr_BootstrapCluster R of
                          Some err \<Rightarrow> ([Open BoltStore, Open Transport, Open RaftInstance] @ raft_teardown, Inl (''bootstrap cluster: '' @ err))
                        | None \<Rightarrow> ([Open BoltStore, Open Transport, Open RaftInstance, Bootstrap nodeID addr], Inr transport))
                      else ([Open BoltStore, Open Transport, Open RaftInstance], Inr transport)))))))"

text \<open>The CA certificates a configuration asks for, if any.\<close>

definition asked_CA :: "raft_results \<Rightarrow> RaftOptions \<Rightarrow> string option" where
  "asked_CA R opts = (if ro_TLSCA opts = '''' then None else case rr_ReadFile R (ro_TLSCA opts) of Inl _ \<Rightarrow> None | Inr pem \<Rightarrow> Some pem)"

text \<open>What a transport has to do for its configuration.\<close>

definition transport_ok :: "raft_results \<Rightarrow> RaftOptions \<Rightarrow> raft_transport \<Rightarrow> bool" where
  "transport_ok R opts tr \<longleftrightarrow>
     (case tr of
        TCPTransport a t \<Rightarrow> \<not> ro_TLSEnabled opts
      | TLSTransport layer t \<Rightarrow> ro_TLSEnabled opts \<and>
          MinVersion (snd (sl_listener layer)) = VersionTLS12 \<and> Stream_Addr layer = fst (sl_listener layer) \<and>
          (ro_TLSCA opts \<noteq> '''' \<longrightarrow> asked_CA R opts \<noteq> None) \<and>
          (\<forall>signed_by cert. Stream_Accept signed_by layer cert \<longleftrightarrow>
             ro_TLSCA opts = '''' \<or> (\<exists>c. cert = Some c \<and> signed_by (asked_CA R opts) c)) \<and>
          (\<forall>net verify a d. case Stream_Dial net verify layer a d of
             Inl _ \<Rightarrow> \<forall>cert. net a d = Inr cert \<longrightarrow> verify (asked_CA R opts) (tls_hostname a) cert \<noteq> None
           | Inr used \<Rightarrow> (\<exists>cert. net a d = Inr cert \<and> verify (asked_CA R opts) (tls_hostname a) cert = None) \<and>
               MinVersion used = VersionTLS12 \<and>
               (\<exists>own. rr_LoadX509KeyPair R (ro_TLSCert opts) (ro_TLSKey opts) = Inr own \<and> Certificates used = [own])))"

lemma createTLSTransport_cases:
  assumes "createTLSTransport R addr timeout opts = Inr tr"
  obtains own cfg where "rr_LoadX509KeyPair R (ro_TLSCert opts) (ro_TLSKey opts) = Inr own" "tls_settings R opts own = Inr cfg"
    "tr = TLSTransport \<lparr>sl_listener = (addr, cfg), sl_tlsConfig = cfg, sl_addr = addr\<rparr> timeout"
  using assms by (auto simp: createTLSTransport_def split: sum.splits option.splits)

lemma tls_settings_cases:
  assumes "tls_settings R opts own = Inr cfg"
  shows "Certificates cfg = [own]" "MinVersion cfg = VersionTLS12" "RootCAs cfg = asked_CA R opts"
    "ro_TLSCA opts \<noteq> '''' \<Longrightarrow> asked_CA R opts \<noteq> None \<and> ClientCAs cfg = asked_CA R opts"
    "ClientAuth cfg = (if ro_TLSCA opts = '''' then NoClientCert else RequireAndVerifyClientCert)"
  using assms by (auto simp: tls_settings_def asked_CA_def Let_def split: sum.splits if_splits)

lemma newTransport_ok:
  assumes "newTransport R addr opts = Inr tr"
  shows "transport_ok R opts tr"
proof (cases "ro_TLSEnabled opts")
  case True
  with assms obtain own cfg where c: "rr_LoadX509KeyPair R (ro_TLSCert opts) (ro_TLSKey opts) = Inr own"
    "tls_settings R opts own = Inr cfg"
    "tr = TLSTransport \<lparr>sl_listener = (addr, cfg), sl_tlsConfig = cfg, sl_addr = addr\<rparr> (transport_timeout opts)"
    by (auto simp: newTransport_def Let_def elim: createTLSTransport_cases)
  from tls_settings_cases [OF c(2)] True c(1) show ?thesis
    by (auto simp: transport_ok_def c(3) Stream_Accept_def Stream_Addr_def Stream_Dial_def
        split: option.splits sum.splits)
qed (use assms in \<open>auto simp: newTransport_def transport_ok_def Let_def split: option.splits\<close>)

lemma NewRaftNode_cases:
  assumes "NewRaftNode R base nodeID bindAddr bindPort dataDir bootstrap opts = (evs, res)"
  shows "(\<exists>err. res = Inl err \<and> evs \<in> {[], [Open BoltStore, Close BoltStore],
        [Open BoltStore, Open Transport, Close Transport, Close BoltStore],
        [Open BoltStore, Open Transport, Open RaftInstance] @ raft_teardown}) \<or>
    (\<exists>tr. res = Inr tr \<and> transport_ok R opts tr \<and>
      evs = [Open BoltStore, Open Transport, Open RaftInstance] @
         (if bootstrap \<and> last_index R = 0 then [Bootstrap nodeID (bindAddr @ '':'' @ show_int bindPort)] else []))"
proof -
  let ?addr = "bindAddr @ '':'' @ show_int bindPort"
  consider e where "rr_ResolveTCPAddr R ?addr = Inl e"
    | t e where "rr_ResolveTCPAddr R ?addr = Inr t" "newTransport R t opts = Inl e"
    | t tr where "rr_ResolveTCPAddr R ?addr = Inr t" "newTransport R t opts = Inr tr" "transport_ok R opts tr"
    by (metis newTransport_ok sum.exhaust)
  then show ?thesis using assms by cases (auto simp: NewRaftNode_def split: option.splits if_splits)
qed


section \<open>Tracing\<close>

datatype sampler = AlwaysSample | NeverSample | TraceIDRatioBased rat

datatype tracer = NoopTracer | NamedTracer string sampler

record tracing_config =
  ti_Enabled :: bool
  ti_Exporter :: string
  ti_Endpoint :: string
  ti_ServiceName :: string
  ti_SampleRate :: rat
  ti_Insecure :: bool

definition DefaultTracingConfig :: tracing_config where
  "DefaultTracingConfig = \<lparr>ti_Enabled = False, ti_Exporter = ''otlp'', ti_Endpoint = ''localhost:4317'',
     ti_ServiceName = ''pgbastion'', ti_SampleRate = 1, ti_Insecure = True\<rparr>"

record tracing_state =
  globalTracer :: "tracer option"
  tracerOnce :: bool
  providers :: nat

record tracing_results =
  ot_Resource :: "string option"
  ot_OTLP :: "string \<Rightarrow> bool \<Rightarrow> string option"
  ot_Stdout :: "string option"

definition choose_sampler :: "rat \<Rightarrow> sampler" where
  "choose_sampler rate = (if rate \<ge> 1 then AlwaysSample else if rate \<le> 0 then NeverSample else TraceIDRatioBased rate)"

text \<open>The result: an error, or whether the shutdown function has a provider to shut down.\<close>

definition tracing_Init :: "tracing_results \<Rightarrow> tracing_config \<Rightarrow> tracing_state \<Rightarrow> (string + bool) \<times> tracing_state" where
  "tracing_Init R cfg st =
     (if \<not> ti_Enabled cfg then (Inr False, st\<lparr>globalTracer := Some NoopTracer\<rparr>)
      else case ot_Resource R of Some err \<Rightarrow> (Inl (''creating resource: '' @ err), st)
      | None \<Rightarrow>
          let exporter = (if ti_Exporter cfg = ''otlp''
              then (case ot_OTLP R (ti_Endpoint cfg) (ti_Insecure cfg) of
                  Some err \<Rightarrow> Inl (''creating OTLP exporter: '' @ err) | None \<Rightarrow> Inr True)
            else if ti_Exporter cfg = ''stdout''
              then (case ot_Stdout R of Some err \<Rightarrow> Inl (''creating stdout exporter: '' @ err) | None \<Rightarrow> Inr True)
            else if ti_Exporter cfg = ''none'' \<or> ti_Exporter cfg = '''' then Inr False
            else Inl (''unknown tracing exporter: '' @ ti_Exporter cfg))
          in case exporter of
            Inl err \<Rightarrow> (Inl err, st)
          | Inr False \<Rightarrow> (Inr False, st\<lparr>globalTracer := Some NoopTracer\<rparr>)
          | Inr True \<Rightarrow> (Inr True, st\<lparr>providers := providers st + 1, tracerOnce := True,
              globalTracer := (if tracerOnce st then globalTracer st
                else Some (NamedTracer (ti_ServiceName cfg) (choose_sampler (ti_SampleRate cfg))))\<rparr>))"

definition Tracer :: "tracing_state \<Rightarrow> tracer" where
  "Tracer st = (case globalTracer st of None \<Rightarrow> NoopTracer | Some t \<Rightarrow> t)"

text \<open>A span, and the helpers that write to the one in the context, if there is one that records.\<close>

record span =
  sp_recording :: bool
  sp_errors :: "string list"
  sp_status :: "(string \<times> string) option"
  sp_events :: "(string \<times> (string \<times> string) list) list"
  sp_attributes :: "(string \<times> string) list"

definition on_recording :: "(span \<Rightarrow> span) \<Rightarrow> span option \<Rightarrow> span option" where
  "on_recording f sp = (case sp of None \<Rightarrow> None | Some s \<Rightarrow> Some (if sp_recording s then f s else s))"

definition RecordError :: "string \<Rightarrow> span option \<Rightarrow> span option" where
  "RecordError err = on_recording (\<lambda>s. s\<lparr>sp_errors := sp_errors s @ [err]\<rparr>)"

definition SetStatus :: "string \<Rightarrow> string \<Rightarrow> span option \<Rightarrow> span option" where
  "SetStatus code description = on_recording (\<lambda>s. s\<lparr>sp_status := Some (code, description)\<rparr>)"

definition AddEvent :: "string \<Rightarrow> (string \<times> string) list \<Rightarrow> span option \<Rightarrow> span option" where
  "AddEvent name attrs = on_recording (\<lambda>s. s\<lparr>sp_events := sp_events s @ [(name, attrs)]\<rparr>)"

definition SetAttributes :: "(string \<times> string) list \<Rightarrow> span option \<Rightarrow> span option" where
  "SetAttributes attrs = on_recording (\<lambda>s. s\<lparr>sp_attributes := sp_attributes s @ attrs\<rparr>)"

section \<open>The daemon\<close>

datatype level = LevelDebug | LevelInfo | LevelWarn | LevelError

definition setupLogger :: "string \<Rightarrow> level" where
  "setupLogger lvl = (if lvl = ''debug'' then LevelDebug else if lvl = ''warn'' then LevelWarn
     else if lvl = ''error'' then LevelError else LevelInfo)"

text \<open>The settings that runDaemon hands to the components.\<close>

definition tracing_settings :: "Config \<Rightarrow> tracing_config" where
  "tracing_settings cfg = (let t = c_Tracing cfg in
     \<lparr>ti_Enabled = tr_Enabled t, ti_Exporter = tr_Exporter t, ti_Endpoint = tr_Endpoint t,
      ti_ServiceName = tr_ServiceName t, ti_SampleRate = tr_SampleRate t, ti_Insecure = tr_Insecure t\<rparr>)"

definition raft_options :: "Config \<Rightarrow> RaftOptions" where
  "raft_options cfg = (let r = c_Raft cfg in
     \<lparr>ro_LogLevel = rf_LogLevel r, ro_SnapshotRetain = rf_SnapshotRetain r, ro_TransportTimeout = rf_TransportTimeout r,
      ro_HeartbeatTimeout = rf_HeartbeatTimeout r, ro_ElectionTimeout = rf_ElectionTimeout r,
      ro_TLSEnabled = rf_TLSEnabled r, ro_TLSCert = rf_TLSCert r, ro_TLSKey = rf_TLSKey r, ro_TLSCA = rf_TLSCA r\<rparr>)"

definition pool_settings :: "Config \<Rightarrow> ProxyPoolConfig" where
  "pool_settings cfg = (let p = px_Pool (c_Proxy cfg) in
     \<lparr>po_Enabled = pl_Enabled p, po_MaxPoolSize = pl_MaxPoolSize p, po_MinIdleConns = pl_MinIdleConns p,
      po_IdleTimeout = pl_IdleTimeout p, po_MaxConnLifetime = pl_MaxConnLifetime p,
      po_HealthCheckPeriod = pl_HealthCheckPeriod p, po_AcquireTimeout = pl_AcquireTimeout p\<rparr>)"

definition daemon_pools :: "Config \<Rightarrow> PoolManager option" where
  "daemon_pools cfg = (if pl_Enabled (px_Pool (c_Proxy cfg)) then Some (NewPoolManager (pool_settings cfg)) else None)"

definition daemon_vip :: "Config \<Rightarrow> bool \<Rightarrow> vip_manager" where
  "daemon_vip cfg = NewVipManager (vp_Address (c_VIP cfg)) (vp_Interface (c_VIP cfg)) (nc_Name (c_Node cfg))
     (vp_RenewInterval (c_VIP cfg)) True"

definition daemon_health :: "Config \<Rightarrow> HealthChecker option" where
  "daemon_health cfg = (if IsClusterManagementEnabled cfg
     then Some (let p = c_PostgreSQL cfg in NewHealthChecker (pg_ConnectDSN p) (pg_HealthInterval p) (pg_HealthMaxBackoff p)
       (pg_HealthBackoffMultiplier p) (pg_HealthTimeout p)) else None)"

record memberlist_config =
  mc_Name :: string
  mc_BindAddr :: string
  mc_BindPort :: int
  mc_AdvertiseAddr :: string
  mc_AdvertisePort :: int

text \<open>The results the daemon meets, and how its last select ends: a component returned, with its error
  and whether the context had ended by then, or the context ended.\<close>

datatype daemon_exit = Component_returned "string option" bool | Context_ended

record daemon_results =
  dr_load :: "string \<Rightarrow> load_error + Config"
  dr_tracing :: tracing_results
  dr_Create :: "memberlist_config \<Rightarrow> string option"
  dr_raft :: raft_results
  dr_raft_base :: raft_config
  dr_exit :: daemon_exit

definition initMemberlist :: "daemon_results \<Rightarrow> Config \<Rightarrow> string option" where
  "initMemberlist D cfg =
     (let ml = \<lparr>mc_Name = nc_Name (c_Node cfg), mc_BindAddr = nc_Address (c_Node cfg), mc_BindPort = ml_BindPort (c_Memberlist cfg),
        mc_AdvertiseAddr = nc_Address (c_Node cfg), mc_AdvertisePort = ml_BindPort (c_Memberlist cfg)\<rparr>
      in case dr_Create D ml of Some err \<Rightarrow> Some (''creating memberlist: '' @ err) | None \<Rightarrow> None)"

datatype daemon_error = LoadFailed load_error | DaemonError string

text \<open>A deferred call runs when the function returns, after what the rest of the body did.\<close>

definition with_deferred :: "resource \<Rightarrow> 'e \<times> daemon_event list \<Rightarrow> 'e \<times> daemon_event list" where
  "with_deferred r body = (fst body, Open r # snd body @ [Close r])"

definition componentCount :: "Config \<Rightarrow> nat" where
  "componentCount cfg = (if IsClusterManagementEnabled cfg then 3 + 2 else 3)"

definition started :: "Config \<Rightarrow> component list" where
  "started cfg = [ProxyRun, VIPRun, APIRun] @ (if IsClusterManagementEnabled cfg then [ManagerRun, WatcherRun] else [])"

definition serve_until_exit :: "daemon_results \<Rightarrow> Config \<Rightarrow> daemon_error option \<times> daemon_event list" where
  "serve_until_exit D cfg =
     (case dr_exit D of
        Component_returned err ended \<Rightarrow> if ended then None else map_option DaemonError err
      | Context_ended \<Rightarrow> None, map Start (started cfg))"

definition run_raft :: "daemon_results \<Rightarrow> Config \<Rightarrow> daemon_error option \<times> daemon_event list" where
  "run_raft D cfg =
     (case NewRaftNode (dr_raft D) (dr_raft_base D) (nc_Name (c_Node cfg)) (nc_Address (c_Node cfg)) (rf_BindPort (c_Raft cfg))
         (rf_DataDir (c_Raft cfg)) (rf_Bootstrap (c_Raft cfg)) (raft_options cfg) of
        (evs, Inl err) \<Rightarrow> (Some (DaemonError (''initializing raft: '' @ err)), evs)
      | (evs, Inr _) \<Rightarrow> (case with_deferred RaftMetrics (serve_until_exit D cfg) of
            (res, evs') \<Rightarrow> (res, evs @ evs' @ raft_teardown)))"

definition run_peers :: "daemon_results \<Rightarrow> Config \<Rightarrow> daemon_error option \<times> daemon_event list" where
  "run_peers D cfg =
     (if rf_DataDir (c_Raft cfg) = '''' then (Some (DaemonError ''raft.data_dir is required''), [])
      else if pr_Peers (c_Cluster cfg) = [] then run_raft D cfg
      else case initMemberlist D cfg of
          Some err \<Rightarrow> (Some (DaemonError err), [])
        | None \<Rightarrow> with_deferred Memberlist (run_raft D cfg))"

definition runDaemon :: "daemon_results \<Rightarrow> tracing_state \<Rightarrow> string \<Rightarrow> daemon_error option \<times> daemon_event list" where
  "runDaemon D st cfgFile =
     (case NewReloadableConfig (dr_load D) cfgFile of
        Inl err \<Rightarrow> (Some (LoadFailed err), [])
      | Inr rc \<Rightarrow> let cfg = rl_cfg (rc :: unit ReloadableConfig) in
          with_deferred DaemonContext
            (case fst (tracing_Init (dr_tracing D) (tracing_settings cfg) st) of
               Inl _ \<Rightarrow> run_peers D cfg
             | Inr _ \<Rightarrow> with_deferred TracingProvider (run_peers D cfg)))"

text \<open>The signal handler. \<open>cfg\<close> is the configuration that was read at the start.\<close>

datatype signal = SIGHUP | SIGTERM | SIGINT

record signal_state =
  ss_config :: "unit ReloadableConfig"
  ss_level :: level
  ss_cancelled :: bool

definition handle_signal :: "(string \<Rightarrow> load_error + Config) \<Rightarrow> Config \<Rightarrow> signal \<Rightarrow> signal_state \<Rightarrow> signal_state" where
  "handle_signal load cfg sig s =
     (if ss_cancelled s then s
      else case sig of
        SIGHUP \<Rightarrow> (case Reload load (ss_config s) () of
            (Inl _, rc, _) \<Rightarrow> s\<lparr>ss_config := rc\<rparr>
          | (Inr changes, rc, _) \<Rightarrow>
              if changes = [] then s\<lparr>ss_config := rc\<rparr>
              else if lg_Level (c_Log cfg) \<noteq> lg_Level (c_Log (rl_cfg rc))
              then s\<lparr>ss_config := rc, ss_level := setupLogger (lg_Level (c_Log (rl_cfg rc)))\<rparr>
              else s\<lparr>ss_config := rc\<rparr>)
      | _ \<Rightarrow> s\<lparr>ss_cancelled := True\<rparr>)"

section \<open>Properties\<close>

definition balanced :: "daemon_event list \<Rightarrow> bool" where
  "balanced evs \<longleftrightarrow> (\<forall>rs. still_open evs rs = rs)"

lemma still_open_append: "still_open (xs @ ys) rs = still_open ys (still_open xs rs)"
  by (induction xs rs rule: still_open.induct) auto

lemma balanced_deferred: "balanced (snd body) \<Longrightarrow> balanced (snd (with_deferred r body))"
  by (simp add: balanced_def with_deferred_def still_open_append)

lemma balanced_starts: "balanced (map Start cs)"
  unfolding balanced_def by (induction cs) auto

lemma balanced_serve: "balanced (snd (serve_until_exit D cfg))"
  by (simp add: serve_until_exit_def balanced_starts)

lemma balanced_raft: "balanced (snd (run_raft D cfg))"
proof -
  obtain evs res where run: "NewRaftNode (dr_raft D) (dr_raft_base D) (nc_Name (c_Node cfg)) (nc_Address (c_Node cfg))
      (rf_BindPort (c_Raft cfg)) (rf_DataDir (c_Raft cfg)) (rf_Bootstrap (c_Raft cfg)) (raft_options cfg) = (evs, res)"
    by fastforce
  have "still_open (snd (with_deferred RaftMetrics (serve_until_exit D cfg))) rs = rs" for rs
    using balanced_deferred [OF balanced_serve] by (simp add: balanced_def)
  then show ?thesis using NewRaftNode_cases [OF run]
    by (auto simp: run_raft_def run balanced_def raft_teardown_def still_open_append split: prod.split if_splits)
qed

lemma run_peers_cases:
  "snd (run_peers D cfg) = [] \<or> snd (run_peers D cfg) = snd (run_raft D cfg) \<or>
   snd (run_peers D cfg) = snd (with_deferred Memberlist (run_raft D cfg))"
  by (auto simp: run_peers_def split: option.split)

lemma balanced_peers: "balanced (snd (run_peers D cfg))"
  using run_peers_cases [of D cfg] balanced_raft [of D cfg] balanced_deferred [OF balanced_raft]
  by (auto simp: balanced_def)

text \<open>
  The daemon gives everything back, whatever fails. For any configuration, any results of
  the libraries and any end of its wait, all that was opened on the way (context, tracing, memberlist, log store,
  transport, Raft, metrics) is closed when runDaemon returns. The goroutines it starts all find room for their
  result in the channel.
\<close>

theorem daemon_releases:
  "still_open (snd (runDaemon D st cfgFile)) [] = [] \<and> length (started cfg) = componentCount cfg"
proof
  have "balanced (snd (runDaemon D st cfgFile))"
    by (auto simp: runDaemon_def Let_def balanced_deferred balanced_peers split: sum.split)
      (simp add: balanced_def)
  then show "still_open (snd (runDaemon D st cfgFile)) [] = []" by (simp add: balanced_def)
  show "length (started cfg) = componentCount cfg" by (simp add: started_def componentCount_def)
qed

text \<open>
  A log level cannot be set back by a reload. The handler compares the new level with the one at the start, not
  with the one in use: after a reload that raised the level to debug, a reload of the original file is taken
  over into the configuration and reported as a change, but the daemon goes on logging at debug.
\<close>

theorem log_level_not_restored:
  "\<exists>(load1 :: string \<Rightarrow> load_error + Config) load2 cfg rc. NewReloadableConfig load1 ''f'' = Inr rc \<and> rl_cfg rc = cfg \<and>
     (let s0 = \<lparr>ss_config = rc, ss_level = setupLogger (lg_Level (c_Log cfg)), ss_cancelled = False\<rparr>;
          s = handle_signal load1 cfg SIGHUP (handle_signal load2 cfg SIGHUP s0)
      in rl_cfg (ss_config s) = cfg \<and> lg_Level (c_Log cfg) = ''info'' \<and> ss_level s = LevelDebug)"
proof -
  let ?dbg = "ex_config\<lparr>c_Log := \<lparr>lg_Level = ''debug''\<rparr>\<rparr>"
  have info: "lg_Level (c_Log ex_config) = ''info''" by code_simp
  show ?thesis
    by (rule exI [of _ "\<lambda>_. Inr ex_config"], rule exI [of _ "\<lambda>_. Inr ?dbg"], rule exI [of _ ex_config],
        rule exI [of _ "\<lparr>rl_cfg = ex_config, rl_path = ''f'', rl_onChange = []\<rparr>"])
      (simp add: NewReloadableConfig_def handle_signal_def Reload_def detectChanges_def info setupLogger_def)
qed

text \<open>A sampling rate of 0 in the file means that every request is traced: the default replaces it.\<close>

lemma sample_rate_zero_traces_all:
  "tr_Enabled (c_Tracing c) \<Longrightarrow> tr_SampleRate (c_Tracing c) = 0 \<Longrightarrow>
   choose_sampler (ti_SampleRate (tracing_settings (setDefaults c))) = AlwaysSample"
  by (simp add: choose_sampler_def tracing_settings_def setDefaults_def defaults_Tracing_def Let_def)

end
