(* ===== verification/VipProps.thy ===== *)
theory VipProps
  imports Vip
begin

text \<open>
  What the virtual IP manager guarantees. The locale \<open>leadership_source\<close> states what the manager
  needs of the source of leadership once its node stops leading: while the address is held some step
  can be taken, and every step brings the end nearer. Its lemmas bound the time to the release. The
  interpretation \<open>raft_source\<close> discharges the laws for the leadership built on Raft observations.
\<close>

section \<open>Interface: a source of leadership that gives notice\<close>

locale leadership_source =
  fixes step :: "'a \<Rightarrow> 's \<Rightarrow> 's option"
    and held :: "'s \<Rightarrow> bool"
    and rank :: "'s \<Rightarrow> nat"
  assumes can_step: "held s \<Longrightarrow> \<exists>a t. step a s = Some t"
    and nearer: "held s \<Longrightarrow> step a s = Some t \<Longrightarrow> held t \<Longrightarrow> rank t < rank s"
begin

definition follow :: "'a list \<Rightarrow> 's \<Rightarrow> 's option" where
  "follow as s = fold (\<lambda>a r. Option.bind r (step a)) as (Some s)"

lemma fold_None: "fold (\<lambda>a r. Option.bind r (step a)) as None = None"
  by (induction as) auto

lemma follow_simps:
  "follow [] s = Some s"
  "follow (a # as) s = (case step a s of None \<Rightarrow> None | Some t \<Rightarrow> follow as t)"
  by (simp_all add: follow_def fold_None split: option.split)

lemma released:
  "held s \<Longrightarrow> follow as s = Some t \<Longrightarrow> rank s < length as \<Longrightarrow> \<exists>n u. n \<le> Suc (rank s) \<and> follow (take n as) s = Some u \<and> \<not> held u"
proof (induction as arbitrary: s)
  case (Cons a as)
  then obtain u where u: "step a s = Some u" "follow as u = Some t" by (auto simp: follow_simps split: option.splits)
  show ?case
  proof (cases "held u")
    case True
    from nearer [OF Cons.prems(1) u(1) True] have less: "rank u < rank s" .
    with Cons.prems(3) have "rank u < length as" by simp
    from Cons.IH [OF True u(2) this] obtain n v where v: "n \<le> Suc (rank u)" "follow (take n as) u = Some v" "\<not> held v" by blast
    with less u(1) show ?thesis by (intro exI [of _ "Suc n"] exI [of _ v]) (simp add: follow_simps)
  next
    case False
    with u show ?thesis by (intro exI [of _ 1] exI [of _ u]) (simp add: follow_simps)
  qed
qed simp

lemma releasable: "held s \<Longrightarrow> \<exists>as t. length as \<le> Suc (rank s) \<and> follow as s = Some t \<and> \<not> held t"
proof (induction "rank s" arbitrary: s rule: less_induct)
  case less
  from can_step [OF less.prems] obtain a u where u: "step a s = Some u" by blast
  show ?case
  proof (cases "held u")
    case True
    from nearer [OF less.prems u True] have "rank u < rank s" .
    with less.hyps [OF this True] u show ?thesis
      by (metis Suc_leI le_trans length_Cons less_Suc_eq_le not_less_eq_eq follow_simps(2) option.simps(5))
  next
    case False
    with u show ?thesis by (intro exI [of _ "[a]"] exI [of _ u]) (simp add: follow_simps)
  qed
qed

end

section \<open>What the environment promises\<close>

text \<open>Raft announces a change of leadership, and the kernel reports an address as present only when it is.\<close>

fun announces :: "vip_action \<Rightarrow> vip_sys \<Rightarrow> bool" where
  "announces (Raft_changes addrs r) s \<longleftrightarrow> ((vs_role s = Leader) \<noteq> (r = Leader) \<longrightarrow> addrs \<noteq> [])"
| "announces (Manager_runs R err) s \<longleftrightarrow> (nl_AddrAdd R = Some ''file exists'' \<longrightarrow> on_iface (mgr s))"
| "announces _ s \<longleftrightarrow> True"

definition removing :: "vip_pc \<Rightarrow> bool" where
  "removing p \<longleftrightarrow> p = Cancelled \<or> p = Lost_lead \<or> (\<exists>e. p = Campaign_failed e)"

fun removal_works :: "vip_action \<Rightarrow> vip_sys \<Rightarrow> bool" where
  "removal_works (Manager_runs R err) s \<longleftrightarrow> (removing (pc s) \<longrightarrow>
     nl_LinkByName R (ifaceName (mgr s)) = None \<and> nl_ParseAddr R (vipAddress (mgr s) @ ''/32'') = None \<and> nl_AddrDel R = None)"
| "removal_works _ s \<longleftrightarrow> True"

fun assignment_works :: "vip_action \<Rightarrow> vip_sys \<Rightarrow> bool" where
  "assignment_works (Manager_runs R err) s \<longleftrightarrow> (pc s = Won \<longrightarrow> fst (assignVIP R (mgr s)) = None)"
| "assignment_works _ s \<longleftrightarrow> True"

section \<open>Invariants\<close>

definition leading :: "vip_pc \<Rightarrow> bool" where
  "leading p \<longleftrightarrow> p = Won \<or> p = Assigned \<or> p = Holding"

definition observer_of :: "vip_pc \<Rightarrow> nat option" where
  "observer_of p = (case p of Campaign_check ob \<Rightarrow> Some ob | Campaign_wait ob \<Rightarrow> Some ob | _ \<Rightarrow> None)"

text \<open>Observers: every watcher's is registered, and so is the one of the campaign that runs.\<close>

definition observer_inv :: "vip_sys \<Rightarrow> bool" where
  "observer_inv s \<longleftrightarrow> distinct (observers s) \<and> distinct (watchers s) \<and> set (watchers s) \<subseteq> set (observers s) \<and>
     (\<forall>ob \<in> set (observers s). ob < next_obs s) \<and>
     (case observer_of (pc s) of None \<Rightarrow> True | Some ob \<Rightarrow> ob \<in> set (observers s) \<and> ob \<notin> set (watchers s))"

text \<open>Notice: after a win a watcher runs or the signal is there, and a loss has left a trace.\<close>

definition notice_inv :: "vip_sys \<Rightarrow> bool" where
  "notice_inv s \<longleftrightarrow> (leading (pc s) \<longrightarrow>
     (lostCh s \<or> watchers s \<noteq> []) \<and> (vs_role s \<noteq> Leader \<longrightarrow> lostCh s \<or> obsCh s \<noteq> []))"

definition owner_inv :: "vip_sys \<Rightarrow> bool" where
  "owner_inv s \<longleftrightarrow> (isOwner (mgr s) \<longrightarrow> on_iface (mgr s)) \<and> (pc s = Assigned \<longrightarrow> on_iface (mgr s)) \<and>
     (pc s = Holding \<longrightarrow> isOwner (mgr s))"

text \<open>With removals that work, the address is there only between a win and its end.\<close>

definition clear_inv :: "vip_sys \<Rightarrow> bool" where
  "clear_inv s \<longleftrightarrow> (on_iface (mgr s) \<longrightarrow>
     pc s = Assigned \<or> (isOwner (mgr s) \<and> (pc s = Holding \<or> pc s = Cancelled \<or> pc s = Lost_lead)))"

lemmas vip_defs = vip_Run_def campaignForVIP_def select_done_def select_recv_def watchLeadership_def register_def
  campaign_check_def Resign_def

lemma fold_observe: "\<exists>q. fold observe addrs s = s\<lparr>obsCh := q\<rparr>"
proof (induction addrs arbitrary: s)
  case Nil
  show ?case by (rule exI [of _ "obsCh s"]) simp
next
  case (Cons addr addrs)
  from Cons.IH [of "observe addr s"] show ?case by (auto simp: observe_def)
qed

lemma send_obs_ne: "q \<noteq> [] \<Longrightarrow> fold (send_obs addr) obs q \<noteq> []"
  by (induction obs arbitrary: q) (auto simp: send_obs_def)

lemma send_obs_any: "obs \<noteq> [] \<Longrightarrow> fold (send_obs addr) obs q \<noteq> []"
  by (cases obs) (auto simp: send_obs_def intro!: send_obs_ne)

lemma observe_ne: "obsCh s \<noteq> [] \<Longrightarrow> obsCh (fold observe addrs s) \<noteq> []"
  by (induction addrs arbitrary: s) (auto simp: observe_def send_obs_ne)

lemma observe_any: "addrs \<noteq> [] \<Longrightarrow> observers s \<noteq> [] \<Longrightarrow> obsCh (fold observe addrs s) \<noteq> []"
  by (cases addrs) (auto intro!: observe_ne simp: observe_def send_obs_any)

lemma raft_change_frame:
  "raft_change addrs r s = s\<lparr>obsCh := obsCh (fold observe addrs s), vs_role := r\<rparr>"
  using fold_observe [of addrs s] by (auto simp: raft_change_def)

lemma raft_change_queue: "obsCh s \<noteq> [] \<or> addrs \<noteq> [] \<and> observers s \<noteq> [] \<Longrightarrow> obsCh (fold observe addrs s) \<noteq> []"
  using observe_ne observe_any by blast

section \<open>Preservation\<close>

lemma assignVIP_frame:
  assumes "assignVIP R m = (err, m')"
  shows "isOwner m' = isOwner m" "on_iface m \<Longrightarrow> on_iface m'" "err \<noteq> None \<Longrightarrow> m' = m"
    "err = None \<Longrightarrow> (nl_AddrAdd R = Some ''file exists'' \<longrightarrow> on_iface m) \<Longrightarrow> on_iface m'"
  using assms by (auto simp: assignVIP_def Let_def split: option.splits if_splits sum.splits prod.splits)

lemma removeVIP_cases: "removeVIP R m = m \<or> (\<not> on_iface (removeVIP R m) \<and> \<not> isOwner (removeVIP R m))"
  by (auto simp: removeVIP_def split: option.splits)

lemma removeVIP_works:
  "nl_LinkByName R (ifaceName m) = None \<Longrightarrow> nl_ParseAddr R (vipAddress m @ ''/32'') = None \<Longrightarrow> nl_AddrDel R = None \<Longrightarrow>
   isOwner m \<Longrightarrow> \<not> on_iface (removeVIP R m)"
  by (simp add: removeVIP_def)

lemma observer_inv_remove:
  "observer_inv s \<Longrightarrow> ob \<in> set (watchers s) \<Longrightarrow>
   observer_inv (s\<lparr>obsCh := q, lostCh := l, observers := remove1 ob (observers s), watchers := remove1 ob (watchers s)\<rparr>)"
  by (auto simp: observer_inv_def split: option.splits)

lemma observer_inv_frame:
  "observers t = observers s \<Longrightarrow> watchers t = watchers s \<Longrightarrow> next_obs t = next_obs s \<Longrightarrow>
   observer_of (pc t) = None \<or> observer_of (pc t) = observer_of (pc s) \<Longrightarrow> observer_inv s \<Longrightarrow> observer_inv t"
  by (auto simp: observer_inv_def split: option.splits)

lemma observer_inv_act:
  assumes "observer_inv s" "vip_act a s = Some t"
  shows "observer_inv t"
proof (cases a)
  case (Manager_runs R err)
  show ?thesis
  proof (cases "pc s")
    case Campaign_start
    with assms Manager_runs show ?thesis
      by (auto simp: vip_defs observer_inv_def observer_of_def less_Suc_eq)
  next
    case (Campaign_check ob)
    with assms Manager_runs show ?thesis
      by (auto simp: vip_defs observer_inv_def observer_of_def split: if_splits)
  qed (use assms Manager_runs in \<open>auto simp: vip_defs observer_of_def split: if_splits prod.splits option.splits
      elim!: observer_inv_frame [rotated -1]\<close>)+
next
  case (Watcher ob)
  with assms(2) consider q where "ob \<in> set (watchers s)"
      "t = s\<lparr>obsCh := q, lostCh := True, observers := remove1 ob (observers s), watchers := remove1 ob (watchers s)\<rparr>"
    | q where "t = s\<lparr>obsCh := q\<rparr>"
    by (auto simp: watchLeadership_def split: if_splits list.splits)
  then show ?thesis
    by cases (simp_all add: observer_inv_remove assms(1) observer_inv_frame [OF _ _ _ _ assms(1)])
next
  case Manager_done
  with assms show ?thesis
    by (cases "pc s") (auto simp: select_done_def observer_inv_def observer_of_def split: if_splits)
next
  case Manager_receives
  with assms show ?thesis
    by (cases "pc s") (auto simp: select_recv_def observer_of_def split: if_splits list.splits elim!: observer_inv_frame [rotated -1])
qed (use assms in \<open>auto simp: raft_change_frame elim!: observer_inv_frame [rotated -1]\<close>)+

lemma notice_inv_act:
  assumes "observer_inv s" "notice_inv s" "announces a s" "vip_act a s = Some t"
  shows "notice_inv t"
proof (cases a)
  case (Raft_changes addrs r)
  have "watchers s \<noteq> [] \<Longrightarrow> observers s \<noteq> []" using assms(1) by (auto simp: observer_inv_def)
  with assms(2-4) Raft_changes show ?thesis
    using raft_change_queue [of s addrs] by (auto simp: notice_inv_def raft_change_frame)
qed (use assms(2-4) in \<open>cases "pc s"; auto simp: vip_defs notice_inv_def leading_def
      split: if_splits list.splits prod.splits option.splits\<close>)+

lemma owner_inv_act:
  assumes "owner_inv s" "announces a s" "vip_act a s = Some t"
  shows "owner_inv t"
proof (cases a)
  case (Manager_runs R err)
  with assms show ?thesis using removeVIP_cases [of R "mgr s"]
    by (cases "pc s") (auto simp: vip_defs owner_inv_def split: if_splits prod.splits option.splits dest: assignVIP_frame)
qed (use assms in \<open>cases "pc s"; auto simp: vip_defs owner_inv_def raft_change_frame
      split: if_splits list.splits prod.splits option.splits\<close>)+

lemma clear_inv_act:
  assumes "owner_inv s" "clear_inv s" "removal_works a s" "vip_act a s = Some t"
  shows "clear_inv t"
proof (cases a)
  case (Manager_runs R err)
  with assms show ?thesis using removeVIP_cases [of R "mgr s"] removeVIP_works [of R "mgr s"]
    by (cases "pc s") (auto simp: vip_defs owner_inv_def clear_inv_def removing_def split: if_splits prod.splits option.splits dest: assignVIP_frame)
qed (use assms in \<open>cases "pc s"; auto simp: vip_defs owner_inv_def clear_inv_def raft_change_frame
      split: if_splits list.splits prod.splits option.splits\<close>)+

section \<open>Safety of the address\<close>

abbreviation vip_start :: "string \<Rightarrow> string \<Rightarrow> string \<Rightarrow> duration \<Rightarrow> bool \<Rightarrow> RaftState \<Rightarrow> vip_sys" where
  "vip_start address iface name interval leadership r \<equiv>
     NewRaftLeadership (NewVipManager address iface name interval leadership False) r"

abbreviation sound_net :: "vip_action \<Rightarrow> vip_sys \<Rightarrow> bool" where
  "sound_net a s \<equiv> announces a s \<and> removal_works a s"

lemma vip_inv_start:
  "observer_inv (vip_start address iface name interval leadership r)" "notice_inv (vip_start address iface name interval leadership r)"
  "owner_inv (vip_start address iface name interval leadership r)" "clear_inv (vip_start address iface name interval leadership r)"
  by (auto simp: NewRaftLeadership_def NewVipManager_def observer_inv_def observer_of_def notice_inv_def leading_def
      owner_inv_def clear_inv_def)

lemma vip_reached_inv:
  "vip_reached sound_net (vip_start address iface name interval leadership r) s \<Longrightarrow>
   observer_inv s \<and> notice_inv s \<and> owner_inv s \<and> clear_inv s"
  by (induction rule: vip_reached.induct)
    (auto intro: vip_inv_start observer_inv_act notice_inv_act owner_inv_act clear_inv_act)

text \<open>
  (C32) The virtual IP is only on the interface of a node that leads, or that is about to give it up.
  In every state that the manager, its watchers and Raft can reach from a start without the address,
  with any interleaving and any results of the calls into the kernel except failed removals: if the
  address is on the interface, then the node leads, or the manager is at the removal already, or the
  signal of the loss waits for it, or an observation waits for a watcher that runs. The manager says it
  is the owner only while the address is there.
\<close>

theorem vip_address_safe:
  assumes "vip_reached sound_net (vip_start address iface name interval leadership r) s"
  shows "(on_iface (mgr s) \<longrightarrow> vs_role s = Leader \<or> pc s = Cancelled \<or> pc s = Lost_lead \<or> lostCh s \<or>
            (obsCh s \<noteq> [] \<and> watchers s \<noteq> [])) \<and> (IsOwner (mgr s) \<longrightarrow> on_iface (mgr s))"
  using vip_reached_inv [OF assms] by (auto simp: notice_inv_def leading_def owner_inv_def clear_inv_def IsOwner_def)

section \<open>Release\<close>

text \<open>What the node does by itself: no step of Raft, and no new end of the context.\<close>

fun own_action :: "vip_action \<Rightarrow> bool" where
  "own_action (Raft_changes addrs r) \<longleftrightarrow> False"
| "own_action Cancel \<longleftrightarrow> False"
| "own_action _ \<longleftrightarrow> True"

definition own_step :: "vip_action \<Rightarrow> vip_sys \<Rightarrow> vip_sys option" where
  "own_step a s = (if own_action a \<and> removal_works a s then vip_act a s else None)"

text \<open>The address is there, the node does not lead.\<close>

definition overdue :: "vip_sys \<Rightarrow> bool" where
  "overdue s \<longleftrightarrow> observer_inv s \<and> notice_inv s \<and> owner_inv s \<and> clear_inv s \<and> on_iface (mgr s) \<and> vs_role s \<noteq> Leader"

definition pc_rank :: "vip_pc \<Rightarrow> nat" where
  "pc_rank p = (if p = Assigned then 3 else if p = Holding then 2 else 1)"

definition vip_rank :: "vip_sys \<Rightarrow> nat" where
  "vip_rank s = length (obsCh s) + pc_rank (pc s)"

text \<open>Calls into the kernel that all succeed, for the steps that can be taken.\<close>

definition good_net :: net_results where
  "good_net = \<lparr>net_InterfaceByName = (\<lambda>_. Inr \<lparr>HardwareAddr = replicate 6 1, Index = 2\<rparr>), sys_Socket = None, sys_Sendto = None,
     nl_LinkByName = (\<lambda>_. None), nl_ParseAddr = (\<lambda>_. None), nl_AddrAdd = None, nl_AddrDel = None\<rparr>"

lemma overdue_pc:
  "overdue s \<Longrightarrow> pc s = Assigned \<or> isOwner (mgr s) \<and> (pc s = Holding \<or> pc s = Cancelled \<or> pc s = Lost_lead)"
  by (simp add: overdue_def clear_inv_def)

lemma overdue_pending: "overdue s \<Longrightarrow> pc s = Holding \<Longrightarrow> lostCh s \<or> (obsCh s \<noteq> [] \<and> watchers s \<noteq> [])"
  by (auto simp: overdue_def notice_inv_def leading_def)

lemma overdue_step:
  assumes "overdue s"
  shows "\<exists>a t. own_step a s = Some t"
proof (cases "pc s = Holding")
  case False
  with overdue_pc [OF assms] show ?thesis
    by (intro exI [of _ "Manager_runs good_net None"]) (auto simp: own_step_def vip_Run_def campaignForVIP_def good_net_def)
next
  case True
  show ?thesis
  proof (cases "lostCh s")
    case True
    with \<open>pc s = Holding\<close> show ?thesis by (intro exI [of _ Manager_receives]) (simp add: own_step_def select_recv_def)
  next
    case False
    with overdue_pending [OF assms True] obtain ob where "ob \<in> set (watchers s)" "obsCh s \<noteq> []" by (metis last_in_set)
    then show ?thesis by (intro exI [of _ "Watcher ob"]) (auto simp: own_step_def watchLeadership_def split: list.split)
  qed
qed

lemma overdue_nearer:
  assumes "overdue s" "own_step a s = Some t" "overdue t"
  shows "vip_rank t < vip_rank s"
proof (cases a)
  case (Watcher ob)
  with assms(2) show ?thesis by (auto simp: own_step_def watchLeadership_def vip_rank_def split: if_splits list.splits)
next
  case (Manager_runs R err)
  have "on_iface (mgr t)" using assms(3) by (simp add: overdue_def)
  then show ?thesis using overdue_pc [OF assms(1)] assms(2) Manager_runs
    by (elim disjE conjE) (auto simp: own_step_def vip_Run_def campaignForVIP_def vip_rank_def pc_rank_def removing_def
        removeVIP_works split: if_splits)
next
  case Manager_done
  with overdue_pc [OF assms(1)] assms(2) show ?thesis
    by (elim disjE conjE) (auto simp: own_step_def select_done_def vip_rank_def pc_rank_def split: if_splits)
next
  case Manager_receives
  with overdue_pc [OF assms(1)] assms(2) show ?thesis
    by (elim disjE conjE) (auto simp: own_step_def select_recv_def vip_rank_def pc_rank_def split: if_splits)
qed (use assms(2) in \<open>simp_all add: own_step_def\<close>)

interpretation raft_source: leadership_source own_step overdue vip_rank
  by unfold_locales (auto intro: overdue_step overdue_nearer)

lemma internal_role: "own_action a \<Longrightarrow> vip_act a s = Some t \<Longrightarrow> vs_role t = vs_role s"
  by (cases a; cases "pc s") (auto simp: vip_defs split: if_splits list.splits prod.splits option.splits)

lemma own_step_overdue:
  assumes "overdue s" "own_step a s = Some t"
  shows "overdue t \<or> \<not> on_iface (mgr t)"
proof -
  from assms(2) have act: "own_action a" "removal_works a s" "vip_act a s = Some t" by (auto simp: own_step_def split: if_splits)
  from assms(1) act(1) have ann: "announces a s" by (cases a) (auto simp: overdue_def)
  show ?thesis using assms(1) internal_role [OF act(1,3)]
    by (auto simp: overdue_def intro: observer_inv_act [OF _ act(3)] notice_inv_act [OF _ _ ann act(3)]
        owner_inv_act [OF _ ann act(3)] clear_inv_act [OF _ _ act(2,3)])
qed

abbreviation on_its_own :: "vip_action \<Rightarrow> vip_sys \<Rightarrow> bool" where
  "on_its_own a s \<equiv> own_action a \<and> removal_works a s"

lemma vip_exec_follow: "vip_exec on_its_own as s = raft_source.follow as s"
  by (induction as arbitrary: s) (auto simp: raft_source.follow_simps own_step_def split: option.splits)

lemma release_or_overdue:
  "overdue s \<Longrightarrow> vip_exec on_its_own as s = Some t \<Longrightarrow>
   overdue t \<or> (\<exists>n u. n \<le> length as \<and> vip_exec on_its_own (take n as) s = Some u \<and> \<not> on_iface (mgr u))"
proof (induction as arbitrary: s)
  case (Cons a as)
  then obtain u where u: "own_step a s = Some u" "vip_exec on_its_own as u = Some t"
    by (auto simp: own_step_def split: if_splits Option.bind_splits)
  then have one: "vip_exec on_its_own (a # bs) s = vip_exec on_its_own bs u" for bs
    by (auto simp: own_step_def split: if_splits)
  from own_step_overdue [OF Cons.prems(1) u(1)] show ?case
  proof
    assume "overdue u"
    from Cons.IH [OF this u(2)] show ?thesis
    proof (elim disjE exE conjE)
      fix n v assume "n \<le> length as" "vip_exec on_its_own (take n as) u = Some v" "\<not> on_iface (mgr v)"
      then show ?thesis by (intro disjI2 exI [of _ "Suc n"] exI [of _ v]) (simp add: one del: vip_exec.simps)
    qed simp
  next
    assume "\<not> on_iface (mgr u)"
    then show ?thesis by (intro disjI2 exI [of _ 1] exI [of _ u]) (use one [of "[]"] in simp)
  qed
qed simp

text \<open>The buffer of observations bounds the rank.\<close>

definition queue_inv :: "vip_sys \<Rightarrow> bool" where
  "queue_inv s \<longleftrightarrow> length (obsCh s) \<le> 16"

lemma send_obs_length: "length q \<le> 16 \<Longrightarrow> length (fold (send_obs addr) obs q) \<le> 16"
  by (induction obs arbitrary: q) (auto simp: send_obs_def)

lemma observe_length: "queue_inv s \<Longrightarrow> queue_inv (fold observe addrs s)"
  by (induction addrs arbitrary: s) (auto simp: observe_def queue_inv_def send_obs_length)

lemma queue_inv_act: "queue_inv s \<Longrightarrow> vip_act a s = Some t \<Longrightarrow> queue_inv t"
  using observe_length [of s]
  by (cases a; cases "pc s") (auto simp: vip_defs queue_inv_def raft_change_frame split: if_splits list.splits prod.splits option.splits)

lemma vip_reached_queue: "vip_reached G (vip_start address iface name interval leadership r) s \<Longrightarrow> queue_inv s"
  by (induction rule: vip_reached.induct) (auto simp: queue_inv_def NewRaftLeadership_def intro: queue_inv_act [unfolded queue_inv_def])

lemma vip_rank_bound: "queue_inv s \<Longrightarrow> vip_rank s \<le> 19"
  by (simp add: queue_inv_def vip_rank_def pc_rank_def)

text \<open>
  (C33) As long as taking the address off works (a removal that fails is given up for good, as
  shown below), a node that stops leading gives the virtual IP up, within twenty steps of its own and
  without any further sign from Raft. From every reachable state in which the address is on the interface
  and the node does not lead, some run of its goroutines takes the address off, and every run of more
  than nineteen steps does so on the way, whatever their order.
\<close>

theorem vip_released:
  assumes "vip_reached sound_net (vip_start address iface name interval leadership r) s"
    and "on_iface (mgr s)" and "vs_role s \<noteq> Leader"
  shows "(\<exists>as t. length as \<le> 20 \<and> vip_exec on_its_own as s = Some t \<and> \<not> on_iface (mgr t)) \<and>
    (\<forall>as t. vip_exec on_its_own as s = Some t \<longrightarrow> 19 < length as \<longrightarrow>
       (\<exists>n u. n \<le> 20 \<and> vip_exec on_its_own (take n as) s = Some u \<and> \<not> on_iface (mgr u)))"
proof (intro conjI allI impI)
  have over: "overdue s" and rank: "vip_rank s \<le> 19"
    using vip_reached_inv [OF assms(1)] assms(2,3) vip_rank_bound [OF vip_reached_queue [OF assms(1)]] by (auto simp: overdue_def)
  have early: "\<exists>m v. m \<le> length as \<and> vip_exec on_its_own (take m as) s = Some v \<and> \<not> on_iface (mgr v)"
    if "vip_exec on_its_own as s = Some u" "\<not> overdue u" for as u
    using release_or_overdue [OF over that(1)] that(2) by blast
  obtain as u where as: "length as \<le> Suc (vip_rank s)" "vip_exec on_its_own as s = Some u" "\<not> overdue u"
    using raft_source.releasable [OF over] unfolding vip_exec_follow by blast
  then obtain m v where "m \<le> length as" "vip_exec on_its_own (take m as) s = Some v" "\<not> on_iface (mgr v)"
    using early by blast
  with as(1) rank show "\<exists>as t. length as \<le> 20 \<and> vip_exec on_its_own as s = Some t \<and> \<not> on_iface (mgr t)"
    by (intro exI [of _ "take m as"] exI [of _ v]) simp
  fix as t assume run: "vip_exec on_its_own as s = Some t" and "19 < length as"
  with rank have "vip_rank s < length as" by simp
  from raft_source.released [OF over run [unfolded vip_exec_follow] this] obtain n u
    where n: "n \<le> Suc (vip_rank s)" "vip_exec on_its_own (take n as) s = Some u" "\<not> overdue u"
    unfolding vip_exec_follow by blast
  with early [OF n(2,3)] obtain m v where "m \<le> n" "vip_exec on_its_own (take (min m n) as) s = Some v" "\<not> on_iface (mgr v)"
    by (auto simp: take_take)
  with n(1) rank show "\<exists>n u. n \<le> 20 \<and> vip_exec on_its_own (take n as) s = Some u \<and> \<not> on_iface (mgr u)"
    by (intro exI [of _ "min m n"] exI [of _ v]) simp
qed

section \<open>Acquisition\<close>

text \<open>
  With assignments that work, at most one watcher runs and its signal is used up before the next
  campaign: the manager alone reads the observations while it waits.
\<close>

definition campaigning :: "vip_pc \<Rightarrow> bool" where
  "campaigning p \<longleftrightarrow> p = Campaign_start \<or> p = Lost_lead \<or> p = Pausing \<or> observer_of p \<noteq> None"

definition single_inv :: "vip_sys \<Rightarrow> bool" where
  "single_inv s \<longleftrightarrow> (\<forall>e. pc s \<noteq> Assign_failed e) \<and> (pc s = Cancelled \<or> pc s = Resigning \<longrightarrow> cancelled s) \<and>
     (leading (pc s) \<longrightarrow> length (watchers s) + of_bool (lostCh s) = 1) \<and>
     (campaigning (pc s) \<or> (\<exists>e. pc s = Campaign_failed e) \<and> \<not> cancelled s \<longrightarrow> watchers s = [] \<and> \<not> lostCh s)"

definition wakeup_inv :: "vip_sys \<Rightarrow> bool" where
  "wakeup_inv s \<longleftrightarrow> (\<forall>ob. pc s = Campaign_wait ob \<longrightarrow> vs_role s = Leader \<longrightarrow> obsCh s \<noteq> [])"

lemmas single_defs = single_inv_def leading_def campaigning_def observer_of_def

lemma single_inv_watcher:
  assumes "single_inv s" "watchLeadership ob s = Some t"
  shows "single_inv t"
proof -
  from assms(2) have "ob \<in> set (watchers s)" by (auto simp: watchLeadership_def split: if_splits)
  then have some: "watchers s \<noteq> []" by auto
  from assms(2) consider q where "t = s\<lparr>obsCh := q\<rparr>"
    | q where "t = s\<lparr>obsCh := q, lostCh := True, observers := remove1 ob (observers s), watchers := remove1 ob (watchers s)\<rparr>"
    by (auto simp: watchLeadership_def split: if_splits list.splits)
  then show ?thesis
  proof cases
    case 1
    with assms(1) show ?thesis by (simp add: single_inv_def)
  next
    case 2
    have "length (watchers s) = Suc (length (remove1 ob (watchers s)))"
      using \<open>ob \<in> set (watchers s)\<close> by (metis One_nat_def Suc_pred length_pos_if_in_set length_remove1)
    with assms(1) some 2 show ?thesis by (auto simp: single_inv_def)
  qed
qed

lemma single_inv_act:
  assumes "single_inv s" "assignment_works a s" "vip_act a s = Some t"
  shows "single_inv t"
proof (cases a)
  case (Manager_runs R err)
  with assms show ?thesis
    by (cases "pc s") (auto simp: vip_defs single_defs split: if_splits prod.splits option.splits)
next
  case (Watcher ob)
  with assms show ?thesis using single_inv_watcher by simp
qed (use assms in \<open>cases "pc s"; auto simp: vip_defs single_defs raft_change_frame split: if_splits list.splits\<close>)+

lemma wakeup_inv_act:
  assumes "observer_inv s" "single_inv s" "wakeup_inv s" "announces a s" "vip_act a s = Some t"
  shows "wakeup_inv t"
proof (cases a)
  case (Raft_changes addrs r)
  have "pc s = Campaign_wait ob \<Longrightarrow> observers s \<noteq> []" for ob
    using assms(1) by (auto simp: observer_inv_def observer_of_def)
  with assms(3-5) Raft_changes show ?thesis
    using raft_change_queue [of s addrs] by (auto simp: wakeup_inv_def raft_change_frame)
next
  case (Manager_runs R err)
  with assms(3,5) show ?thesis
    by (cases "pc s") (auto simp: vip_defs wakeup_inv_def split: if_splits prod.splits option.splits)
qed (use assms(2,3,5) in \<open>cases "pc s"; auto simp: vip_defs wakeup_inv_def single_defs split: if_splits list.splits\<close>)+

lemma vip_reached_single:
  "vip_reached (\<lambda>a s. announces a s \<and> assignment_works a s) (vip_start address iface name interval leadership r) s \<Longrightarrow>
   observer_inv s \<and> single_inv s \<and> wakeup_inv s"
proof (induction rule: vip_reached.induct)
  case start
  show ?case using vip_inv_start(1) by (auto simp: NewRaftLeadership_def single_defs wakeup_inv_def)
next
  case (act s a t)
  then show ?case by (auto intro: observer_inv_act single_inv_act wakeup_inv_act)
qed

text \<open>
  (C34) The manager never sleeps through its own election, as long as no assignment of the address has
  failed: whenever it waits in Campaign on a node that leads, an observation waits for it, no watcher
  runs that could take it, and its next two steps end the campaign with a win. No signal of an earlier
  loss is left over at that point, so the address is not given up at once.
\<close>

theorem vip_election_seen:
  assumes "vip_reached (\<lambda>a s. announces a s \<and> assignment_works a s) (vip_start address iface name interval leadership r) s"
    and "pc s = Campaign_wait ob" and "vs_role s = Leader"
  shows "watchers s = [] \<and> \<not> lostCh s \<and> (\<exists>t. select_recv s = Some t \<and> (\<forall>R err.
    \<exists>u. vip_Run R err t = Some u \<and> pc u = Won \<and> watchers u = [ob] \<and> \<not> lostCh u))"
  using vip_reached_single [OF assms(1)] assms(2,3)
  by (auto simp: vip_defs single_defs wakeup_inv_def neq_Nil_conv)

section \<open>The announcement\<close>

text \<open>The frame as it goes on the wire, field by field: Ethernet header, then the ARP request.\<close>

definition arp_frame :: "byte list \<Rightarrow> byte list \<Rightarrow> byte list" where
  "arp_frame mac ip = broadcast @ mac @ [8, 6] @ [0, 1] @ [8, 0] @ [6] @ [4] @ [0, 1] @ mac @ ip @ broadcast @ ip"

lemma field_lengths: "length broadcast = 6" "length (PutUint16 v) = 2"
  by (simp_all add: broadcast_def PutUint16_def)

lemma field_bytes: "PutUint16 0x0806 = [8, 6]" "PutUint16 1 = [0, 1]" "PutUint16 0x0800 = [8, 0]"
  by (simp_all add: PutUint16_def)

lemma copy_slice_end:
  "length pre = i \<Longrightarrow> length bs = j - i \<Longrightarrow> j - i \<le> n \<Longrightarrow>
   copy_slice i j bs (pre @ replicate n 0) = (pre @ bs) @ replicate (n - (j - i)) 0"
  by (simp add: copy_slice_def)

lemma set_byte_end: "length pre = i \<Longrightarrow> n > 0 \<Longrightarrow> (pre @ replicate n 0)[i := v] = (pre @ [v]) @ replicate (n - 1) (0 :: byte)"
  by (cases n) (simp_all add: list_update_append)

lemma arp_packet_layout:
  assumes "length mac = 6" "length ip = 4"
  shows "arp_packet mac ip = arp_frame mac ip"
proof -
  have "arp_packet mac ip = (((((((((((broadcast @ mac) @ PutUint16 0x0806) @ PutUint16 1) @ PutUint16 0x0800) @ [6]) @ [4]) @
      PutUint16 1) @ mac) @ ip) @ broadcast) @ ip)"
    using copy_slice_end [of "[]" 0 broadcast 6 42]
    by (simp add: arp_packet_def copy_slice_end set_byte_end assms field_lengths del: append_assoc append_Cons)
  then show ?thesis by (simp add: arp_frame_def field_bytes)
qed

lemma IPv4_bytes_length:
  "parseIPv4Fields val d pos s \<Longrightarrow> pos \<le> 3 \<Longrightarrow> length (IPv4_bytes v octets s) = length octets + (4 - pos)"
  by (induction val d pos s arbitrary: v octets rule: parseIPv4Fields.induct) (auto split: if_splits)

lemma To4_mapped: "length ip = 4 \<Longrightarrow> To4 (v4_prefix @ ip) = ip"
  by (simp add: To4_def v4_prefix_def)

lemma ParseIP_v4: "ParseIP_ok s \<Longrightarrow> CHR '':'' \<notin> set s \<Longrightarrow> \<exists>ip. length ip = 4 \<and> ParseIP s = v4_prefix @ ip"
  using IPv4_bytes_length [of 0 0 0 s 0 "[]"]
  by (auto simp: ParseIP_def ParseIP_ok_def find_Some_iff dest: nth_mem split: option.splits if_splits)

text \<open>
  (C35) An assignment of an IPv4 address to an Ethernet interface succeeds when the interface is found and the
  kernel takes the address or has it already, and announces it on the wire: the manager sends exactly one
  frame, a broadcast ARP request of 42 bytes in which sender and target are the address, with the
  interface's own hardware address as the sender's, to the interface itself. When the socket cannot be
  opened or the frame not be sent, the assignment succeeds all the same and nothing is announced.
\<close>

theorem vip_announced:
  assumes "ParseIP_ok (vipAddress m)" and "CHR '':'' \<notin> set (vipAddress m)"
    and "net_InterfaceByName R (ifaceName m) = Inr iface" and "length (HardwareAddr iface) = 6"
    and "nl_LinkByName R (ifaceName m) = None" and "nl_ParseAddr R (vipAddress m @ ''/32'') = None"
    and "nl_AddrAdd R \<in> {None, Some ''file exists''}"
  shows "\<exists>ip m'. length ip = 4 \<and> ParseIP (vipAddress m) = v4_prefix @ ip \<and>
    assignVIP R m = (None, m') \<and> acq_total m' = acq_total m + 1 \<and>
    on_iface m' = (nl_AddrAdd R = None \<or> on_iface m) \<and>
    frames m' = frames m @ (if sys_Socket R = None \<and> sys_Sendto R = None
      then [(broadcast @ HardwareAddr iface @ [8, 6] @ [0, 1] @ [8, 0] @ [6] @ [4] @ [0, 1] @ HardwareAddr iface @ ip @ broadcast @ ip,
         \<lparr>sll_Protocol = 0x0608, sll_Ifindex = Index iface, sll_Halen = 6, sll_Addr = broadcast @ [0, 0]\<rparr>)] else [])"
proof -
  obtain ip where ip: "length ip = 4" "ParseIP (vipAddress m) = v4_prefix @ ip" using ParseIP_v4 [OF assms(1,2)] by blast
  have "copy_slice 0 8 broadcast (replicate 8 0) = broadcast @ [0, 0]"
    by (simp add: copy_slice_def broadcast_def eval_nat_numeral)
  moreover have "htons 0x0806 = 0x0608" by (simp add: htons_def)
  ultimately show ?thesis using ip assms(3-7)
    by (intro exI [of _ ip]) (auto simp: assignVIP_def SendGratuitousARP_def Let_def To4_mapped arp_packet_layout arp_frame_def
        split: option.splits if_splits sum.splits)
qed

section \<open>When a call into the kernel fails\<close>

definition no_add :: net_results where
  "no_add = good_net\<lparr>nl_AddrAdd := Some ''operation not permitted''\<rparr>"

definition no_del :: net_results where
  "no_del = good_net\<lparr>nl_AddrDel := Some ''operation not permitted''\<rparr>"

definition vip_example :: "bool \<Rightarrow> RaftState \<Rightarrow> vip_sys" where
  "vip_example present r = NewRaftLeadership (NewVipManager ''192.0.2.99'' ''eth0'' ''n1'' (3 * Second) True present) r"

abbreviation manager_goes :: vip_action where
  "manager_goes \<equiv> Manager_runs good_net None"

lemmas vip_eval = vip_example_def NewRaftLeadership_def NewVipManager_def good_net_def no_add_def no_del_def removing_def
  removeVIP_def observe_def raft_change_def send_obs_def vip_defs assignVIP_def

text \<open>
  (C36) One failed assignment makes the manager sleep through a later election. The watcher of the failed
  campaign goes on running and reads the same channel as the next campaign: here it takes both
  observations of the node's election, and the manager waits although the node leads, with no step
  left for any of its goroutines.
\<close>

theorem vip_election_missed:
  "\<exists>as s. vip_exec sound_net as (vip_example False Leader) = Some s \<and> vs_role s = Leader \<and> pc s = Campaign_wait 1 \<and>
     \<not> cancelled s \<and> (\<forall>a. own_action a \<longrightarrow> vip_act a s = None)"
proof -
  let ?as = "[manager_goes, manager_goes, Manager_runs no_add None, manager_goes, manager_goes, Manager_receives,
    Raft_changes [''''] Follower, manager_goes, manager_goes, Manager_receives, manager_goes,
    Raft_changes [''n1''] Leader, Watcher 0, Watcher 0]"
  obtain s where run: "vip_exec sound_net ?as (vip_example False Leader) = Some s"
    and s: "vs_role s = Leader" "pc s = Campaign_wait 1" "\<not> cancelled s" "obsCh s = []"
    by (simp add: vip_eval Let_def split: prod.split option.split)
  have "vip_act a s = None" if "own_action a" for a
    using that s by (cases a) (simp_all add: vip_defs)
  with run s show ?thesis by blast
qed

theorem vip_election_missed_witness:
  "\<exists>as s. vip_exec sound_net as (vip_example False Leader) = Some s \<and> vs_role s = Leader \<and> pc s = Campaign_wait 1 \<and> vip_act Manager_receives s = None"
proof -
  obtain as s where "vip_exec sound_net as (vip_example False Leader) = Some s" "vs_role s = Leader" "pc s = Campaign_wait 1"
    "\<And>a. own_action a \<Longrightarrow> vip_act a s = None"
    using vip_election_missed by blast
  moreover have "own_action Manager_receives" by simp
  ultimately show ?thesis by blast
qed

text \<open>
  A removal that fails leaves the address on a node that does not lead. After two failed attempts
  the manager waits for the next election with the address still on the interface, and none of
  its goroutines has a step to take it off.
\<close>

theorem vip_left_behind:
  "\<exists>as s. vip_exec announces as (vip_example False Leader) = Some s \<and> vs_role s = Follower \<and> on_iface (mgr s) \<and>
     \<not> cancelled s \<and> (\<forall>a. own_action a \<longrightarrow> vip_act a s = None)"
proof -
  let ?as = "[manager_goes, manager_goes, manager_goes, manager_goes, Raft_changes [''''] Follower, Watcher 0, Manager_receives,
    Manager_runs no_del None, Manager_runs no_del None, Manager_receives, manager_goes, manager_goes]"
  obtain s where run: "vip_exec announces ?as (vip_example False Leader) = Some s"
    and s: "vs_role s = Follower" "pc s = Campaign_wait 1" "\<not> cancelled s" "obsCh s = []" "on_iface (mgr s)"
    by (simp add: vip_eval Let_def split: prod.split option.split)
  have "vip_act a s = None" if "own_action a" for a
    using that s by (cases a) (simp_all add: vip_defs)
  with run s show ?thesis by blast
qed

text \<open>An address that was there at the start, left by a process that crashed, stays on a node that is not elected.\<close>

lemma vip_leftover_stays:
  assumes "vip_reached (\<lambda>a s. announces a s \<and> (\<forall>addrs r. a = Raft_changes addrs r \<longrightarrow> r \<noteq> Leader)) (vip_example True Follower) s"
  shows "on_iface (mgr s) \<and> \<not> isOwner (mgr s)"
proof -
  have "vs_role s \<noteq> Leader \<and> \<not> leading (pc s) \<and> on_iface (mgr s) \<and> \<not> isOwner (mgr s)" using assms
  proof (induction rule: vip_reached.induct)
    case start
    show ?case by (simp add: vip_example_def NewRaftLeadership_def NewVipManager_def leading_def)
  next
    case (act s a t)
    then show ?case
      by (cases a; cases "pc s") (auto simp: vip_defs leading_def raft_change_frame removeVIP_def split: if_splits list.splits)
  qed
  then show ?thesis by simp
qed

section \<open>Instances\<close>

lemma vip_exec_reached: "vip_exec G as s = Some t \<Longrightarrow> vip_reached G s0 s \<Longrightarrow> vip_reached G s0 t"
  by (induction as arbitrary: s) (auto split: if_splits Option.bind_splits intro: vip_reached.act)

lemmas vip_exec_start = vip_exec_reached [OF _ vip_reached.start]

lemma vip_example_overdue:
  "\<exists>s. vip_reached sound_net (vip_example False Leader) s \<and> on_iface (mgr s) \<and> vs_role s = Follower \<and> length (obsCh s) = 1"
proof -
  have "\<exists>s. vip_exec sound_net [manager_goes, manager_goes, manager_goes, manager_goes, Raft_changes [''''] Follower] (vip_example False Leader) = Some s \<and>
      on_iface (mgr s) \<and> vs_role s = Follower \<and> length (obsCh s) = 1"
    by (simp add: vip_eval Let_def split: prod.split option.split)
  then show ?thesis using vip_exec_start by metis
qed

theorem vip_address_safe_witness:
  "\<exists>s :: vip_sys. on_iface (mgr s) \<and> vs_role s \<noteq> Leader \<and> (pc s = Cancelled \<or> pc s = Lost_lead \<or> lostCh s \<or> (obsCh s \<noteq> [] \<and> watchers s \<noteq> []))"
proof -
  obtain s where s: "vip_reached sound_net (vip_example False Leader) s" "on_iface (mgr s)" "vs_role s \<noteq> Leader"
    using vip_example_overdue by force
  from vip_address_safe [OF s(1) [unfolded vip_example_def]] s(2,3) show ?thesis by blast
qed

theorem vip_released_witness:
  "\<exists>s as t. on_iface (mgr s) \<and> vs_role s \<noteq> Leader \<and> length as \<le> 20 \<and> vip_exec on_its_own as s = Some t \<and> \<not> on_iface (mgr t)"
proof -
  obtain s where s: "vip_reached sound_net (vip_example False Leader) s" "on_iface (mgr s)" "vs_role s \<noteq> Leader"
    using vip_example_overdue by force
  from vip_released [OF s(1) [unfolded vip_example_def] s(2,3)] s show ?thesis by blast
qed

theorem vip_election_seen_witness:
  "\<exists>s t. pc s = Campaign_wait 0 \<and> vs_role s = Leader \<and> watchers s = [] \<and> select_recv s = Some t"
proof -
  let ?G = "\<lambda>a s. announces a s \<and> assignment_works a s"
  have "\<exists>s. vip_exec ?G [manager_goes, manager_goes, Raft_changes [''n1''] Leader] (vip_example False Follower) = Some s \<and>
      pc s = Campaign_wait 0 \<and> vs_role s = Leader"
    by (simp add: vip_eval)
  then obtain s where s: "vip_reached ?G (vip_example False Follower) s" "pc s = Campaign_wait 0" "vs_role s = Leader"
    using vip_exec_start by metis
  from vip_election_seen [OF s(1) [unfolded vip_example_def] s(2,3)] s show ?thesis by blast
qed

theorem vip_announced_witness:
  "\<exists>ip. length ip = 4 \<and> ParseIP ''192.0.2.99'' = v4_prefix @ ip \<and>
     (\<exists>m' sa. assignVIP good_net (NewVipManager ''192.0.2.99'' ''eth0'' ''n1'' 0 True False) = (None, m') \<and>
        frames m' = [(broadcast @ replicate 6 1 @ [8, 6] @ [0, 1] @ [8, 0] @ [6] @ [4] @ [0, 1] @ replicate 6 1 @ ip @ broadcast @ ip, sa)])"
proof -
  let ?m = "NewVipManager ''192.0.2.99'' ''eth0'' ''n1'' 0 True False"
  have "ParseIP_ok (vipAddress ?m)" "CHR '':'' \<notin> set (vipAddress ?m)" by code_simp+
  moreover have "net_InterfaceByName good_net (ifaceName ?m) = Inr \<lparr>HardwareAddr = replicate 6 1, Index = 2\<rparr>"
    "length (HardwareAddr \<lparr>HardwareAddr = replicate 6 1, Index = 2\<rparr>) = 6" by (simp_all add: good_net_def)
  moreover have "nl_LinkByName good_net (ifaceName ?m) = None" "nl_ParseAddr good_net (vipAddress ?m @ ''/32'') = None"
    "nl_AddrAdd good_net \<in> {None, Some ''file exists''}"
    by (simp_all add: good_net_def)
  ultimately show ?thesis using vip_announced [of ?m good_net "\<lparr>HardwareAddr = replicate 6 1, Index = 2\<rparr>"]
    by (auto simp: good_net_def NewVipManager_def)
qed

end
