(* ===== verification/Chaos.thy ===== *)
theory Chaos
  imports Router GoStd
begin

text \<open>
  The doubles that the tests inject failures with (\<open>testutil/chaos.go\<close>): a command executor, a PostgreSQL
  connector and connection, a source of leadership and a source of the cluster's state. Each method is a function of
  the double's state. Random numbers, and which of a delay and the context's end comes first, are
  arguments; a call that has not returned because it waits for its context is \<open>None\<close>.
\<close>

datatype chaos_error =
    ErrChaosInjected | ErrChaosTimeout | ErrChaosConnRefused | ErrChaosLeaderLost | ErrChaosNetworkSplit
  | CtxErr | ErrNoRows | OtherErr string

section \<open>Command executor\<close>

text \<open>filepath.Base: the last element of a path, without trailing slashes.\<close>

definition filepath_Base :: "string \<Rightarrow> string" where
  "filepath_Base path =
     (if path = '''' then ''.''
      else let p = rev (dropWhile (\<lambda>c. c = CHR ''/'') (rev path))
           in if p = '''' then ''/'' else rev (takeWhile (\<lambda>c. c \<noteq> CHR ''/'') (rev p)))"

record ChaosExecutor =
  FailureRate :: rat
  Latency :: duration
  FailCommands :: "(string, chaos_error) fmap"
  CommandCounts :: "(string, int) fmap"
  FailAfterN :: "(string, int) fmap"
  TimeoutCommands :: "(string, bool) fmap"
  outputs :: "(string, string) fmap"

definition NewChaosExecutor :: ChaosExecutor where
  "NewChaosExecutor = \<lparr>FailureRate = 0, Latency = 0, FailCommands = fmempty, CommandCounts = fmempty, FailAfterN = fmempty,
     TimeoutCommands = fmempty, outputs = fmempty\<rparr>"

definition map_get :: "'v \<Rightarrow> ('k, 'v) fmap \<Rightarrow> 'k \<Rightarrow> 'v" where
  "map_get z m k = (case fmlookup m k of None \<Rightarrow> z | Some v \<Rightarrow> v)"

definition GetCallCount :: "string \<Rightarrow> ChaosExecutor \<Rightarrow> int" where
  "GetCallCount name e = map_get 0 (CommandCounts e) name"

definition count_call :: "string \<Rightarrow> ChaosExecutor \<Rightarrow> ChaosExecutor" where
  "count_call base e = e\<lparr>CommandCounts := fmupd base (wrap64 (GetCallCount base e + 1)) (CommandCounts e)\<rparr>"

definition over_limit :: "string \<Rightarrow> int \<Rightarrow> ChaosExecutor \<Rightarrow> bool" where
  "over_limit key count e = (case fmlookup (FailAfterN e) key of None \<Rightarrow> False | Some n \<Rightarrow> count > n)"

text \<open>\<open>ctx\<close>: whether the context ends while the call waits for it; an output of \<open>None\<close> is nil.\<close>

definition Executor_Run :: "rat \<Rightarrow> bool \<Rightarrow> string \<Rightarrow> ChaosExecutor \<Rightarrow> (chaos_error + string option) option \<times> ChaosExecutor" where
  "Executor_Run rand ctx name e0 =
     (let base = filepath_Base name; e = count_call base e0; count = GetCallCount base e
      in (if map_get False (TimeoutCommands e) name \<or> map_get False (TimeoutCommands e) base
          then (if ctx then Some (Inl ErrChaosTimeout) else None)
          else case fmlookup (FailCommands e) name of Some err \<Rightarrow> Some (Inl err)
          | None \<Rightarrow> (case fmlookup (FailCommands e) base of Some err \<Rightarrow> Some (Inl err)
            | None \<Rightarrow>
                if over_limit base count e \<or> over_limit name count e then Some (Inl ErrChaosInjected)
                else if FailureRate e > 0 \<and> rand < FailureRate e then Some (Inl ErrChaosInjected)
                else if Latency e > 0 \<and> ctx then Some (Inl CtxErr)
                else Some (Inr (case fmlookup (outputs e) name of Some out \<Rightarrow> Some out | None \<Rightarrow> fmlookup (outputs e) base))), e))"

definition SetOutput :: "string \<Rightarrow> string \<Rightarrow> ChaosExecutor \<Rightarrow> ChaosExecutor" where
  "SetOutput name out e = e\<lparr>outputs := fmupd name out (outputs e)\<rparr>"

definition Executor_Reset :: "ChaosExecutor \<Rightarrow> ChaosExecutor" where
  "Executor_Reset e = NewChaosExecutor"

section \<open>Connector and connection\<close>

datatype any = ABool bool | AInt int | AInt64 int | AInt64Ptr "int option" | AString string

record MockRow =
  mr_values :: "any list"
  mr_err :: "chaos_error option"

record ChaosConn =
  FailQuery :: bool
  QueryError :: "chaos_error option"
  QueryDelay :: duration
  Results :: "(string, MockRow) fmap"
  QueryHistory :: "string list"
  cc_closed :: bool

definition NewChaosConn :: ChaosConn where
  "NewChaosConn = \<lparr>FailQuery = False, QueryError = None, QueryDelay = 0, Results = fmempty, QueryHistory = [], cc_closed = False\<rparr>"

record ChaosConnector =
  FailConnect :: bool
  ConnectError :: "chaos_error option"
  ConnectDelay :: duration
  Connection :: ChaosConn
  ConnectCount :: int

definition NewChaosConnector :: ChaosConnector where
  "NewChaosConnector = \<lparr>FailConnect = False, ConnectError = None, ConnectDelay = 0, Connection = NewChaosConn, ConnectCount = 0\<rparr>"

definition injected :: "chaos_error option \<Rightarrow> chaos_error \<Rightarrow> chaos_error" where
  "injected e d = (case e of None \<Rightarrow> d | Some err \<Rightarrow> err)"

text \<open>While the delay runs the lock is given up: \<open>f\<close> is what other goroutines do to the connector then.\<close>

definition Connect :: "bool \<Rightarrow> (ChaosConnector \<Rightarrow> ChaosConnector) \<Rightarrow> ChaosConnector \<Rightarrow> (chaos_error + ChaosConn) \<times> ChaosConnector" where
  "Connect ctx f c0 =
     (let c1 = c0\<lparr>ConnectCount := wrap64 (ConnectCount c0 + 1)\<rparr>
      in if ConnectDelay c1 > 0 \<and> ctx then (Inl CtxErr, f c1)
         else let c = (if ConnectDelay c1 > 0 then f c1 else c1)
           in if FailConnect c then (Inl (injected (ConnectError c) ErrChaosConnRefused), c) else (Inr (Connection c), c))"

definition error_row :: "chaos_error \<Rightarrow> MockRow" where
  "error_row err = \<lparr>mr_values = [], mr_err = Some err\<rparr>"

definition QueryRow :: "bool \<Rightarrow> (ChaosConn \<Rightarrow> ChaosConn) \<Rightarrow> string \<Rightarrow> ChaosConn \<Rightarrow> MockRow \<times> ChaosConn" where
  "QueryRow ctx f sql c0 =
     (let c1 = c0\<lparr>QueryHistory := QueryHistory c0 @ [sql]\<rparr>
      in if QueryDelay c1 > 0 \<and> ctx then (error_row CtxErr, f c1)
         else let c = (if QueryDelay c1 > 0 then f c1 else c1)
           in if FailQuery c then (error_row (injected (QueryError c) ErrChaosInjected), c)
              else (case fmlookup (Results c) sql of None \<Rightarrow> (error_row ErrNoRows, c) | Some row \<Rightarrow> (row, c)))"

text \<open>The rows of a query are always empty.\<close>

definition Conn_Query :: "string \<Rightarrow> ChaosConn \<Rightarrow> (chaos_error + any list list) \<times> ChaosConn" where
  "Conn_Query sql c0 =
     (let c = c0\<lparr>QueryHistory := QueryHistory c0 @ [sql]\<rparr>
      in (if FailQuery c then Inl (injected (QueryError c) ErrChaosInjected) else Inr [], c))"

definition Conn_Close :: "ChaosConn \<Rightarrow> ChaosConn" where
  "Conn_Close c = c\<lparr>cc_closed := True\<rparr>"

definition IsClosed :: "ChaosConn \<Rightarrow> bool" where
  "IsClosed c = cc_closed c"

definition SetResult :: "string \<Rightarrow> any list \<Rightarrow> ChaosConn \<Rightarrow> ChaosConn" where
  "SetResult sql vals c = c\<lparr>Results := fmupd sql \<lparr>mr_values = vals, mr_err = None\<rparr> (Results c)\<rparr>"

text \<open>Scanning: a destination is its type with its value; a value of another type leaves it.\<close>

fun scan_value :: "any \<Rightarrow> any \<Rightarrow> any" where
  "scan_value (ABool d) (ABool v) = ABool v"
| "scan_value (AInt d) (AInt v) = AInt v"
| "scan_value (AInt64 d) (AInt64 v) = AInt64 v"
| "scan_value (AInt64Ptr d) (AInt64Ptr v) = AInt64Ptr v"
| "scan_value (AInt64Ptr d) (AInt64 v) = AInt64Ptr (Some v)"
| "scan_value (AString d) (AString v) = AString v"
| "scan_value d v = d"

fun scan_values :: "any list \<Rightarrow> any list \<Rightarrow> any list" where
  "scan_values (v # vs) (d # ds) = scan_value d v # scan_values vs ds"
| "scan_values vs ds = ds"

definition Row_Scan :: "MockRow \<Rightarrow> any list \<Rightarrow> chaos_error option \<times> any list" where
  "Row_Scan r dest = (case mr_err r of Some err \<Rightarrow> (Some err, dest) | None \<Rightarrow> (None, scan_values (mr_values r) dest))"

record MockRows =
  rows :: "any list list"
  current :: int
  mk_closed :: bool

definition Next :: "MockRows \<Rightarrow> bool \<times> MockRows" where
  "Next r = (if current r \<ge> int (length (rows r)) then (False, r) else (True, r\<lparr>current := current r + 1\<rparr>))"

text \<open>Rows scan into strings, int64 and bool only.\<close>

definition rows_scan_value :: "any \<Rightarrow> any \<Rightarrow> any" where
  "rows_scan_value d v = (case d of AInt _ \<Rightarrow> d | AInt64Ptr _ \<Rightarrow> d | _ \<Rightarrow> scan_value d v)"

fun rows_scan_values :: "any list \<Rightarrow> any list \<Rightarrow> any list" where
  "rows_scan_values (v # vs) (d # ds) = rows_scan_value d v # rows_scan_values vs ds"
| "rows_scan_values vs ds = ds"

definition Rows_Scan :: "MockRows \<Rightarrow> any list \<Rightarrow> chaos_error option \<times> any list" where
  "Rows_Scan r dest =
     (if current r = 0 \<or> current r > int (length (rows r)) then (Some ErrNoRows, dest)
      else (None, rows_scan_values (rows r ! nat (current r - 1)) dest))"

section \<open>Leadership\<close>

text \<open>Channels are numbered in the order of their creation; \<open>shut\<close> are the closed ones.\<close>

record ChaosLeadershipSource =
  lds_IsLeader :: bool
  FailCampaign :: bool
  CampaignError :: "chaos_error option"
  CampaignDelay :: duration
  FailResign :: bool
  ResignError :: "chaos_error option"
  leadershipLost :: nat
  next_channel :: nat
  shut :: "nat list"
  campaignCount :: int

definition NewChaosLeadershipSource :: ChaosLeadershipSource where
  "NewChaosLeadershipSource = \<lparr>lds_IsLeader = False, FailCampaign = False, CampaignError = None, CampaignDelay = 0,
     FailResign = False, ResignError = None, leadershipLost = 0, next_channel = 1, shut = [], campaignCount = 0\<rparr>"

definition Chaos_Campaign :: "bool \<Rightarrow> ChaosLeadershipSource \<Rightarrow> chaos_error option \<times> ChaosLeadershipSource" where
  "Chaos_Campaign ctx s0 =
     (let s = s0\<lparr>campaignCount := wrap32 (campaignCount s0 + 1)\<rparr>
      in if CampaignDelay s > 0 \<and> ctx then (Some CtxErr, s)
         else if FailCampaign s then (Some (injected (CampaignError s) ErrChaosInjected), s)
         else (None, s\<lparr>lds_IsLeader := True\<rparr>))"

definition Chaos_Resign :: "ChaosLeadershipSource \<Rightarrow> chaos_error option \<times> ChaosLeadershipSource" where
  "Chaos_Resign s = (if FailResign s then (Some (injected (ResignError s) ErrChaosInjected), s)
     else (None, s\<lparr>lds_IsLeader := False\<rparr>))"

definition LeadershipLost :: "ChaosLeadershipSource \<Rightarrow> nat" where
  "LeadershipLost s = leadershipLost s"

definition new_channel :: "ChaosLeadershipSource \<Rightarrow> ChaosLeadershipSource" where
  "new_channel s = s\<lparr>leadershipLost := next_channel s, next_channel := next_channel s + 1\<rparr>"

definition SimulateLeadershipLoss :: "ChaosLeadershipSource \<Rightarrow> ChaosLeadershipSource" where
  "SimulateLeadershipLoss s = new_channel (s\<lparr>lds_IsLeader := False, shut := leadershipLost s # shut s\<rparr>)"

definition GetCampaignCount :: "ChaosLeadershipSource \<Rightarrow> int" where
  "GetCampaignCount s = campaignCount s"

definition Leadership_Reset :: "ChaosLeadershipSource \<Rightarrow> ChaosLeadershipSource" where
  "Leadership_Reset s = new_channel (s\<lparr>lds_IsLeader := False, FailCampaign := False, CampaignError := None, CampaignDelay := 0,
     FailResign := False, ResignError := None, campaignCount := 0\<rparr>)"

section \<open>Cluster state\<close>

record ChaosNode =
  cn_Name :: string
  cn_Host :: string
  cn_Port :: int

record ChaosClusterState =
  cs_Primary :: "ChaosNode option"
  cs_Replicas :: "ChaosNode list"
  cs_SplitBrain :: bool
  SimulatePartition :: bool
  FlickerPrimary :: bool
  flickerCount :: int

definition NewChaosClusterState :: ChaosClusterState where
  "NewChaosClusterState = \<lparr>cs_Primary = None, cs_Replicas = [], cs_SplitBrain = False, SimulatePartition = False,
     FlickerPrimary = False, flickerCount = 0\<rparr>"

definition Chaos_GetPrimary :: "ChaosClusterState \<Rightarrow> ChaosNode option \<times> ChaosClusterState" where
  "Chaos_GetPrimary s0 =
     (if FlickerPrimary s0
      then let s = s0\<lparr>flickerCount := wrap64 (flickerCount s0 + 1)\<rparr>
           in (if flickerCount s mod 2 = 0 then None else cs_Primary s, s)
      else (cs_Primary s0, s0))"

definition Chaos_GetReplicas :: "ChaosClusterState \<Rightarrow> ChaosNode list" where
  "Chaos_GetReplicas s = cs_Replicas s"

definition Chaos_IsSplitBrain :: "ChaosClusterState \<Rightarrow> bool" where
  "Chaos_IsSplitBrain s \<longleftrightarrow> cs_SplitBrain s \<or> SimulatePartition s"

definition Chaos_SetPrimary :: "string \<Rightarrow> string \<Rightarrow> int \<Rightarrow> ChaosClusterState \<Rightarrow> ChaosClusterState" where
  "Chaos_SetPrimary name host port s = s\<lparr>cs_Primary := Some \<lparr>cn_Name = name, cn_Host = host, cn_Port = port\<rparr>\<rparr>"

definition Chaos_AddReplica :: "string \<Rightarrow> string \<Rightarrow> int \<Rightarrow> ChaosClusterState \<Rightarrow> ChaosClusterState" where
  "Chaos_AddReplica name host port s = s\<lparr>cs_Replicas := cs_Replicas s @ [\<lparr>cn_Name = name, cn_Host = host, cn_Port = port\<rparr>]\<rparr>"

definition State_Reset :: "ChaosClusterState \<Rightarrow> ChaosClusterState" where
  "State_Reset s = NewChaosClusterState"

section \<open>Properties\<close>

lemma GetCallCount_count_call: "GetCallCount base (count_call base e) = wrap64 (GetCallCount base e + 1)"
  by (simp add: GetCallCount_def count_call_def map_get_def)

lemma count_call_frame:
  "FailCommands (count_call base e) = FailCommands e" "FailAfterN (count_call base e) = FailAfterN e"
  "TimeoutCommands (count_call base e) = TimeoutCommands e" "FailureRate (count_call base e) = FailureRate e"
  "Latency (count_call base e) = Latency e" "outputs (count_call base e) = outputs e"
  by (simp_all add: count_call_def)

text \<open>A limit is the only failure that is set up.\<close>

definition only_limited :: "string \<Rightarrow> int \<Rightarrow> ChaosExecutor \<Rightarrow> bool" where
  "only_limited base n e \<longleftrightarrow> FailAfterN e = fmupd base n fmempty \<and> FailCommands e = fmempty \<and> TimeoutCommands e = fmempty \<and>
     FailureRate e = 0 \<and> Latency e = 0"

lemma run_limited:
  assumes "only_limited (filepath_Base name) n e" and "GetCallCount (filepath_Base name) e = int k" and "int k < 2 ^ 63 - 1"
    and "Executor_Run rand ctx name e = (r, e')"
  shows "(case r of Some (Inr _) \<Rightarrow> int k < n | Some (Inl err) \<Rightarrow> err = ErrChaosInjected \<and> n \<le> int k | None \<Rightarrow> False) \<and>
    only_limited (filepath_Base name) n e' \<and> GetCallCount (filepath_Base name) e' = int (Suc k)"
proof -
  have w: "wrap64 (int k + 1) = int k + 1" using assms(3) by (intro wrap64_id) (simp add: in_int64_def)
  have "over_limit name (int k + 1) e \<longrightarrow> over_limit (filepath_Base name) (int k + 1) e"
    using assms(1) by (simp add: over_limit_def only_limited_def)
  moreover have "over_limit (filepath_Base name) (int k + 1) e \<longleftrightarrow> n \<le> int k"
    using assms(1) by (auto simp: over_limit_def only_limited_def)
  moreover have "over_limit nm c (count_call b e) = over_limit nm c e" for nm c b by (simp add: over_limit_def count_call_frame)
  ultimately show ?thesis using assms(1,2,4) w
    by (auto simp: Executor_Run_def Let_def only_limited_def count_call_frame GetCallCount_count_call map_get_def)
qed

fun runs :: "string \<Rightarrow> nat \<Rightarrow> ChaosExecutor \<Rightarrow> (chaos_error + string option) option list" where
  "runs name 0 e = []"
| "runs name (Suc k) e = (let (r, e') = Executor_Run 0 False name e in r # runs name k e')"

definition succeeded :: "(chaos_error + string option) option \<Rightarrow> bool" where
  "succeeded r = (case r of Some (Inr _) \<Rightarrow> True | _ \<Rightarrow> False)"

text \<open>\<open>FailAfterN\<close> set to \<open>n\<close> lets exactly the first \<open>n\<close> calls succeed, by whatever path the command is named.\<close>

lemma fail_after_n:
  "only_limited (filepath_Base name) n e \<Longrightarrow> GetCallCount (filepath_Base name) e = int c \<Longrightarrow> int c + int k < 2 ^ 63 \<Longrightarrow>
   map succeeded (runs name k e) = map (\<lambda>i. int (c + i) < n) [0..<k]"
proof (induction k arbitrary: e c)
  case (Suc k)
  obtain r e' where run: "Executor_Run 0 False name e = (r, e')" by fastforce
  from run_limited [OF Suc.prems(1,2) _ run] Suc.prems(3)
  have r: "succeeded r \<longleftrightarrow> int c < n" and e': "only_limited (filepath_Base name) n e'" "GetCallCount (filepath_Base name) e' = int (Suc c)"
    by (auto simp: succeeded_def split: option.splits sum.splits)
  have "map succeeded (runs name k e') = map (\<lambda>i. int (Suc c + i) < n) [0..<k]"
    using Suc.IH [OF e'] Suc.prems(3) by simp
  moreover have "map (\<lambda>i. int (c + i) < n) [0..<Suc k] = (int c < n) # map (\<lambda>i. int (Suc c + i) < n) [0..<k]"
    by (subst upt_conv_Cons) (simp_all add: map_Suc_upt [symmetric] add.left_commute del: upt_Suc)
  ultimately show ?case using r run by simp
qed simp

text \<open>A loss reaches whoever asked for the channel before it, and nobody who asks after it; a reset
  leaves those who wait with a channel that nothing closes any more.\<close>

definition channel_inv :: "ChaosLeadershipSource \<Rightarrow> bool" where
  "channel_inv s \<longleftrightarrow> leadershipLost s < next_channel s \<and> leadershipLost s \<notin> set (shut s) \<and> (\<forall>c \<in> set (shut s). c < next_channel s)"

lemma channel_inv_start: "channel_inv NewChaosLeadershipSource"
  by (simp add: channel_inv_def NewChaosLeadershipSource_def)

lemma loss_reaches_waiters:
  assumes "channel_inv s"
  shows "channel_inv (SimulateLeadershipLoss s)" "LeadershipLost s \<in> set (shut (SimulateLeadershipLoss s))"
    "LeadershipLost (SimulateLeadershipLoss s) \<notin> set (shut (SimulateLeadershipLoss s))"
    "channel_inv (Leadership_Reset s)" "LeadershipLost s \<notin> set (shut (SimulateLeadershipLoss (Leadership_Reset s)))"
  using assms
  by (auto simp: channel_inv_def SimulateLeadershipLoss_def Leadership_Reset_def LeadershipLost_def new_channel_def less_Suc_eq)

lemma flicker_alternates:
  assumes "FlickerPrimary s" and "flickerCount s = int k" and "int k < 2 ^ 63 - 1"
  shows "fst (Chaos_GetPrimary s) = (if even k then cs_Primary s else None) \<and> flickerCount (snd (Chaos_GetPrimary s)) = int (Suc k)"
proof -
  have "wrap64 (int k + 1) = int k + 1" using assms(3) by (intro wrap64_id) (simp add: in_int64_def)
  then show ?thesis using assms(1,2) by (auto simp: Chaos_GetPrimary_def Let_def)
qed

end
