(* ===== verification/Pipe.thy ===== *)
theory Pipe
  imports Proxy "HOL-Library.Sublist"
begin

text \<open>
  Copying between a client and its backend (\<open>Pipe\<close> in \<open>proxy/connection.go\<close>): two goroutines that
  each run \<open>io.Copy\<close> in one direction. An iteration of the copying loop is an action that carries
  what the two sockets answered; the actions of both goroutines and the handler's closing of the
  connections come in any order. The theorems: each destination is given the source's bytes, in
  order and without gaps; the pipe returns when both directions have ended; and once the handler
  has closed the connections the two goroutines end.
\<close>

section \<open>The copying loop\<close>

datatype read_error = EOF | ReadFailed string

datatype copy_error = CopyRead string | CopyWrite string | ErrShortWrite | ErrInvalidWrite

text \<open>
  One iteration: the bytes read and the error that came with them, the count and the error that
  the write returned, and the number of bytes the destination took.
\<close>

record 'b iteration =
  it_chunk :: "'b list"
  it_er :: "read_error option"
  it_nw :: int
  it_ew :: "string option"
  it_taken :: nat

text \<open>The result is \<open>None\<close> while the loop runs; the end of the source is no error.\<close>

record 'b copying =
  cp_written :: int
  cp_delivered :: "'b list"
  cp_result :: "copy_error option option"

definition copy_start :: "'b copying" where
  "copy_start = \<lparr>cp_written = 0, cp_delivered = [], cp_result = None\<rparr>"

fun read_end :: "read_error option \<Rightarrow> 'b copying \<Rightarrow> 'b copying" where
  "read_end None c = c"
| "read_end (Some EOF) c = c\<lparr>cp_result := Some None\<rparr>"
| "read_end (Some (ReadFailed e)) c = c\<lparr>cp_result := Some (Some (CopyRead e))\<rparr>"

definition write_error :: "'b iteration \<Rightarrow> copy_error option" where
  "write_error it =
     (let nr = int (length (it_chunk it))
      in if it_nw it < 0 \<or> nr < it_nw it
         then Some (case it_ew it of None \<Rightarrow> ErrInvalidWrite | Some e \<Rightarrow> CopyWrite e)
         else case it_ew it of Some e \<Rightarrow> Some (CopyWrite e)
           | None \<Rightarrow> if nr \<noteq> it_nw it then Some ErrShortWrite else None)"

definition copy_iteration :: "'b iteration \<Rightarrow> 'b copying \<Rightarrow> 'b copying" where
  "copy_iteration it c =
     (let nr = int (length (it_chunk it))
      in if nr > 0
         then let nw = (if it_nw it < 0 \<or> nr < it_nw it then 0 else it_nw it);
                  c1 = c\<lparr>cp_written := wrap64 (cp_written c + nw), cp_delivered := cp_delivered c @ take (it_taken it) (it_chunk it)\<rparr>
              in case write_error it of Some e \<Rightarrow> c1\<lparr>cp_result := Some (Some e)\<rparr> | None \<Rightarrow> read_end (it_er it) c1
         else read_end (it_er it) c)"

section \<open>The pipe\<close>

datatype direction = Upload | Download

datatype side = Client | Backend

instantiation direction :: enum
begin

definition enum_direction :: "direction list" where "enum_direction = [Upload, Download]"

definition enum_all_direction :: "(direction \<Rightarrow> bool) \<Rightarrow> bool" where "enum_all_direction P \<longleftrightarrow> P Upload \<and> P Download"

definition enum_ex_direction :: "(direction \<Rightarrow> bool) \<Rightarrow> bool" where "enum_ex_direction P \<longleftrightarrow> P Upload \<or> P Download"

instance
proof
  fix P :: "direction \<Rightarrow> bool"
  have P: "P Upload \<Longrightarrow> P Download \<Longrightarrow> P x" and E: "P x \<Longrightarrow> P Upload \<or> P Download" for x by (cases x; simp)+
  have U: "x \<in> {Upload, Download}" for x :: direction by (cases x) simp_all
  then show "UNIV = set (enum_class.enum :: direction list)" by (auto simp: enum_direction_def)
  show "distinct (enum_class.enum :: direction list)" by (simp add: enum_direction_def)
  show "enum_class.enum_all P \<longleftrightarrow> Ball UNIV P" using P by (auto simp: enum_all_direction_def)
  show "enum_class.enum_ex P \<longleftrightarrow> Bex UNIV P" using E by (auto simp: enum_ex_direction_def)
qed

end

instantiation side :: enum
begin

definition enum_side :: "side list" where "enum_side = [Client, Backend]"

definition enum_all_side :: "(side \<Rightarrow> bool) \<Rightarrow> bool" where "enum_all_side P \<longleftrightarrow> P Client \<and> P Backend"

definition enum_ex_side :: "(side \<Rightarrow> bool) \<Rightarrow> bool" where "enum_ex_side P \<longleftrightarrow> P Client \<or> P Backend"

instance
proof
  fix P :: "side \<Rightarrow> bool"
  have P: "P Client \<Longrightarrow> P Backend \<Longrightarrow> P x" and E: "P x \<Longrightarrow> P Client \<or> P Backend" for x by (cases x; simp)+
  have U: "x \<in> {Client, Backend}" for x :: side by (cases x) simp_all
  then show "UNIV = set (enum_class.enum :: side list)" by (auto simp: enum_side_def)
  show "distinct (enum_class.enum :: side list)" by (simp add: enum_side_def)
  show "enum_class.enum_all P \<longleftrightarrow> Ball UNIV P" using P by (auto simp: enum_all_side_def)
  show "enum_class.enum_ex P \<longleftrightarrow> Bex UNIV P" using E by (auto simp: enum_ex_side_def)
qed

end

fun source_of :: "direction \<Rightarrow> side" where
  "source_of Upload = Client"
| "source_of Download = Backend"

fun target_of :: "direction \<Rightarrow> side" where
  "target_of Upload = Backend"
| "target_of Download = Client"

text \<open>
  \<open>p_closedWrite\<close> says that the write side of a connection was closed, \<open>p_closed\<close> that the handler
  closed it. \<open>p_from\<close> and \<open>p_to\<close> are the history of the two connections: the bytes that were read from
  each and those that each was given.
\<close>

record 'b pipe =
  p_copy :: "direction \<Rightarrow> 'b copying"
  p_done :: "direction \<Rightarrow> bool"
  BytesSent :: int
  BytesReceived :: int
  p_closedWrite :: "side \<Rightarrow> bool"
  p_closed :: "side \<Rightarrow> bool"
  p_wg :: int
  p_from :: "side \<Rightarrow> 'b list"
  p_to :: "side \<Rightarrow> 'b list"

definition pipe_start :: "'b pipe" where
  "pipe_start = \<lparr>p_copy = (\<lambda>_. copy_start), p_done = (\<lambda>_. False), BytesSent = 0, BytesReceived = 0,
     p_closedWrite = (\<lambda>_. False), p_closed = (\<lambda>_. False), p_wg = 2, p_from = (\<lambda>_. []), p_to = (\<lambda>_. [])\<rparr>"

definition pipe_returned :: "'b pipe \<Rightarrow> bool" where
  "pipe_returned s \<longleftrightarrow> p_wg s = 0"

text \<open>
  What the documentation of \<open>net.Conn\<close> promises of an iteration: a write reports the number of
  bytes taken, and an error when that is not all; a closed connection gives no bytes and an error
  to a reader, and an error to a writer.
\<close>

definition conn_answers :: "'b pipe \<Rightarrow> direction \<Rightarrow> 'b iteration \<Rightarrow> bool" where
  "conn_answers s d it \<longleftrightarrow>
     it_nw it = int (it_taken it) \<and> it_taken it \<le> length (it_chunk it) \<and>
     (it_taken it < length (it_chunk it) \<longrightarrow> it_ew it \<noteq> None) \<and>
     (p_closed s (source_of d) \<longrightarrow> it_chunk it = [] \<and> it_er it \<noteq> None) \<and>
     (p_closed s (target_of d) \<longrightarrow> it_ew it \<noteq> None)"

fun count_bytes :: "direction \<Rightarrow> int \<Rightarrow> 'b pipe \<Rightarrow> 'b pipe" where
  "count_bytes Upload n s = s\<lparr>BytesSent := wrap64 (BytesSent s + n)\<rparr>"
| "count_bytes Download n s = s\<lparr>BytesReceived := wrap64 (BytesReceived s + n)\<rparr>"

text \<open>The rest of a goroutine after its loop: the statistics, the half close, and the wait group.\<close>

definition finish_copy :: "(side \<Rightarrow> bool) \<Rightarrow> direction \<Rightarrow> 'b pipe \<Rightarrow> 'b pipe" where
  "finish_copy half d s =
     (let s1 = count_bytes d (cp_written (p_copy s d)) s;
          s2 = (if half (target_of d) then s1\<lparr>p_closedWrite := (p_closedWrite s1)(target_of d := True)\<rparr> else s1)
      in s2\<lparr>p_done := (p_done s2)(d := True), p_wg := p_wg s2 - 1\<rparr>)"

text \<open>One iteration of a goroutine's loop: it reads from the one connection and writes to the other.\<close>

definition iterate_copy :: "direction \<Rightarrow> 'b iteration \<Rightarrow> 'b pipe \<Rightarrow> 'b pipe" where
  "iterate_copy d it s =
     s\<lparr>p_copy := (p_copy s)(d := copy_iteration it (p_copy s d)),
       p_from := (p_from s)(source_of d := p_from s (source_of d) @ it_chunk it),
       p_to := (p_to s)(target_of d := p_to s (target_of d) @ take (it_taken it) (it_chunk it))\<rparr>"

datatype 'b pipe_action = Iterate direction "'b iteration" | Finish direction | CloseSide side

text \<open>
  An action, where it is possible: an iteration while the loop runs, the rest of the goroutine
  once after it, the closing at any time. \<open>half\<close> tells which connections can be closed one way.
\<close>

fun pipe_do :: "(side \<Rightarrow> bool) \<Rightarrow> 'b pipe_action \<Rightarrow> 'b pipe \<Rightarrow> 'b pipe option" where
  "pipe_do half (Iterate d it) s =
     (if cp_result (p_copy s d) = None \<and> conn_answers s d it
      then Some (iterate_copy d it s) else None)"
| "pipe_do half (Finish d) s =
     (if cp_result (p_copy s d) \<noteq> None \<and> \<not> p_done s d then Some (finish_copy half d s) else None)"
| "pipe_do half (CloseSide x) s = Some (s\<lparr>p_closed := (p_closed s)(x := True)\<rparr>)"

fun pipe_run :: "(side \<Rightarrow> bool) \<Rightarrow> 'b pipe_action list \<Rightarrow> 'b pipe \<Rightarrow> 'b pipe option" where
  "pipe_run half [] s = Some s"
| "pipe_run half (a # as) s = Option.bind (pipe_do half a s) (pipe_run half as)"

section \<open>What a destination gets\<close>

lemma pipe_run_append: "pipe_run half (as @ bs) s = Option.bind (pipe_run half as s) (pipe_run half bs)"
  by (induction as arbitrary: s) (simp_all add: Option.bind_assoc cong: Option.bind_cong)

lemma wrap64_simps [simp]: "wrap64 0 = 0" "wrap64 (wrap64 x) = wrap64 x" "wrap64 (wrap64 x + y) = wrap64 (x + y)"
  by (simp_all add: wrap64_def add.commute add.left_commute mod_simps algebra_simps)

text \<open>
  A direction's copying against the bytes read so far: a prefix of them was delivered, all of
  them unless it ended with an error.
\<close>

definition copied :: "'b list \<Rightarrow> 'b copying \<Rightarrow> bool" where
  "copied bs c \<longleftrightarrow> prefix (cp_delivered c) bs \<and> (cp_result c \<in> {None, Some None} \<longrightarrow> cp_delivered c = bs) \<and>
     cp_written c = wrap64 (int (length (cp_delivered c)))"

fun counted :: "direction \<Rightarrow> 'b pipe \<Rightarrow> int" where
  "counted Upload s = BytesSent s"
| "counted Download s = BytesReceived s"

definition pipe_inv :: "(side \<Rightarrow> bool) \<Rightarrow> 'b pipe \<Rightarrow> bool" where
  "pipe_inv half s \<longleftrightarrow>
     (\<forall>d. copied (p_from s (source_of d)) (p_copy s d) \<and> p_to s (target_of d) = cp_delivered (p_copy s d) \<and>
        (p_done s d \<longrightarrow> cp_result (p_copy s d) \<noteq> None) \<and>
        counted d s = (if p_done s d then cp_written (p_copy s d) else 0) \<and>
        p_closedWrite s (target_of d) = (p_done s d \<and> half (target_of d))) \<and>
     p_wg s = (if p_done s Upload then 0 else 1) + (if p_done s Download then 0 else 1)"

lemma all_directions: "(\<forall>d. P d) \<longleftrightarrow> P Upload \<and> P Download"
  by (metis direction.exhaust)

lemma read_end_fields [simp]:
  "cp_delivered (read_end e c) = cp_delivered c" "cp_written (read_end e c) = cp_written c"
  "cp_result (read_end e c) = (case e of None \<Rightarrow> cp_result c | Some EOF \<Rightarrow> Some None | Some (ReadFailed x) \<Rightarrow> Some (Some (CopyRead x)))"
  by (cases "(e, c)" rule: read_end.cases; simp)+

lemma copied_iteration:
  assumes "copied bs c" "cp_result c = None" "conn_answers s d it"
  shows "copied (bs @ it_chunk it) (copy_iteration it c)"
proof (cases "it_chunk it = []")
  case True
  with assms show ?thesis by (auto simp: copied_def copy_iteration_def split: option.splits read_error.splits)
next
  case False
  have d: "cp_delivered c = bs" "cp_written c = wrap64 (int (length bs))" using assms(1,2) by (auto simp: copied_def)
  have nw: "it_nw it = int (it_taken it)" "it_taken it \<le> length (it_chunk it)" using assms(3) by (auto simp: conn_answers_def)
  have all: "take (it_taken it) (it_chunk it) = it_chunk it" if "write_error it = None"
    using that nw by (auto simp: write_error_def Let_def split: if_splits option.splits)
  have w: "wrap64 (wrap64 (int (length bs)) + it_nw it) = wrap64 (int (length (bs @ take (it_taken it) (it_chunk it))))"
    using nw by simp
  show ?thesis
    using False d nw all w
    by (auto simp: copied_def copy_iteration_def Let_def take_is_prefix split: option.splits)
qed

lemma delivered_iteration [simp]:
  "cp_delivered (copy_iteration it c) = cp_delivered c @ take (it_taken it) (it_chunk it)"
  by (auto simp: copy_iteration_def Let_def split: option.split)

lemma pipe_do_inv:
  assumes "pipe_inv half s" "pipe_do half a s = Some s'"
  shows "pipe_inv half s'"
proof (cases a)
  case (Iterate d it)
  with assms(2) have run: "cp_result (p_copy s d) = None" "conn_answers s d it" and s': "s' = iterate_copy d it s"
    by (auto split: if_splits)
  have "copied (p_from s (source_of d) @ it_chunk it) (copy_iteration it (p_copy s d))"
    using copied_iteration [OF _ run] assms(1) by (simp add: pipe_inv_def)
  moreover have "\<not> p_done s d" using assms(1) run by (auto simp: pipe_inv_def)
  ultimately show ?thesis
    using assms(1) by (cases d) (simp_all add: pipe_inv_def all_directions s' iterate_copy_def)
next
  case (Finish d)
  with assms(2) have "cp_result (p_copy s d) \<noteq> None" "\<not> p_done s d" and s': "s' = finish_copy half d s"
    by (auto split: if_splits)
  moreover have "wrap64 (cp_written (p_copy s d)) = cp_written (p_copy s d)"
    using assms(1) by (simp add: pipe_inv_def copied_def)
  ultimately show ?thesis
    using assms(1) by (cases d) (auto simp: pipe_inv_def all_directions finish_copy_def Let_def)
next
  case (CloseSide x)
  with assms(2) have "s' = s\<lparr>p_closed := (p_closed s)(x := True)\<rparr>" by simp
  with assms(1) show ?thesis by (simp add: pipe_inv_def all_directions)
qed

lemma pipe_run_inv:
  "pipe_run half as s = Some s' \<Longrightarrow> pipe_inv half s \<Longrightarrow> pipe_inv half s'"
proof (induction as arbitrary: s)
  case (Cons a as)
  then obtain s1 where "pipe_do half a s = Some s1" "pipe_run half as s1 = Some s'" by (auto simp: bind_eq_Some_conv)
  with Cons.IH [of s1] Cons.prems pipe_do_inv show ?case by blast
qed simp

lemma pipe_start_inv: "pipe_inv half pipe_start"
  by (simp add: pipe_inv_def pipe_start_def copied_def copy_start_def all_directions)

text \<open>
  (C21) The pipe joins the two connections: however reads, writes and closing interleave, what the
  backend was given is an initial part of what was read from the client, and all of it when the
  upload ended without an error, and the same for the client and the download. The pipe has returned
  exactly when both directions have ended (the comment above the function says: when either has).
  BytesSent counts what the backend was given once the upload has ended and BytesReceived what the
  client was given once the download has, and the write side of each connection is closed exactly
  when the direction towards it has ended and the connection allows it.
\<close>

theorem pipe_transparent:
  assumes "pipe_run half as pipe_start = Some s"
  shows "prefix (p_to s Backend) (p_from s Client) \<and> prefix (p_to s Client) (p_from s Backend) \<and>
    (cp_result (p_copy s Upload) = Some None \<longrightarrow> p_to s Backend = p_from s Client) \<and>
    (cp_result (p_copy s Download) = Some None \<longrightarrow> p_to s Client = p_from s Backend) \<and>
    (pipe_returned s \<longleftrightarrow> p_done s Upload \<and> p_done s Download) \<and>
    (p_done s Upload \<longrightarrow> cp_result (p_copy s Upload) \<noteq> None \<and> BytesSent s = wrap64 (int (length (p_to s Backend)))) \<and>
    (p_done s Download \<longrightarrow> cp_result (p_copy s Download) \<noteq> None \<and> BytesReceived s = wrap64 (int (length (p_to s Client)))) \<and>
    (p_closedWrite s Backend \<longleftrightarrow> p_done s Upload \<and> half Backend) \<and>
    (p_closedWrite s Client \<longleftrightarrow> p_done s Download \<and> half Client)"
  using pipe_run_inv [OF assms pipe_start_inv]
  by (simp add: pipe_inv_def all_directions copied_def pipe_returned_def)

section \<open>The goroutines end\<close>

text \<open>The steps a goroutine still has once its connections are closed.\<close>

definition steps_left :: "'b pipe \<Rightarrow> direction \<Rightarrow> nat" where
  "steps_left s d = (if p_done s d then 0 else if cp_result (p_copy s d) = None then 2 else 1)"

definition pipe_left :: "'b pipe \<Rightarrow> nat" where
  "pipe_left s = steps_left s Upload + steps_left s Download"

fun own_action :: "'b pipe_action \<Rightarrow> bool" where
  "own_action (CloseSide x) = False"
| "own_action _ = True"

lemma closed_iteration:
  assumes "conn_answers s d it" "p_closed s (source_of d)"
  shows "cp_result (copy_iteration it c) \<noteq> None"
  using assms by (auto simp: conn_answers_def copy_iteration_def split: option.splits read_error.splits)

lemma closed_step:
  assumes "pipe_do half a s = Some s'" "own_action a" "p_closed s = (\<lambda>_. True)" "pipe_inv half s"
  shows "pipe_left s = Suc (pipe_left s') \<and> p_closed s' = (\<lambda>_. True)"
proof (cases a)
  case (Iterate d it)
  with assms have run: "cp_result (p_copy s d) = None" "conn_answers s d it" by (auto split: if_splits)
  with assms(3,4) have "cp_result (copy_iteration it (p_copy s d)) \<noteq> None" "\<not> p_done s d"
    by (auto dest: closed_iteration simp: pipe_inv_def)
  moreover have "s' = iterate_copy d it s" using assms(1) Iterate run by simp
  ultimately show ?thesis
    using run assms(3) by (cases d) (simp_all add: pipe_left_def steps_left_def iterate_copy_def)
next
  case (Finish d)
  with assms show ?thesis
    by (cases d) (auto simp: pipe_left_def steps_left_def finish_copy_def Let_def split: if_splits)
qed (use assms(2) in auto)

lemma closed_run:
  "pipe_run half bs s = Some s' \<Longrightarrow> list_all own_action bs \<Longrightarrow> p_closed s = (\<lambda>_. True) \<Longrightarrow> pipe_inv half s \<Longrightarrow>
   length bs + pipe_left s' = pipe_left s \<and> p_closed s' = (\<lambda>_. True)"
proof (induction bs arbitrary: s)
  case (Cons b bs)
  then obtain s1 where s1: "pipe_do half b s = Some s1" "pipe_run half bs s1 = Some s'" by (auto simp: bind_eq_Some_conv)
  from closed_step [OF s1(1)] Cons.prems have "pipe_left s = Suc (pipe_left s1)" "p_closed s1 = (\<lambda>_. True)" by auto
  with Cons.IH [OF s1(2)] Cons.prems pipe_do_inv [OF _ s1(1)] show ?case by fastforce
qed simp

lemma pipe_left_inv: "pipe_inv half s \<Longrightarrow> pipe_returned s \<longleftrightarrow> pipe_left s = 0"
  by (auto simp: pipe_inv_def pipe_returned_def pipe_left_def steps_left_def)

definition failing_iteration :: "'b iteration" where
  "failing_iteration = \<lparr>it_chunk = [], it_er = Some (ReadFailed ''use of closed network connection''), it_nw = 0,
     it_ew = Some ''use of closed network connection'', it_taken = 0\<rparr>"

lemma some_step:
  assumes "pipe_left s \<noteq> 0"
  shows "\<exists>a s'. own_action a \<and> pipe_do half a s = Some s'"
proof -
  obtain d where d: "\<not> p_done s d" using assms by (auto simp: pipe_left_def steps_left_def split: if_splits)
  show ?thesis
  proof (cases "cp_result (p_copy s d) = None")
    case True
    then have "pipe_do half (Iterate d failing_iteration) s \<noteq> None" by (auto simp: conn_answers_def failing_iteration_def)
    then show ?thesis by (intro exI [of _ "Iterate d failing_iteration"]) auto
  next
    case False
    with d have "pipe_do half (Finish d) s \<noteq> None" by auto
    then show ?thesis by (intro exI [of _ "Finish d"]) auto
  qed
qed

text \<open>
  (C38) No copying goroutine is left behind: after the handler has closed both connections the two
  goroutines take at most four more steps, in any order, a step is possible until the pipe has
  returned, and the pipe has returned when none is left.
\<close>

theorem pipe_ends:
  assumes "pipe_run half as pipe_start = Some s" and "p_closed s = (\<lambda>_. True)"
    and "pipe_run half bs s = Some s'" and "list_all own_action bs"
  shows "length bs \<le> 4 \<and> (pipe_returned s' \<longleftrightarrow> length bs = pipe_left s) \<and>
    (\<not> pipe_returned s' \<longrightarrow> (\<exists>b s''. own_action b \<and> pipe_do half b s' = Some s''))"
proof -
  have inv: "pipe_inv half s" using pipe_run_inv [OF assms(1) pipe_start_inv] by simp
  from closed_run [OF assms(3,4,2) inv] have n: "length bs + pipe_left s' = pipe_left s" by simp
  have "pipe_inv half s'" by (rule pipe_run_inv [OF assms(3) inv])
  note r = pipe_left_inv [OF this]
  have "pipe_left s \<le> 4" by (simp add: pipe_left_def steps_left_def)
  with n r some_step [of s' half] show ?thesis by auto
qed

section \<open>Concrete runs\<close>

definition passes :: "'b list \<Rightarrow> 'b iteration" where
  "passes bs = \<lparr>it_chunk = bs, it_er = None, it_nw = int (length bs), it_ew = None, it_taken = length bs\<rparr>"

definition at_end :: "'b iteration" where
  "at_end = \<lparr>it_chunk = [], it_er = Some EOF, it_nw = 0, it_ew = None, it_taken = 0\<rparr>"

text \<open>
  A client sends a query, gets a reply and hangs up; the backend's answer to the end of the
  upload comes later, and only then does the pipe return.
\<close>

definition ex_exchange :: "char pipe_action list" where
  "ex_exchange = [Iterate Upload (passes ''query''), Iterate Download (passes ''rows''), Iterate Upload at_end, Finish Upload]"

definition ex_piped :: "char pipe_action list \<Rightarrow> char pipe" where
  "ex_piped as = the (pipe_run (\<lambda>_. True) as pipe_start)"

lemma ex_piped_runs:
  "pipe_run (\<lambda>_. True) ex_exchange pipe_start = Some (ex_piped ex_exchange)"
  "pipe_run (\<lambda>_. True) (ex_exchange @ [CloseSide Client, CloseSide Backend]) pipe_start
     = Some (ex_piped (ex_exchange @ [CloseSide Client, CloseSide Backend]))"
  by code_simp+

theorem pipe_transparent_witness:
  "p_to (ex_piped ex_exchange) Backend = ''query'' \<and> \<not> pipe_returned (ex_piped ex_exchange)"
proof -
  have "cp_result (p_copy (ex_piped ex_exchange) Upload) = Some None" "\<not> p_done (ex_piped ex_exchange) Download"
    "p_from (ex_piped ex_exchange) Client = ''query''"
    by code_simp+
  with pipe_transparent [OF ex_piped_runs(1)] show ?thesis by simp
qed

theorem pipe_ends_witness:
  "pipe_returned (ex_piped (ex_exchange @ [CloseSide Client, CloseSide Backend, Iterate Download failing_iteration, Finish Download]))"
proof -
  let ?s = "ex_piped (ex_exchange @ [CloseSide Client, CloseSide Backend])"
    and ?bs = "[Iterate Download failing_iteration, Finish Download]"
  have closed: "p_closed ?s = (\<lambda>_. True)" by code_simp
  have run: "pipe_run (\<lambda>_. True) ?bs ?s = Some (ex_piped ((ex_exchange @ [CloseSide Client, CloseSide Backend]) @ ?bs))"
    unfolding ex_piped_def pipe_run_append ex_piped_runs(2) by code_simp
  have "list_all own_action ?bs" "length ?bs = pipe_left ?s" by code_simp+
  with pipe_ends [OF ex_piped_runs(2) closed run] show ?thesis by simp
qed

end
