(* ===== verification/Loops.thy ===== *)
theory Loops
  imports Pipe ManagerProps PgConfig Progress Daemon
begin

text \<open>
  The loops that drive the components until the daemon's context ends: \<open>Run\<close> of the health
  checker (\<open>cluster/health.go\<close>), the cluster manager (\<open>cluster/manager.go\<close>), the configuration
  watcher (\<open>cluster/pgconfig.go\<close>), the proxy with its listeners (\<open>proxy/proxy.go\<close>), the API
  server (\<open>api/server.go\<close>) and the collector of Raft metrics (\<open>consensus/metrics.go\<close>). The
  locale \<open>ticking\<close> is the contract of the turn of a ticker loop. Each loop selects between a timer or a socket and the end of the
  context; the choices are a sequence, and a sequence that does not end the loop gives the state
  it has reached. A loop that panics is \<open>None\<close>.
\<close>

section \<open>Loops over a ticker\<close>

datatype 'e tick = Tick 'e | Ended

fun tick_loop :: "('e \<Rightarrow> 's \<Rightarrow> 's option) \<Rightarrow> 'e tick list \<Rightarrow> 's \<Rightarrow> ('s \<times> bool) option" where
  "tick_loop turn [] s = Some (s, False)"
| "tick_loop turn (Ended # ts) s = Some (s, True)"
| "tick_loop turn (Tick e # ts) s = Option.bind (turn e s) (tick_loop turn ts)"

text \<open>\<open>time.NewTicker\<close> panics on an interval that is not positive.\<close>

definition NewTicker :: "duration \<Rightarrow> unit option" where
  "NewTicker d = (if d \<le> 0 then None else Some ())"

locale ticking =
  fixes turn :: "'e \<Rightarrow> 's \<Rightarrow> 's option" and inv :: "'s \<Rightarrow> bool"
  assumes turn_inv: "inv s \<Longrightarrow> \<exists>s'. turn e s = Some s' \<and> inv s'"
begin

lemma loop_inv: "inv s \<Longrightarrow> \<exists>s'. tick_loop turn ts s = Some (s', Ended \<in> set ts) \<and> inv s'"
proof (induction ts arbitrary: s)
  case (Cons t ts)
  show ?case
  proof (cases t)
    case (Tick e)
    obtain s1 where "turn e s = Some s1" "inv s1" using turn_inv [OF Cons.prems] by blast
    with Cons.IH [of s1] Tick show ?thesis by simp
  qed (use Cons.prems in simp)
qed simp

end

section \<open>Health checker\<close>

text \<open>The state of the loop: the checker and the intervals the timer was set to.\<close>

definition health_turn :: "(rat \<Rightarrow> int) \<Rightarrow> check_input \<Rightarrow> HealthChecker \<times> duration list \<Rightarrow> (HealthChecker \<times> duration list) option" where
  "health_turn ovf i s = (case i of (c, t0, t1, a) \<Rightarrow> (case s of (h, waited) \<Rightarrow>
     map_option (\<lambda>h'. (h', waited @ [currentInterval h])) (check ovf c t0 t1 a h)))"

definition HealthChecker_Run ::
    "(rat \<Rightarrow> int) \<Rightarrow> check_input \<Rightarrow> check_input tick list \<Rightarrow> HealthChecker \<Rightarrow> (HealthChecker \<times> duration list \<times> bool) option" where
  "HealthChecker_Run ovf first ticks h =
     (case first of (c, t0, t1, a) \<Rightarrow>
        Option.bind (check ovf c t0 t1 a h) (\<lambda>h1.
          map_option (\<lambda>((h2, waited), returned). (if returned then closeConn h2 else h2, waited, returned))
            (tick_loop (health_turn ovf) ticks (h1, []))))"

definition NewHealthCheckerWithConnector :: "string \<Rightarrow> duration \<Rightarrow> HealthChecker" where
  "NewHealthCheckerWithConnector dsn interval =
     \<lparr>hc_dsn = dsn, hc_interval = interval, hc_maxBackoff = 30 * Second, hc_backoffMultiplier = 2,
      hc_healthTimeout = DefaultHealthTimeout, hc_status = zero_HealthStatus,
      hc_history = NewHealthHistory zero_entry DefaultHistorySize, hc_ready = False, consecutiveFailures = 0,
      currentInterval = interval, hc_conn = False\<rparr>"

definition History :: "HealthChecker \<Rightarrow> HealthCheckEntry HealthHistory" where
  "History h = hc_history h"

definition Ready :: "HealthChecker \<Rightarrow> bool" where
  "Ready h = hc_ready h"

definition Status :: "HealthChecker \<Rightarrow> HealthStatus" where
  "Status h = hc_status h"

lemma test_checker_default: "NewHealthCheckerWithConnector dsn i = NewHealthChecker dsn i 0 0 0"
  by (simp add: NewHealthCheckerWithConnector_def NewHealthChecker_def)

definition waits_ok :: "duration \<Rightarrow> duration \<Rightarrow> HealthChecker \<times> duration list \<Rightarrow> bool" where
  "waits_ok i m s \<longleftrightarrow> checker_inv (fst s) \<and> hc_interval (fst s) = i \<and> hc_maxBackoff (fst s) = m \<and>
     (\<forall>d \<in> set (snd s). d = i \<or> d \<le> m)"

lemma check_inv:
  assumes "checker_inv h"
  shows "\<exists>h'. check ovf c t0 t1 a h = Some h' \<and> checker_inv h' \<and> hc_interval h' = hc_interval h \<and> hc_maxBackoff h' = hc_maxBackoff h"
  using run_checks_inv [OF assms, of ovf "[(c, t0, t1, a)]"] by (auto split: option.splits)

interpretation health: ticking "health_turn ovf" "waits_ok i m"
proof
  fix s and e :: check_input
  assume ok: "waits_ok i m s"
  obtain h ws where s: "s = (h, ws)" by (cases s)
  obtain c t0 t1 a where e: "e = (c, t0, t1, a)" by (cases e)
  from ok check_inv [of h ovf c t0 t1 a]
  obtain h' where "check ovf c t0 t1 a h = Some h'" "checker_inv h'" "hc_interval h' = i" "hc_maxBackoff h' = m"
    by (auto simp: waits_ok_def s)
  moreover have "currentInterval h = i \<or> currentInterval h \<le> m"
    using ok by (auto simp: waits_ok_def s checker_inv_def split: if_splits)
  ultimately show "\<exists>s'. health_turn ovf e s = Some s' \<and> waits_ok i m s'"
    using ok by (auto simp: health_turn_def s e waits_ok_def)
qed

text \<open>
  The health checker's loop never panics, whatever PostgreSQL answers and whichever interval
  is configured; every wait between two checks is the configured interval or at most the maximal
  backoff; it returns exactly when it sees the end of the context, and then its connection is closed.
\<close>

theorem health_run_bounded:
  "\<exists>h waited. HealthChecker_Run ovf first ticks (NewHealthChecker dsn i m b t) = Some (h, waited, Ended \<in> set ticks) \<and>
     list_all (\<lambda>d. d = i \<or> d \<le> (if m = 0 then 30 * Second else m)) waited \<and>
     (Ended \<in> set ticks \<longrightarrow> \<not> hc_conn h)"
proof -
  let ?h = "NewHealthChecker dsn i m b t" and ?m = "if m = 0 then 30 * Second else m"
  obtain c t0 t1 a where f: "first = (c, t0, t1, a)" by (cases first)
  have init: "hc_interval ?h = i" "hc_maxBackoff ?h = ?m" by (simp_all add: NewHealthChecker_def)
  obtain h1 where h1: "check ovf c t0 t1 a ?h = Some h1" "checker_inv h1" "hc_interval h1 = i" "hc_maxBackoff h1 = ?m"
    using check_inv [OF checker_inv_new, of ovf c t0 t1 a dsn i m b t] init by auto
  then have "waits_ok i ?m (h1, [])" by (simp add: waits_ok_def)
  from health.loop_inv [OF this, of ovf ticks] obtain h2 ws
    where "tick_loop (health_turn ovf) ticks (h1, []) = Some ((h2, ws), Ended \<in> set ticks)" "waits_ok i ?m (h2, ws)"
    by auto
  with h1 show ?thesis
    by (auto simp: HealthChecker_Run_def f waits_ok_def closeConn_def list_all_iff)
qed

section \<open>Cluster manager\<close>

text \<open>How the wait for the first health check ends.\<close>

datatype first_check = CheckReady | CheckTimeout | CheckCancelled

definition manager_turn :: "env \<times> HealthStatus \<Rightarrow> mworld \<Rightarrow> mworld option" where
  "manager_turn e w = (case e of (E, status) \<Rightarrow> Some (snd (run_state (evaluate E status) w)))"

definition Manager_Run :: "HealthChecker \<Rightarrow> first_check \<Rightarrow> (env \<times> HealthStatus) tick list \<Rightarrow> mworld \<Rightarrow> (mworld \<times> bool) option" where
  "Manager_Run h ready ticks w =
     (if ready = CheckCancelled then Some (w, True)
      else Option.bind (NewTicker (hc_interval h)) (\<lambda>_. tick_loop manager_turn ticks w))"

interpretation manager: ticking manager_turn "reached w0"
  by unfold_locales (auto simp: manager_turn_def intro: reached.step node_step.turn)

text \<open>With a positive interval the loop of the manager passes through reachable states only.\<close>

lemma manager_run_reaches:
  assumes "0 < hc_interval h"
  shows "\<exists>w'. Manager_Run h ready ticks w = Some (w', ready = CheckCancelled \<or> Ended \<in> set ticks) \<and> reached w w'"
  using assms manager.loop_inv [OF reached.start, of ticks w]
  by (auto simp: Manager_Run_def NewTicker_def intro: reached.start)

definition NewFailoverController :: "Config \<Rightarrow> bool \<Rightarrow> world \<Rightarrow> fworld" where
  "NewFailoverController cfg store w = world.extend w (fworld.fields cfg store False [] zero_time zero_time)"

definition NewManager :: "Config \<Rightarrow> bool \<Rightarrow> bool \<Rightarrow> bool \<Rightarrow> fworld \<Rightarrow> mworld" where
  "NewManager cfg store failover replication f =
     fworld.extend f (mworld.fields cfg store failover replication StateInitializing False 0 0 zero_time zero_time zero_time)"

text \<open>
  Whatever happens around a node that was just created, its manager's loop keeps the invariant of
  the node as long as it runs.
\<close>

lemma manager_run_safe:
  assumes "0 < hc_interval h" and "fsm_inv (w_fsm w)"
  shows "\<exists>w' returned. Manager_Run h ready ticks (NewManager cfg store fo repl (NewFailoverController cfg store w)) = Some (w', returned) \<and>
    node_inv w'"
proof -
  let ?w = "NewManager cfg store fo repl (NewFailoverController cfg store w)"
  have start: "node_inv ?w"
    using assms(2)
    by (simp add: node_inv_def NewManager_def NewFailoverController_def world.defs fworld.defs mworld.defs backoffs_def)
  have "reached ?w w' \<Longrightarrow> node_inv w'" for w'
    by (induction rule: reached.induct) (auto intro: start node_step_inv)
  with manager_run_reaches [OF assms(1), of ready ticks ?w] show ?thesis by blast
qed

definition negative_interval :: Config where
  "negative_interval = ex_config\<lparr>c_PostgreSQL := (c_PostgreSQL ex_config)\<lparr>pg_HealthInterval := - Second\<rparr>\<rparr>"

text \<open>
  Validation does not look at the health interval: a configuration with a negative one is
  loaded without an error, and the manager then panics when it makes its ticker, unless the
  daemon ends first.
\<close>

theorem negative_interval_crashes:
  "Load (\<lambda>_. Inr ()) (\<lambda>_. Inr negative_interval) ''f'' = Inr negative_interval \<and> daemon_health negative_interval \<noteq> None \<and>
   (\<forall>h ready ticks w. daemon_health negative_interval = Some h \<longrightarrow> ready \<noteq> CheckCancelled \<longrightarrow> Manager_Run h ready ticks w = None)"
proof -
  have l: "Load (\<lambda>_. Inr ()) (\<lambda>_. Inr negative_interval) ''f'' = Inr negative_interval" by code_simp
  have h: "map_option hc_interval (daemon_health negative_interval) = Some (- Second)" by code_simp
  then have "daemon_health negative_interval \<noteq> None" "\<And>h. daemon_health negative_interval = Some h \<Longrightarrow> hc_interval h = - Second"
    by auto
  with l show ?thesis by (simp add: Manager_Run_def NewTicker_def)
qed

section \<open>Configuration watcher\<close>

text \<open>
  What one run of the applier finds: an iteration order, the outcome of connecting, the server's
  settings and answers, and the replicated configuration. The watcher's log keeps the version of
  every run that sent statements.
\<close>

type_synonym 'c apply_input =
  "string ranger \<times> (string + 'c) \<times> (string + settings_row option list \<times> string option) \<times> 'c query \<times> PostgreSQLConfig"

definition watcher_turn :: "'c apply_input \<Rightarrow> ConfigApplier \<times> int list \<Rightarrow> (ConfigApplier \<times> int list) option" where
  "watcher_turn i s = (case i of (r, connect, settings, query, cfg) \<Rightarrow> (case s of (a, sent) \<Rightarrow>
     (case ApplyConfig r connect settings query cfg a of
        (err, stmts, a') \<Rightarrow> Some (a', if stmts = [] then sent else sent @ [pc_Version cfg]))))"

definition ConfigWatcher_Run :: "duration \<Rightarrow> 'c apply_input \<Rightarrow> 'c apply_input tick list \<Rightarrow> ConfigApplier \<Rightarrow> ((ConfigApplier \<times> int list) \<times> bool) option" where
  "ConfigWatcher_Run interval first ticks a =
     Option.bind (NewTicker interval) (\<lambda>_. tick_loop watcher_turn (Tick first # ticks) (a, []))"

definition sent_ok :: "ConfigApplier \<times> int list \<Rightarrow> bool" where
  "sent_ok s \<longleftrightarrow> sorted_wrt (<) (snd s) \<and> (\<forall>v \<in> set (snd s). v \<le> lastAppliedVersion (fst s))"

lemma apply_sends_newer:
  assumes "ApplyConfig r connect settings query cfg a = (err, stmts, a')"
  shows "lastAppliedVersion a \<le> lastAppliedVersion a' \<and>
    (stmts \<noteq> [] \<longrightarrow> lastAppliedVersion a < pc_Version cfg \<and> lastAppliedVersion a' = pc_Version cfg)"
  using assms by (auto simp: ApplyConfig_def Let_def split: if_splits sum.splits prod.splits)

interpretation watcher: ticking watcher_turn sent_ok
proof
  fix s and e :: "'c apply_input"
  assume ok: "sent_ok s"
  obtain a sent where s: "s = (a, sent)" by (cases s)
  obtain r connect settings query cfg where e: "e = (r, connect, settings, query, cfg)" by (cases e)
  obtain err stmts a' where run: "ApplyConfig r connect settings query cfg a = (err, stmts, a')" by (rule prod_cases3)
  from ok apply_sends_newer [OF run] show "\<exists>s'. watcher_turn e s = Some s' \<and> sent_ok s'"
    by (fastforce simp: watcher_turn_def e s run sent_ok_def sorted_wrt_append)
qed

text \<open>
  A version of the replicated PostgreSQL parameters is sent to the server at most once by the
  watcher of a node, and never after a later one, whatever the configuration, the server and the
  connections do between its runs; the loop returns exactly when it sees the end of the context.
\<close>

theorem watcher_versions_increase:
  assumes "0 < interval"
  shows "\<exists>a' sent. ConfigWatcher_Run interval first ticks a = Some ((a', sent), Ended \<in> set ticks) \<and> sorted_wrt (<) sent"
proof -
  have "sent_ok (a, [])" by (simp add: sent_ok_def)
  from watcher.loop_inv [OF this, of "Tick first # ticks"] obtain s
    where "tick_loop watcher_turn (Tick first # ticks) (a, []) = Some (s, Ended \<in> set ticks)" "sent_ok s" by auto
  with assms show ?thesis by (cases s) (auto simp: ConfigWatcher_Run_def NewTicker_def sent_ok_def)
qed

section \<open>Proxy\<close>

text \<open>
  A listener: an accepted client is handed to a goroutine of its own; an error of Accept ends the
  loop only when the context is over by then. The result is \<open>None\<close> while it listens.
\<close>

datatype accept_result = Accepted nat | AcceptFailed bool

fun accept_loop :: "accept_result list \<Rightarrow> nat list \<Rightarrow> bool \<times> nat list" where
  "accept_loop [] served = (False, served)"
| "accept_loop (Accepted c # rs) served = accept_loop rs (served @ [c])"
| "accept_loop (AcceptFailed ended # rs) served = (if ended then (True, served) else accept_loop rs served)"

definition listen :: "int \<Rightarrow> string option \<Rightarrow> accept_result list \<Rightarrow> string option option \<times> nat list" where
  "listen port bound rs =
     (case bound of
        Some e \<Rightarrow> (Some (Some (''listening on :'' @ show_int port @ '': '' @ e)), [])
      | None \<Rightarrow> (case accept_loop rs [] of (returned, served) \<Rightarrow> (if returned then Some None else None, served)))"

fun accepted_client :: "accept_result \<Rightarrow> nat option" where
  "accepted_client (Accepted c) = Some c"
| "accepted_client (AcceptFailed _) = None"

lemma accept_loop_serves:
  "AcceptFailed True \<notin> set rs \<Longrightarrow>
   accept_loop (rs @ xs) served = accept_loop xs (served @ List.map_filter accepted_client rs)"
  by (induction rs served rule: accept_loop.induct) (auto simp: List.map_filter_simps)

text \<open>Errors of Accept that are not the end of the context do not stop a listener, and no client is left out.\<close>

lemma listen_serves:
  assumes "AcceptFailed True \<notin> set rs"
  shows "listen port None (rs @ AcceptFailed True # rest) = (Some None, List.map_filter accepted_client rs)"
  using assms by (simp add: listen_def accept_loop_serves)

text \<open>
  Run of the proxy, with the branch its select takes, the events of the two drains, and the pools
  as the first drain leaves them. The result is \<open>None\<close> while it waits, and otherwise its error, the
  end of the first drain, and whether the pools were drained, with the pool manager.
\<close>

datatype proxy_exit = ProxyCancelled string | ListenerReturned "string option"

text \<open>The branches that are ready: \<open>ctxErr\<close> is the context's error once it is over, \<open>errCh\<close> what the listeners have returned.\<close>

fun exit_ready :: "string option \<Rightarrow> string option list \<Rightarrow> proxy_exit \<Rightarrow> bool" where
  "exit_ready ctxErr errCh (ProxyCancelled e) = (ctxErr = Some e)"
| "exit_ready ctxErr errCh (ListenerReturned res) = (res \<in> set errCh)"

record drain_inputs =
  di_conns :: "64 word ranger"
  di_events :: "nat \<Rightarrow> bool \<times> ConnectionTracker"
  di_pool_conns :: "conn ranger"
  di_pools :: "string ranger"
  di_pool_events :: "drain_event list"

record proxy_result =
  pr_err :: "string option"
  pr_drain :: "(nat \<times> effect list) option"
  pr_pools :: "(bool \<times> PoolManager) option"

definition Proxy_Run ::
    "drain_inputs \<Rightarrow> nat \<Rightarrow> proxy_exit \<Rightarrow> ConnectionTracker \<Rightarrow> PoolManager option \<Rightarrow> proxy_result option" where
  "Proxy_Run di fuel exit ct poolManager =
     (case exit of
        ListenerReturned err \<Rightarrow> Some \<lparr>pr_err = err, pr_drain = None, pr_pools = map_option (Pair False) poolManager\<rparr>
      | ProxyCancelled err \<Rightarrow> (case Tracker_DrainAll (di_conns di) ct (di_events di) fuel of
            (_, None) \<Rightarrow> None
          | (_, Some drained) \<Rightarrow> (case poolManager of
                None \<Rightarrow> Some \<lparr>pr_err = Some err, pr_drain = Some drained, pr_pools = None\<rparr>
              | Some pm \<Rightarrow> (case Manager_DrainAll (di_pool_conns di) (di_pools di) (di_pool_events di) pm of
                    None \<Rightarrow> None
                  | Some pools \<Rightarrow> Some \<lparr>pr_err = Some err, pr_drain = Some drained, pr_pools = Some pools\<rparr>))))"

definition pools_in_heap :: "PoolManager \<Rightarrow> bool" where
  "pools_in_heap pm \<longleftrightarrow> (\<forall>i \<in> fmran' (pm_pools pm). i < length (pm_heap pm))"

lemma close_pool_closed:
  "j < length (pm_heap pm) \<Longrightarrow> bp_closed (pm_heap (close_pool r i pm) ! j) \<longleftrightarrow> bp_closed (pm_heap pm ! j) \<or> i = j"
  by (auto simp: close_pool_def)

text \<open>What draining the pools has closed when it returns, and that it returns at its timeout.\<close>

lemma drain_pools_closes:
  assumes "drain_pools r evs entering closing pm = Some (all, pm')" and "j < length (pm_heap pm)"
  shows "(bp_closed (pm_heap pm' ! j) \<longrightarrow> bp_closed (pm_heap pm ! j) \<or> CloseEnter j \<in> set evs) \<and>
    (bp_closed (pm_heap pm ! j) \<or> all \<and> j \<in> set entering \<longrightarrow> bp_closed (pm_heap pm' ! j))"
  using assms
proof (induction r evs entering closing pm rule: drain_pools.induct)
  case (4 r i evs entering closing pm)
  have n: "length (pm_heap (close_pool r i pm)) = length (pm_heap pm)" by (simp add: close_pool_def)
  show ?case
  proof (cases "i \<in> set entering")
    case True
    have "j = i \<or> j \<in> set (remove1 i entering)" if "j \<in> set entering" using that by (metis in_set_remove1)
    with 4 True n show ?thesis by (auto simp: close_pool_closed)
  qed (use 4 in auto)
qed (auto split: if_splits)

lemma drain_pools_returns: "DrainTimeout \<in> set evs \<Longrightarrow> drain_pools r evs entering closing pm \<noteq> None"
  by (induction r evs entering closing pm rule: drain_pools.induct) auto

lemma drain_closes_pools:
  assumes "is_ranger ra" "pools_in_heap pm" "DrainTimeout \<in> set evs"
  obtains all pm' where "Manager_DrainAll r ra evs pm = Some (all, pm')"
    and "\<And>i. i \<in> fmran' (pm_pools pm) \<Longrightarrow> (all \<longrightarrow> bp_closed (pm_heap pm' ! i)) \<and>
      (bp_closed (pm_heap pm' ! i) \<longrightarrow> bp_closed (pm_heap pm ! i) \<or> CloseEnter i \<in> set evs)"
proof -
  obtain all pm' where d: "drain_pools r evs (pool_values ra pm) [] pm = Some (all, pm')"
    using drain_pools_returns [OF assms(3)] by fastforce
  moreover have "(all \<longrightarrow> bp_closed (pm_heap pm' ! i)) \<and>
      (bp_closed (pm_heap pm' ! i) \<longrightarrow> bp_closed (pm_heap pm ! i) \<or> CloseEnter i \<in> set evs)" if "i \<in> fmran' (pm_pools pm)" for i
    using drain_pools_closes [OF d, of i] assms(2) that pool_values_set [OF assms(1), of pm] by (auto simp: pools_in_heap_def)
  ultimately show ?thesis using that by (simp add: Manager_DrainAll_def)
qed

text \<open>
  (C23) Shutting down. When the context is over and the select takes its branch, the proxy returns
  the context's error: after the drain of the tracker, which ends no later than its deadline, with no
  client tracked any more or both ends of every tracked connection closed, and after the drain of the
  pools, which ends no later than a timeout of its own. All pools of the manager are closed unless that
  timeout came first; then a pool whose Close had not begun may still be open. But the listeners also
  return when the context is over, and their branch of the select may be taken instead: then the
  proxy returns their result at once, with nothing drained and no pool closed.
\<close>

theorem proxy_shuts_down:
  assumes "fst (di_events di j)" and "j < fuel" and "is_ranger (di_conns di)" and "is_ranger (di_pools di)"
    and "pools_in_heap pm" and "DrainTimeout \<in> set (di_pool_events di)" and "exit_ready (Some err) errCh exit"
  shows "\<exists>res all pm'. Proxy_Run di fuel exit ct (Some pm) = Some res \<and> pr_pools res = Some (all, pm') \<and>
    (case exit of
       ListenerReturned r \<Rightarrow> r \<in> set errCh \<and> pr_err res = r \<and> pr_drain res = None \<and> \<not> all \<and> pm' = pm
     | ProxyCancelled e \<Rightarrow> e = err \<and> pr_err res = Some err \<and>
         (\<exists>k es. pr_drain res = Some (k, es) \<and> k \<le> j \<and>
           (let tr = snd (di_events di k) in Count tr = 0 \<or>
             (\<forall>c. c \<in> fmran' (ct_conns tr) \<longrightarrow> CloseClient (tc_client c) \<in> set es \<and> CloseBackend (tc_backend c) \<in> set es))) \<and>
         (\<forall>i. i \<in> fmran' (pm_pools pm) \<longrightarrow> (all \<longrightarrow> bp_closed (pm_heap pm' ! i)) \<and>
           (bp_closed (pm_heap pm' ! i) \<longrightarrow> bp_closed (pm_heap pm ! i) \<or> CloseEnter i \<in> set (di_pool_events di))))"
proof (cases exit)
  case (ListenerReturned r)
  with assms(7) show ?thesis by (auto simp: Proxy_Run_def intro: exI [of _ False])
next
  case (ProxyCancelled e)
  obtain all pm' where p: "Manager_DrainAll (di_pool_conns di) (di_pools di) (di_pool_events di) pm = Some (all, pm')"
    "\<And>i. i \<in> fmran' (pm_pools pm) \<Longrightarrow> (all \<longrightarrow> bp_closed (pm_heap pm' ! i)) \<and>
      (bp_closed (pm_heap pm' ! i) \<longrightarrow> bp_closed (pm_heap pm ! i) \<or> CloseEnter i \<in> set (di_pool_events di))"
    using drain_closes_pools [OF assms(4,5,6)] by blast
  show ?thesis
    using drain_returns [of "di_events di", OF assms(1,2,3), of ct] p assms(7)
    by (auto simp: ProxyCancelled Proxy_Run_def Let_def)
qed

section \<open>API server\<close>

datatype listen_end = ServerClosed | ServerFailed string

datatype server_event = ApiEnded listen_end | MetricsEnded listen_end | ServerCancelled string

datatype server_action = ServeTLS string string | ServePlain | ServeMetrics | ShutdownApi | ShutdownMetrics

definition api_listener :: "string \<Rightarrow> string \<Rightarrow> server_action" where
  "api_listener cert key = (if cert \<noteq> '''' \<and> key \<noteq> '''' then ServeTLS cert key else ServePlain)"

fun server_wait :: "string \<Rightarrow> string \<Rightarrow> server_event list \<Rightarrow> (string \<times> server_action list) option" where
  "server_wait cert key [] = None"
| "server_wait cert key (ServerCancelled err # es) = Some (err, [ShutdownApi, ShutdownMetrics])"
| "server_wait cert key (ApiEnded ServerClosed # es) = server_wait cert key es"
| "server_wait cert key (ApiEnded (ServerFailed e) # es) =
     Some ((if api_listener cert key = ServePlain then ''API server: '' else ''API server (TLS): '') @ e, [])"
| "server_wait cert key (MetricsEnded ServerClosed # es) = server_wait cert key es"
| "server_wait cert key (MetricsEnded (ServerFailed e) # es) = Some (''metrics server: '' @ e, [])"

definition Server_Run :: "string \<Rightarrow> string \<Rightarrow> server_event list \<Rightarrow> string option \<times> server_action list" where
  "Server_Run cert key es =
     (case server_wait cert key es of
        None \<Rightarrow> (None, [api_listener cert key, ServeMetrics])
      | Some (err, acts) \<Rightarrow> (Some err, [api_listener cert key, ServeMetrics] @ acts))"

definition cert_without_key :: Config where
  "cert_without_key = ex_config\<lparr>c_API := (c_API ex_config)\<lparr>ap_TLSCert := ''/etc/server.crt''\<rparr>\<rparr>"

text \<open>
  A configuration with a certificate but no key is accepted, and the API is then served without
  encryption.
\<close>

lemma cert_without_key_plain:
  "Load (\<lambda>_. Inr ()) (\<lambda>_. Inr cert_without_key) ''f'' = Inr cert_without_key \<and>
   ServePlain \<in> set (snd (Server_Run (ap_TLSCert (c_API cert_without_key)) (ap_TLSKey (c_API cert_without_key)) es))"
proof -
  have l: "Load (\<lambda>_. Inr ()) (\<lambda>_. Inr cert_without_key) ''f'' = Inr cert_without_key"
    and k: "ap_TLSKey (c_API cert_without_key) = ''''"
    by code_simp+
  from l k show ?thesis by (auto simp: Server_Run_def api_listener_def split: option.split)
qed

text \<open>The wait ends with the context or with a failure of a server, and with nothing else.\<close>

lemma server_run_ends:
  "fst (Server_Run cert key es) \<noteq> None \<longleftrightarrow> (\<exists>e \<in> set es. e \<notin> {ApiEnded ServerClosed, MetricsEnded ServerClosed})"
  by (induction cert key es rule: server_wait.induct) (auto simp: Server_Run_def split: option.splits)

section \<open>Raft metrics\<close>

text \<open>
  The collector copies Raft's role and statistics to gauges (\<open>consensus/metrics.go\<close>). A run finds
  Raft's role and statistics, or no Raft at all; a statistic that is missing or not a number
  leaves its gauge as it was. The numbers Raft reports are decimal; \<open>other\<close> is what
  \<open>strconv.ParseFloat\<close> makes of any other text.
\<close>

record raft_gauges =
  g_Leader :: rat
  g_Follower :: rat
  g_Candidate :: rat
  raftIsLeader :: rat
  raftTerm :: rat
  raftCommitIndex :: rat
  raftLastLogIndex :: rat
  raftAppliedIndex :: rat
  raftPeersCount :: rat

definition metrics_init :: raft_gauges where
  "metrics_init = \<lparr>g_Leader = 0, g_Follower = 0, g_Candidate = 0, raftIsLeader = 0, raftTerm = 0, raftCommitIndex = 0,
     raftLastLogIndex = 0, raftAppliedIndex = 0, raftPeersCount = 0\<rparr>"

definition boolToFloat :: "bool \<Rightarrow> rat" where
  "boolToFloat b = (if b then 1 else 0)"

definition stat_number :: "(string \<Rightarrow> rat option) \<Rightarrow> (string, string) fmap \<Rightarrow> string \<Rightarrow> rat option" where
  "stat_number other stats name =
     (case fmlookup stats name of None \<Rightarrow> None
      | Some v \<Rightarrow> if v = '''' then None else if list_all is_digit v then ParseFloat v else other v)"

definition stat_gauge ::
    "(string \<Rightarrow> rat option) \<Rightarrow> (string, string) fmap \<Rightarrow> string \<Rightarrow> (rat \<Rightarrow> rat) \<Rightarrow> ((rat \<Rightarrow> rat) \<Rightarrow> raft_gauges \<Rightarrow> raft_gauges) \<Rightarrow>
     raft_gauges \<Rightarrow> raft_gauges" where
  "stat_gauge other stats name f upd g = (case stat_number other stats name of None \<Rightarrow> g | Some x \<Rightarrow> upd (\<lambda>_. f x) g)"

type_synonym raft_view = "(RaftState \<times> (string, string) fmap) option"

definition Collect_metrics :: "(string \<Rightarrow> rat option) \<Rightarrow> raft_view \<Rightarrow> raft_gauges \<Rightarrow> raft_gauges" where
  "Collect_metrics other raft g =
     (case raft of
        None \<Rightarrow> g
      | Some (state, stats) \<Rightarrow>
          (let g1 = g\<lparr>g_Leader := boolToFloat (state = Leader), g_Follower := boolToFloat (state = Follower),
                      g_Candidate := boolToFloat (state = Candidate), raftIsLeader := boolToFloat (state = Leader)\<rparr>;
               g2 = stat_gauge other stats ''term'' id raftTerm_update g1;
               g3 = stat_gauge other stats ''commit_index'' id raftCommitIndex_update g2;
               g4 = stat_gauge other stats ''last_log_index'' id raftLastLogIndex_update g3;
               g5 = stat_gauge other stats ''applied_index'' id raftAppliedIndex_update g4
           in stat_gauge other stats ''num_peers'' (\<lambda>n. float64 (n + 1)) raftPeersCount_update g5))"

definition metrics_turn :: "(string \<Rightarrow> rat option) \<Rightarrow> raft_view \<Rightarrow> raft_gauges \<Rightarrow> raft_gauges option" where
  "metrics_turn other v g = Some (Collect_metrics other v g)"

definition MetricsCollector_Start ::
    "(string \<Rightarrow> rat option) \<Rightarrow> duration \<Rightarrow> raft_view \<Rightarrow> raft_view tick list \<Rightarrow> raft_gauges \<Rightarrow> (raft_gauges \<times> bool) option" where
  "MetricsCollector_Start other interval first ticks g =
     Option.bind (NewTicker interval) (\<lambda>_. tick_loop (metrics_turn other) (Tick first # ticks) g)"

definition gauges_ok :: "raft_gauges \<Rightarrow> bool" where
  "gauges_ok g \<longleftrightarrow> raftIsLeader g = g_Leader g \<and> {g_Leader g, g_Follower g, g_Candidate g} \<subseteq> {0, 1} \<and>
     g_Leader g + g_Follower g + g_Candidate g \<le> 1"

lemma stat_gauge_role:
  assumes "\<And>f g. g_Leader (upd f g) = g_Leader g \<and> g_Follower (upd f g) = g_Follower g \<and> g_Candidate (upd f g) = g_Candidate g \<and>
    raftIsLeader (upd f g) = raftIsLeader g"
  shows "gauges_ok (stat_gauge other stats name f upd g) = gauges_ok g"
  using assms by (simp add: stat_gauge_def gauges_ok_def split: option.split)

lemma Collect_metrics_ok: "gauges_ok g \<Longrightarrow> gauges_ok (Collect_metrics other v g)"
  by (auto simp: Collect_metrics_def Let_def stat_gauge_role split: option.split prod.split)
    (auto simp: gauges_ok_def boolToFloat_def)

interpretation metrics: ticking "metrics_turn other" gauges_ok
  by unfold_locales (simp add: metrics_turn_def Collect_metrics_ok)

text \<open>At every moment at most one of the role gauges is one, and the leader gauge agrees with it.\<close>

lemma metrics_consistent:
  assumes "0 < interval"
  shows "\<exists>g. MetricsCollector_Start other interval first ticks metrics_init = Some (g, Ended \<in> set ticks) \<and> gauges_ok g"
proof -
  have "gauges_ok metrics_init" by (simp add: gauges_ok_def metrics_init_def)
  from metrics.loop_inv [OF this, of other "Tick first # ticks"] assms show ?thesis
    by (auto simp: MetricsCollector_Start_def NewTicker_def)
qed

section \<open>Concrete runs\<close>

definition alive_pg :: pg_answers where
  "alive_pg = \<lparr>a_ping = None, a_connect = None, a_recovery = Inr False, a_lag = None, a_replicas = None, a_slots = None, a_active = None\<rparr>"

theorem health_run_bounded_witness:
  "\<exists>h waited. HealthChecker_Run (\<lambda>_. 0) (False, 0, 0, dead_pg) [Tick (False, 0, 0, alive_pg), Ended] (NewHealthChecker ''d'' Second 0 0 0)
     = Some (h, waited, True) \<and> \<not> hc_conn h"
  using health_run_bounded [of "\<lambda>_. 0" "(False, 0, 0, dead_pg)" "[Tick (False, 0, 0, alive_pg), Ended]" "''d''" Second 0 0 0] by auto

theorem negative_interval_crashes_witness:
  "Manager_Run (the (daemon_health negative_interval)) CheckReady [] (start_node ex_config StateInitializing NewClusterFSM) = None"
  using negative_interval_crashes by auto

definition ex_watched :: "bool apply_input" where
  "ex_watched = (sorted_list_of_fset, Inr False, Inr ([], None), pgx_query, two_params)"

theorem watcher_versions_increase_witness:
  "\<exists>a sent. ConfigWatcher_Run (10 * Second) ex_watched [Tick ex_watched, Ended] (NewConfigApplier True) = Some ((a, sent), True) \<and>
     sorted_wrt (<) sent"
  using watcher_versions_increase [of "10 * Second" ex_watched "[Tick ex_watched, Ended]" "NewConfigApplier True"] by simp

definition ex_drain :: drain_inputs where
  "ex_drain = \<lparr>di_conns = sorted_list_of_fset, di_events = (\<lambda>i. (i = 3, one_client)), di_pool_conns = sorted_list_of_fset,
     di_pools = sorted_list_of_fset, di_pool_events = [CloseEnter 0, CloseReturn 0, AllDone, DrainTimeout]\<rparr>"

definition ex_pools :: PoolManager where
  "ex_pools = snd (create_pool ''h2:5432'' (NewPoolManager DefaultPoolConfig))"

theorem proxy_shuts_down_witness:
  "\<exists>res. Proxy_Run ex_drain 5 (ProxyCancelled ''context canceled'') one_client (Some ex_pools) = Some res \<and>
     pr_err res = Some ''context canceled'' \<and> (\<exists>k es. pr_drain res = Some (k, es) \<and> k \<le> 3)"
proof -
  have "fmlookup (pm_pools ex_pools) a = (if a = ''h2:5432'' then Some 0 else None)" for a
    by (simp add: ex_pools_def create_pool_def NewPoolManager_def)
  moreover have "length (pm_heap ex_pools) = 1"
    by (simp add: ex_pools_def create_pool_def NewPoolManager_def)
  ultimately have p: "pools_in_heap ex_pools"
    by (auto simp: pools_in_heap_def fmlookup_ran'_iff split: if_splits)
  have d: "fst (di_events ex_drain 3)" "3 < (5::nat)" "is_ranger (di_conns ex_drain)" "is_ranger (di_pools ex_drain)"
    "DrainTimeout \<in> set (di_pool_events ex_drain)"
    by (simp_all add: ex_drain_def ranger_sorted)
  have "exit_ready (Some ''context canceled'') [] (ProxyCancelled ''context canceled'')" by simp
  from proxy_shuts_down [OF d(1-4) p d(5) this, of one_client] show ?thesis by auto
qed

end
