(* ===== verification/Spec2Isabelle.thy ===== *)
theory Spec2Isabelle
  imports ApiProps Cli Daemon VipProps Chaos Loops
begin

text \<open>
  PGBastion keeps a PostgreSQL cluster available: every node runs an agent that checks the
  local server, shares what it knows with the other agents through a Raft log, and, on the
  Raft leader, orders a failover when the primary is gone; a TCP proxy on every node sends
  clients to the primary or to a replica. This library models the agent's own logic.

  \<^bold>\<open>Parts of the program and their theories.\<close>

  \<^item> Replicated state (\<open>consensus/fsm.go\<close>): \<open>Json\<close> is the subset of \<open>encoding/json\<close> the code
    relies on, \<open>Fsm\<close> the state record, the wire format and one definition per command of
    \<open>Apply\<close>, the snapshot and the queries; \<open>FsmWire\<close> has the round trips of the encoders and
    \<open>FsmProps\<close> the invariant of the state under every log, snapshot and restore, and what
    single commands do. The locale \<open>log_machine\<close> is the contract of a state machine driven by
    a log; it is interpreted on \<open>Apply\<close>.
  \<^item> \<open>World\<close> is the state monad in which the rest of the agent runs. The environment \<open>env\<close>
    answers everything the code asks of the outside: the clock, map iteration orders, the
    entries other nodes commit between two events, Raft's role, leader, statistics and the
    outcome of a proposal, commands, contexts and PostgreSQL's answers; each answer may depend
    on the number of the event, so nothing is assumed of it unless a theorem says so. The
    world keeps the local copy of the replicated state and the trace of effects.
  \<^item> Consensus store (\<open>consensus/store.go\<close>): \<open>Store\<close>, with \<open>StoreProps\<close> proving that every
    typed write refines its command.
  \<^item> Router (\<open>proxy/router.go\<close>, the adapter in \<open>store.go\<close>): \<open>Router\<close>, with the locale
    \<open>state_source\<close> for the interface \<open>ClusterStateSource\<close>, interpreted on the Raft adapter.
  \<^item> Configuration (\<open>config/config.go\<close>, \<open>config/validate.go\<close>): \<open>Config\<close>.
  \<^item> Failover controller (\<open>cluster/failover.go\<close>): \<open>Failover\<close> and \<open>FailoverProps\<close>; the locale
    \<open>polling\<close> is the contract of the two waiting loops of a switchover.
  \<^item> Health checker (\<open>cluster/health.go\<close>): \<open>Health\<close>; the locales \<open>bounded_buffer\<close> and
    \<open>bounded_history\<close> are the contract of the ring buffer.
  \<^item> Replication manager (\<open>cluster/replication.go\<close>): \<open>Replication\<close>.
  \<^item> Cluster manager (\<open>cluster/manager.go\<close>): \<open>Manager\<close>, a whole turn of the node state machine,
    and \<open>ManagerProps\<close>: reachable states of a node under any environment (an inductive step
    relation), fencing, self-fencing, directives on a node that does not lead, and the states a
    node cannot leave. The locales \<open>node_invariant\<close> and \<open>node_invariant_any_state\<close> carry an
    invariant through every operation; they are interpreted on the invariant of a node, on its
    state, and on the history of a node that never leads.
  \<^item> Connection pool (\<open>proxy/pool.go\<close>): \<open>Pool\<close>, one operation per critical section, and
    \<open>PoolProps\<close>: the interleavings of clients, the two fillers and \<open>Close\<close> as a step relation,
    where the connections are on every reachable state, and runs that lose a connection or
    crash. \<open>PoolManager\<close> (\<open>proxy/pool_manager.go\<close>) has the map of pools and its interleavings,
    and draining, in which closing the pools and the timeout are events in any order.
  \<^item> Proxy (\<open>proxy/proxy.go\<close>, \<open>proxy/connection.go\<close>): \<open>Proxy\<close>, serving a client through router
    and pool, the connection tracker, and draining; \<open>Pipe\<close>, copying in both directions as
    interleaved actions of two goroutines that carry the answers of the sockets, with what a
    destination gets and that the goroutines end.
  \<^item> PostgreSQL parameters (\<open>cluster/pgconfig.go\<close>): \<open>PgConfig\<close>, with a lexer for SQL string
    literals as the specification of quoting.
  \<^item> pg\_rewind's progress (\<open>cluster/progress.go\<close>): \<open>Progress\<close>, whose output buffer is another
    instance of \<open>bounded_buffer\<close>.
  \<^item> HTTP API (\<open>api/server.go\<close>, \<open>api/handlers.go\<close>): \<open>Http\<close> has requests, responses, paths and the
    request multiplexer of \<open>net/http\<close>, \<open>Api\<close> every handler, the routing table and the chain of
    middleware as \<open>NewServer\<close> builds it, \<open>ApiProps\<close> what the endpoints promise: authentication, the
    rate limit in spite of float64, the probes, failover and configuration changes. The locale
    \<open>read_only_source\<close> is the contract of a handler that only reads. The state of the components
    the API reports on is a function of the number of the event.
  \<^item> VIP manager (\<open>vip/\<close>): \<open>Vip\<close>, with the manager, the watcher goroutines and Raft's observations
    as actions on channels, observers and cancellation, the assignment and removal of the
    address, and the ARP frame byte by byte; \<open>VipProps\<close> shows when the address is on the
    interface, that it is given up, and which elections are missed. The locale \<open>leadership_source\<close> is
    the interface \<open>LeadershipSource\<close>, interpreted on the Raft source. That a change of
    leadership comes with an observation, and that the kernel reports an address as present only
    when it is, is the hypothesis \<open>announces\<close> of the theorems that need it.
  \<^item> Daemon (\<open>consensus/raft.go\<close>, \<open>tracing/tracing.go\<close>, \<open>cmd/pgbastion/main.go\<close>): \<open>Daemon\<close>, start-up
    with every error path, what is opened and closed, the TLS settings of the Raft transport and
    its stream layer, the signal handler and the settings handed to the components.
  \<^item> \<open>Loops\<close>: the \<open>Run\<close> loops of health checker, cluster manager, configuration watcher, proxy, API
    server and Raft metrics. The locale \<open>ticking\<close> is the contract of a ticker loop's turn; it is
    interpreted on four of them.
  \<^item> Command line (\<open>cmd/pgbastion/main.go\<close>): \<open>Cli\<close>, every command over an HTTP client, which is
    composed with the API of the same node to follow a command down to the Raft log.
  \<^item> Test doubles (\<open>testutil/chaos.go\<close>): \<open>Chaos\<close>, with the guarantees the tests rely on.
  \<^item> \<open>GoStd\<close> holds the standard library functions the code computes with (float64 rounding,
    durations as text, IP addresses, file paths) and \<open>Prelude\<close> Go's time, integers and maps.

  \<^bold>\<open>Conventions.\<close> Instants and durations are integers in nanoseconds; Go integers are
  integers with \<open>wrap64\<close> where the code computes with unbounded operands. A Go map is
  \<open>None\<close> when nil; its loops take the order from a \<open>ranger\<close>. Errors are values, panics are
  \<open>RPanic\<close> or \<open>None\<close>. Logging, metrics and tracing calls are left out. A critical section runs as
  one step; the entries other nodes commit arrive between the events of an operation.

  \<^bold>\<open>Bounds and fuel.\<close> The two waiting loops of a switchover take fuel; \<open>Waiting\<close> is the value of
  a loop that has not returned yet, and they return once the context is done, which its
  timeout guarantees. The retry loop of a directive's completion is a recursion over the five
  attempts of the code. Draining clients takes fuel, and returns once its deadline has passed;
  draining pools is a recursion over its events, and returns when its timeout is among them.
  The switchover of the API and of the command line takes the fuel of its waiting loops, the
  event stream fuel for its ticks. The \<open>Run\<close> loops are recursions over the sequence of ticks and
  report whether they have returned. Everything else is total.

  \<^bold>\<open>This theory\<close> has the properties that go through several components: clients are connected
  to the recorded primary only, and what becomes of a parameter set through the API on its way to
  PostgreSQL.

  \<^bold>\<open>Not modelled.\<close> Log messages, prometheus counters and histograms (other than the Raft gauges) and
  trace attributes, which nothing reads back; socket options and keepalive; the parsing of
  command line flags and the time limits of the command line's HTTP client; the files of the
  dashboard; the wrappers that only pass a call on to pgx, os/exec or TLS. Hashicorp's Raft,
  memberlist, bolt, netlink, PostgreSQL and the YAML reader are parameters.
\<close>

section \<open>Clients reach the primary only\<close>

lemma handle_begin_connects:
  assumes "handle_begin addr usePool dialed client ct = (h, es, ct')" and "Dialed a c \<in> set es \<or> Acquired a c \<in> set es"
  shows "a = addr \<and> addr \<noteq> ''''"
  using assms by (auto simp: handle_begin_def split: if_splits option.splits prod.splits)

text \<open>
  (C27) From the client to the replicated state: a connection that the primary listener opens for
  a client goes to the address of the node recorded as primary, and none is opened while the
  split-brain flag is set.
\<close>

theorem writes_reach_primary_only:
  assumes "run_state (serve_primary (RaftStateAdapter E) usePool dialed client ct) w = ((h, es, ct'), w')"
    and "Dialed a c \<in> set es \<or> Acquired a c \<in> set es"
  shows "\<not> IsSplitBrain (w_fsm (arrive E w)) \<and>
    (\<exists>p. GetPrimary (w_fsm w') = Some p \<and> a = ni_Host p @ '':'' @ show_int (ni_Port p))"
proof -
  obtain addr where run: "run_state (PrimaryAddr (RaftStateAdapter E)) w = (addr, w')"
    and hb: "handle_begin addr usePool dialed client ct = (h, es, ct')"
    using assms(1) by (auto simp: serve_primary_def serve_on_def split: prod.splits)
  from handle_begin_connects [OF hb assms(2)] have a: "a = addr" "addr \<noteq> ''''" by auto
  show ?thesis
    using run a
    by (auto simp: PrimaryAddr_def RaftStateAdapter_def node_addr_def to_NodeState_def split: if_splits option.splits)
qed

definition ex_served :: "(handler option \<times> effect list \<times> ConnectionTracker) \<times> world" where
  "ex_served = run_state (serve_primary (RaftStateAdapter quiet_env) True (Some (7, ''r'')) 0 NewConnectionTracker) (start_world ex_cluster)"

theorem writes_reach_primary_only_witness:
  "\<exists>p. GetPrimary (w_fsm (snd ex_served)) = Some p \<and> '':0'' = ni_Host p @ '':'' @ show_int (ni_Port p)"
proof -
  have run: "run_state (serve_primary (RaftStateAdapter quiet_env) True (Some (7, ''r'')) 0 NewConnectionTracker) (start_world ex_cluster)
      = ((fst (fst ex_served), fst (snd (fst ex_served)), snd (snd (fst ex_served))), snd ex_served)"
    by (simp add: ex_served_def)
  have "fst (snd (fst ex_served)) = [Acquired '':0'' 7]" by code_simp
  then have "Dialed '':0'' 7 \<in> set (fst (snd (fst ex_served))) \<or> Acquired '':0'' 7 \<in> set (fst (snd (fst ex_served)))" by simp
  from writes_reach_primary_only [OF run this] show ?thesis by blast
qed

section \<open>From the API to PostgreSQL\<close>

text \<open>
  (C26) From the API to PostgreSQL. On a well-formed replicated state, let a PATCH or POST with status 200 set a parameter whose name is valid to
  a value that is not empty, and let s be the state that its commit made (what the handler leaves differs by later entries only).
  A run of the applier that finds the configuration of s, has a connection and has applied an older version only, asks for one
  statement that assigns exactly that value. But the statements are sent by Query and their rows stay open: on a connection that
  refuses queries while rows are open, as pgx documents, at most one of all the statements of the run, the reload included, is carried
  out; the run reports no error and records the version as applied, and no later run of that version sends anything.
\<close>

theorem config_change_sent_once:
  assumes "fsm_inv (w_fsm w)" and "\<And>k. is_ranger (e_ranger E k)"
    and "rq_Method rq \<in> {MethodPatch, MethodPost}"
    and "run_state (postgresqlConfigRouter h E rq) w = (r, w')" and "status_of r = 200"
    and "decode_request dec_params \<lparr>pq_Parameters = None\<rparr> rq = Inr req"
    and "mget (pq_Parameters req) name = Some v" and "v \<noteq> ''''" and "isValidParameterName name"
    and "is_ranger ord" and "ca_has_store a"
    and "\<And>sql c c'. query sql c = (None, c') \<Longrightarrow> busy c'"
    and "\<And>sql c. busy c \<Longrightarrow> fst (query sql c) \<noteq> None \<and> busy (snd (query sql c))"
  shows "\<exists>s. w_fsm w' = apply_log (arrivals E (w_k w + 4) (w_k w')) s \<and>
    mget (pc_Parameters (GetPostgreSQLConfig s)) name = Some v \<and>
    (lastAppliedVersion a < GetPostgreSQLConfigVersion s \<longrightarrow>
      (\<forall>err stmts a'. ApplyConfig ord (Inr c) settings query (GetPostgreSQLConfig s) a = (err, stmts, a') \<longrightarrow>
         err = None \<and> alter_system_set name v \<in> fst ` set stmts \<and> length (answered stmts) \<le> 1 \<and>
         lastAppliedVersion a' = GetPostgreSQLConfigVersion s \<and>
         (\<forall>ord' conn settings'. ApplyConfig ord' conn settings' query (GetPostgreSQLConfig s) a' = (None, [], a'))))"
proof -
  have "config_ok h E rq w r w'"
    using config_update_ok [OF assms(1,2)] assms(3,4) by (force simp: postgresqlConfigRouter_def)
  then obtain patch s where "requested_patch rq = Some patch" "patched (h_nodeName h) patch (w_fsm (later E 4 w)) s"
    and land: "w_fsm w' = apply_log (arrivals E (w_k w + 4) (w_k w')) s"
    using assms(5) by (auto simp: config_ok_def)
  moreover have "patch = pq_Parameters req" if "requested_patch rq = Some patch"
    using that assms(3,6) by (auto simp: requested_patch_def split: if_splits)
  ultimately have set: "mget (pc_Parameters (PgConfig s)) name = Some v"
    using assms(7,8) by (simp add: patched_def)
  define params where "params = the (pc_Parameters (PgConfig s))"
  have lk: "fmlookup params name = Some v" and p: "pc_Parameters (GetPostgreSQLConfig s) = Some params"
    using set by (auto simp: params_def GetPostgreSQLConfig_def mget_def split: option.splits)
  then have ne: "params \<noteq> fmempty" by auto
  have ver: "pc_Version (GetPostgreSQLConfig s) = GetPostgreSQLConfigVersion s"
    by (simp add: GetPostgreSQLConfig_def GetPostgreSQLConfigVersion_def Let_def)
  show ?thesis
  proof (intro exI [of _ s] conjI allI impI land)
    show "mget (pc_Parameters (GetPostgreSQLConfig s)) name = Some v" using lk p by (simp add: mget_def)
    fix err stmts a' assume v: "lastAppliedVersion a < GetPostgreSQLConfigVersion s"
      and run: "ApplyConfig ord (Inr c) settings query (GetPostgreSQLConfig s) a = (err, stmts, a')"
    note sends = apply_config_sends [OF assms(10,11) v [folded ver] p ne run]
    note lost = busy_connection_loses_parameters [OF assms(12,13,11) v [folded ver] run]
    show "err = None" and "lastAppliedVersion a' = GetPostgreSQLConfigVersion s" using sends ver by simp_all
    show "length (answered stmts) \<le> 1" using lost by simp
    have "name \<in> set (filter isValidParameterName (ord (fmdom params)))"
      using lk assms(9,10) by (auto simp: ranger_set intro: fmdomI)
    then have "alter_system_set name v \<in> set (map fst stmts)" using sends lk by (auto simp: image_iff)
    then show "alter_system_set name v \<in> fst ` set stmts" by (simp only: set_map)
    fix ord' conn settings'
    show "ApplyConfig ord' conn settings' query (GetPostgreSQLConfig s) a' = (None, [], a')" using sends by (simp add: ApplyConfig_def)
  qed
qed

theorem config_change_sent_once_witness:
  "\<exists>s stmts a'. ApplyConfig sorted_list_of_fset (Inr False) (Inr ([], None)) pgx_query (GetPostgreSQLConfig s) (NewConfigApplier True) = (None, stmts, a') \<and>
     mget (pc_Parameters (GetPostgreSQLConfig s)) ''jit'' = Some ''off''"
proof -
  let ?rq = "ex_request MethodPatch ''/cluster/postgresql'' ex_patch" and ?w = "start_node (ex_mconfig ''n1'' 0) StateRunningReplica NewClusterFSM"
  have run: "run_state (postgresqlConfigRouter ex_api quiet_env ?rq) ?w = (fst ex_config_run, snd ex_config_run)"
    by (simp add: ex_config_run_def)
  have env: "fsm_inv (w_fsm ?w)" "is_ranger (e_ranger quiet_env k)" "arrivals quiet_env i j = []" for k i j
    by (simp_all add: start_node_def fsm_inv_NewClusterFSM quiet_env_def ranger_sorted arrivals_def)
  have req: "rq_Method ?rq \<in> {MethodPatch, MethodPost}" "status_of (fst ex_config_run) = 200"
    "decode_request dec_params \<lparr>pq_Parameters = None\<rparr> ?rq = Inr \<lparr>pq_Parameters = Some (fmupd ''jit'' ''off'' fmempty)\<rparr>"
    by (simp add: ex_request_def, code_simp, simp add: ex_request_def ex_patch_def decode_request_def dec_params_def dec_field_def key_matches_def)
  have app: "isValidParameterName ''jit''" "ca_has_store (NewConfigApplier True)"
    "lastAppliedVersion (NewConfigApplier True) < GetPostgreSQLConfigVersion (w_fsm (snd ex_config_run))"
    by code_simp+
  have pgx: "pgx_query sql c = (None, c') \<Longrightarrow> c'" "c \<Longrightarrow> fst (pgx_query sql c) \<noteq> None \<and> snd (pgx_query sql c)" for sql c c'
    by (auto simp: pgx_query_def)
  have "\<exists>s. w_fsm (snd ex_config_run) = s \<and> mget (pc_Parameters (GetPostgreSQLConfig s)) ''jit'' = Some ''off'' \<and>
      (\<forall>err stmts a'. ApplyConfig sorted_list_of_fset (Inr False) (Inr ([], None)) pgx_query (GetPostgreSQLConfig s) (NewConfigApplier True)
         = (err, stmts, a') \<longrightarrow> err = None)"
    using config_change_sent_once [where busy = "\<lambda>b. b" and query = pgx_query and c = False and settings = "Inr ([], None)" and name = "''jit''"
        and v = "''off''", OF env(1,2) req(1) run req(2,3) _ _ app(1) ranger_sorted app(2) pgx] app(3)
    by (auto simp: env(3))
  then show ?thesis by (metis prod_cases3)
qed

end
